(* ===== verification/Prelude.thy ===== *)
theory Prelude
  imports Main "HOL-Library.Sublist" "HOL-Library.Multiset"
begin

text \<open>
  Shared vocabulary of the development: Go error values and the \<open>(value, error)\<close> convention,
  the pieces of Go's \<^verbatim>\<open>strings\<close>, \<^verbatim>\<open>strconv\<close> and \<^verbatim>\<open>regexp\<close> packages the sources use, and the
  generic list lemmas the component theories share.

  A Go \<^verbatim>\<open>string\<close> is a sequence of bytes, which is what \<^typ>\<open>string\<close> is here (a \<^typ>\<open>char\<close> is a
  byte), so \<^term>\<open>length s\<close> is Go's \<^verbatim>\<open>len(s)\<close>.
\<close>

named_theorems go_simps \<open>unfolding equations of the small helper definitions\<close>

named_theorems append_only \<open>a write operation only appends to the tables of the result store\<close>

named_theorems frame \<open>what an operation leaves unchanged\<close>


section \<open>Error values\<close>

text \<open>
  A Go error is \<open>Errorf format args\<close>: the literal format string of the \<^verbatim>\<open>errors.New\<close> or
  \<^verbatim>\<open>fmt.Errorf\<close> call and its operands in order. \<open>S\<close> is a plain operand (a string, or a number
  already printed), \<open>W\<close> an error under the verb \<^verbatim>\<open>%w\<close> and \<open>V\<close> an error under \<^verbatim>\<open>%v\<close>. The text
  of an error is determined by that pair; only \<open>W\<close> operands are seen by \<^verbatim>\<open>errors.Is\<close>.
\<close>

datatype goerr = Errorf string "farg list"
and farg = S string | W goerr | V goerr

text \<open>The common case of one result: Go's pair of a value and an error of which exactly one is set.\<close>

type_synonym 'a result = "goerr + 'a"

abbreviation errors_New :: "string \<Rightarrow> goerr" where
  "errors_New s \<equiv> Errorf s []"

fun errors_Is :: "goerr \<Rightarrow> goerr \<Rightarrow> bool"
and farg_Is :: "farg \<Rightarrow> goerr \<Rightarrow> bool" where
  "errors_Is (Errorf f as) t = (Errorf f as = t \<or> (\<exists>a \<in> set as. farg_Is a t))"
| "farg_Is (W e) t = errors_Is e t"
| "farg_Is (S s) t = False"
| "farg_Is (V e) t = False"

lemma errors_Is_refl [simp]: "errors_Is e e"
  by (cases e) simp

text \<open>\<^verbatim>\<open>context.Canceled\<close> and \<^verbatim>\<open>context.DeadlineExceeded\<close>.\<close>

definition context_Canceled :: goerr where
  "context_Canceled = errors_New ''context canceled''"

definition context_DeadlineExceeded :: goerr where
  "context_DeadlineExceeded = errors_New ''context deadline exceeded''"

definition res_bind :: "'a result \<Rightarrow> ('a \<Rightarrow> 'b result) \<Rightarrow> 'b result" where
  "res_bind r f = (case r of Inl e \<Rightarrow> Inl e | Inr x \<Rightarrow> f x)"

definition wrap_err :: "string \<Rightarrow> 'a result \<Rightarrow> 'a result" where
  "wrap_err fmt r = (case r of Inl e \<Rightarrow> Inl (Errorf fmt [W e]) | Inr x \<Rightarrow> Inr x)"

text \<open>\<^verbatim>\<open>if err := check(); err != nil { return err }\<close> over a sequence of checks: the first failure.\<close>

fun first_err :: "goerr option list \<Rightarrow> goerr option" where
  "first_err [] = None"
| "first_err (None # cs) = first_err cs"
| "first_err (Some e # cs) = Some e"

definition check :: "bool \<Rightarrow> goerr \<Rightarrow> goerr option" where
  "check ok e = (if ok then None else Some e)"

lemma check_None [simp]: "check ok e = None \<longleftrightarrow> ok"
  by (simp add: check_def)

lemma check_None_sym [simp]: "None = check ok e \<longleftrightarrow> ok"
  by (auto simp: check_def)

lemma first_err_None: "first_err cs = None \<longleftrightarrow> (\<forall>c \<in> set cs. c = None)"
  by (induction cs rule: first_err.induct) auto

lemma first_err_None_Cons [simp]: "first_err (c # cs) = None \<longleftrightarrow> c = None \<and> first_err cs = None"
  by (simp add: first_err_None)

lemma first_err_Some_in: "first_err cs = Some e \<Longrightarrow> Some e \<in> set cs"
  by (induction cs rule: first_err.induct) auto

lemma res_bind_simps [simp]:
  "res_bind (Inl e) f = Inl e" "res_bind (Inr x) f = f x"
  by (simp_all add: res_bind_def)

lemma res_bind_Inr_iff: "res_bind r f = Inr y \<longleftrightarrow> (\<exists>x. r = Inr x \<and> f x = Inr y)"
  by (cases r) auto

lemma wrap_err_simps [simp]:
  "wrap_err s (Inl e) = Inl (Errorf s [W e])" "wrap_err s (Inr x) = Inr x"
  by (simp_all add: wrap_err_def)

lemma wrap_err_Inr_iff [simp]: "wrap_err s r = Inr x \<longleftrightarrow> r = Inr x"
  by (cases r) auto


section \<open>Printing\<close>

fun digits_rev :: "nat \<Rightarrow> string" where
  "digits_rev n = (if n < 10 then [char_of (48 + n)]
                   else char_of (48 + n mod 10) # digits_rev (n div 10))"

declare digits_rev.simps [simp del]

text \<open>\<^verbatim>\<open>%d\<close> and \<^verbatim>\<open>strconv.Itoa\<close>.\<close>

definition show_nat :: "nat \<Rightarrow> string" where
  "show_nat n = rev (digits_rev n)"

definition show_int :: "int \<Rightarrow> string" where
  "show_int i = (if i < 0 then CHR ''-'' # show_nat (nat (- i)) else show_nat (nat i))"

text \<open>
  \<^verbatim>\<open>%q\<close> (\<^verbatim>\<open>strconv.Quote\<close>) for the ASCII range; bytes above 127 are copied, as \<^verbatim>\<open>Quote\<close> copies
  printable UTF-8.
\<close>

definition hex_digit :: "nat \<Rightarrow> char" where
  "hex_digit n = (if n < 10 then char_of (48 + n) else char_of (87 + n))"

fun quote_byte :: "char \<Rightarrow> string" where
  "quote_byte c =
    (let n = (of_char c :: nat) in
     if n = 34 then [char_of (92::nat), c]
     else if n = 92 then [c, c]
     else if n = 7 then [char_of (92::nat), CHR ''a'']
     else if n = 8 then [char_of (92::nat), CHR ''b'']
     else if n = 9 then [char_of (92::nat), CHR ''t'']
     else if n = 10 then [char_of (92::nat), CHR ''n'']
     else if n = 11 then [char_of (92::nat), CHR ''v'']
     else if n = 12 then [char_of (92::nat), CHR ''f'']
     else if n = 13 then [char_of (92::nat), CHR ''r'']
     else if n < 32 \<or> n = 127 then [char_of (92::nat), CHR ''x'', hex_digit (n div 16), hex_digit (n mod 16)]
     else [c])"

definition quote :: "string \<Rightarrow> string" where
  "quote s = char_of (34::nat) # concat (map quote_byte s) @ [char_of (34::nat)]"

text \<open>Substitution of rendered operands for the verbs of a format, left to right.\<close>

fun render :: "string \<Rightarrow> (string \<times> string) list \<Rightarrow> string" where
  "render [] as = []"
| "render [c] as = [c]"
| "render (c # v # cs) as =
    (if c \<noteq> CHR ''%'' then c # render (v # cs) as
     else if v = CHR ''%'' then v # render cs as
     else (case as of [] \<Rightarrow> c # v # render cs []
           | (plain, quoted) # as' \<Rightarrow> (if v = CHR ''q'' then quoted else plain) @ render cs as'))"

text \<open>\<^verbatim>\<open>err.Error()\<close>.\<close>

fun Error :: "goerr \<Rightarrow> string"
and farg_text :: "farg \<Rightarrow> string \<times> string" where
  "Error (Errorf f as) = (if as = [] then f else render f (map farg_text as))"
| "farg_text (S s) = (s, quote s)"
| "farg_text (W e) = (Error e, quote (Error e))"
| "farg_text (V e) = (Error e, quote (Error e))"


text \<open>The UTF-8 bytes of the two non-ASCII characters that occur in the messages of the sources.\<close>

definition section_sign :: string where
  "section_sign = [char_of (194::nat), char_of (167::nat)]"

definition em_dash :: string where
  "em_dash = [char_of (226::nat), char_of (128::nat), char_of (148::nat)]"


section \<open>Strings\<close>

text \<open>\<^verbatim>\<open>strings.ContainsRune\<close> for an ASCII rune: in UTF-8 the byte occurs only as that rune.\<close>

definition ContainsRune :: "string \<Rightarrow> char \<Rightarrow> bool" where
  "ContainsRune s c \<longleftrightarrow> c \<in> set s"

definition HasPrefix :: "string \<Rightarrow> string \<Rightarrow> bool" where
  "HasPrefix s p \<longleftrightarrow> take (length p) s = p"

definition HasSuffix :: "string \<Rightarrow> string \<Rightarrow> bool" where
  "HasSuffix s p \<longleftrightarrow> HasPrefix (rev s) (rev p)"

definition TrimPrefix :: "string \<Rightarrow> string \<Rightarrow> string" where
  "TrimPrefix s p = (if HasPrefix s p then drop (length p) s else s)"

definition TrimSuffix :: "string \<Rightarrow> string \<Rightarrow> string" where
  "TrimSuffix s p = (if HasSuffix s p then take (length s - length p) s else s)"

fun strings_Join :: "string list \<Rightarrow> string \<Rightarrow> string" where
  "strings_Join [] sep = []"
| "strings_Join [x] sep = x"
| "strings_Join (x # y # xs) sep = x @ sep @ strings_Join (y # xs) sep"

text \<open>\<^verbatim>\<open>%v\<close> of a \<^verbatim>\<open>[]string\<close>.\<close>

definition show_strings :: "string list \<Rightarrow> string" where
  "show_strings xs = ''['' @ strings_Join xs '' '' @ '']''"

text \<open>\<^verbatim>\<open>strings.Split\<close> by a one-byte separator.\<close>

fun strings_Split :: "string \<Rightarrow> char \<Rightarrow> string list" where
  "strings_Split [] sep = [[]]"
| "strings_Split (c # cs) sep =
    (if c = sep then [] # strings_Split cs sep
     else (case strings_Split cs sep of
             [] \<Rightarrow> [[c]]
           | p # ps \<Rightarrow> (c # p) # ps))"

lemma HasPrefix_iff_prefix: "HasPrefix s p \<longleftrightarrow> prefix p s"
proof
  assume "HasPrefix s p"
  then show "prefix p s" unfolding HasPrefix_def by (metis take_is_prefix)
next
  assume "prefix p s"
  then show "HasPrefix s p" by (auto simp: HasPrefix_def prefix_def)
qed

lemma HasPrefix_append [simp]: "HasPrefix (p @ s) p"
  by (simp add: HasPrefix_def)

lemma HasSuffix_iff: "HasSuffix s p \<longleftrightarrow> (\<exists>x. s = x @ p)"
  by (auto simp: HasSuffix_def HasPrefix_iff_prefix suffix_to_prefix [symmetric] suffix_def)

lemma HasSuffix_append [simp]: "HasSuffix (x @ p) p"
  by (auto simp: HasSuffix_iff)

lemma TrimSuffix_append [simp]: "TrimSuffix (x @ p) p = x"
  by (simp add: TrimSuffix_def)

lemma TrimPrefix_append [simp]: "TrimPrefix (p @ s) p = s"
  by (simp add: TrimPrefix_def)

lemma strings_Split_nonempty [simp]: "strings_Split s c \<noteq> []"
  by (cases s) (auto split: list.splits)

text \<open>Splitting undoes joining when no part contains the separator.\<close>

lemma strings_Split_free: "c \<notin> set s \<Longrightarrow> strings_Split s c = [s]"
  by (induction s) auto

lemma strings_Split_append:
  "c \<notin> set s \<Longrightarrow> strings_Split (s @ c # t) c = s # strings_Split t c"
  by (induction s) auto

lemma strings_Split_Join:
  assumes "ps \<noteq> []" and "\<forall>p \<in> set ps. c \<notin> set p"
  shows "strings_Split (strings_Join ps [c]) c = ps"
  using assms
proof (induction ps "[c]" rule: strings_Join.induct)
  case 1
  then show ?case by simp
next
  case (2 x)
  then show ?case by (simp add: strings_Split_free)
next
  case (3 x y xs)
  then show ?case by (simp add: strings_Split_append)
qed

lemma strings_Join_inject:
  assumes "strings_Join ps [c] = strings_Join qs [c]"
    and "ps \<noteq> []" "qs \<noteq> []"
    and "\<forall>p \<in> set ps. c \<notin> set p" "\<forall>q \<in> set qs. c \<notin> set q"
  shows "ps = qs"
  using assms strings_Split_Join by metis


section \<open>Byte classes and the regular expressions of the sources\<close>

definition is_digit :: "char \<Rightarrow> bool" where
  "is_digit c \<longleftrightarrow> (of_char c :: nat) \<in> {48..57}"

definition is_lower :: "char \<Rightarrow> bool" where
  "is_lower c \<longleftrightarrow> (of_char c :: nat) \<in> {97..122}"

definition is_upper :: "char \<Rightarrow> bool" where
  "is_upper c \<longleftrightarrow> (of_char c :: nat) \<in> {65..90}"

definition is_alnum :: "char \<Rightarrow> bool" where
  "is_alnum c \<longleftrightarrow> is_digit c \<or> is_lower c \<or> is_upper c"

definition is_lower_hex :: "char \<Rightarrow> bool" where
  "is_lower_hex c \<longleftrightarrow> is_digit c \<or> (of_char c :: nat) \<in> {97..102}"

text \<open>An anchored \<^verbatim>\<open>^[class]+$\<close>; Go's \<^verbatim>\<open>$\<close> without the \<^verbatim>\<open>m\<close> flag matches at the end of text only.\<close>

definition matches_plus :: "(char \<Rightarrow> bool) \<Rightarrow> string \<Rightarrow> bool" where
  "matches_plus p s \<longleftrightarrow> s \<noteq> [] \<and> list_all p s"

definition digit_val :: "char \<Rightarrow> nat" where
  "digit_val c = of_char c - 48"

text \<open>A run of decimal digits read as a number.\<close>

definition digits_val :: "string \<Rightarrow> nat" where
  "digits_val s = fold (\<lambda>c n. 10 * n + digit_val c) s 0"

text \<open>\<^verbatim>\<open>strings.TrimSpace\<close> on ASCII text.\<close>

definition is_space :: "char \<Rightarrow> bool" where
  "is_space c \<longleftrightarrow> (of_char c :: nat) \<in> {9, 10, 11, 12, 13, 32}"

definition TrimSpace :: "string \<Rightarrow> string" where
  "TrimSpace s = rev (dropWhile is_space (rev (dropWhile is_space s)))"

text \<open>\<^verbatim>\<open>strconv.Atoi\<close>: an optional sign and decimal digits, within 64 bits.\<close>

definition strconv_ErrSyntax :: goerr where "strconv_ErrSyntax = errors_New ''invalid syntax''"
definition strconv_ErrRange :: goerr where "strconv_ErrRange = errors_New ''value out of range''"

definition split_sign :: "string \<Rightarrow> bool \<times> string" where
  "split_sign s = (case s of [] \<Rightarrow> (False, []) | c # cs \<Rightarrow>
     if c = CHR ''-'' then (True, cs) else if c = CHR ''+'' then (False, cs) else (False, s))"

definition Atoi :: "string \<Rightarrow> int result" where
  "Atoi s =
    (case split_sign s of (neg, ds) \<Rightarrow>
       if \<not> matches_plus is_digit ds then Inl (Errorf ''strconv.Atoi: parsing %q: %w'' [S s, W strconv_ErrSyntax])
       else (let v = (if neg then - int (digits_val ds) else int (digits_val ds))
             in if v < - (2 ^ 63) \<or> 2 ^ 63 \<le> v then Inl (Errorf ''strconv.Atoi: parsing %q: %w'' [S s, W strconv_ErrRange])
                else Inr v))"

lemma pipe_not_alnum [simp]: "\<not> is_alnum (CHR ''|'')" "\<not> is_digit (CHR ''|'')"
  by (simp_all add: is_alnum_def is_digit_def is_lower_def is_upper_def)

lemma digit_char:
  assumes "n < 10"
  shows "is_digit (char_of (48 + n))" "digit_val (char_of (48 + n)) = n"
proof -
  have "of_char (char_of (48 + n) :: char) = (48 + n :: nat)"
    using assms by (simp add: of_char_of)
  then show "is_digit (char_of (48 + n))" "digit_val (char_of (48 + n)) = n"
    using assms by (auto simp: is_digit_def digit_val_def)
qed


section \<open>Lists\<close>

lemma prefix_filter_mono: "prefix xs ys \<Longrightarrow> prefix (filter P xs) (filter P ys)"
  by (auto simp: prefix_def)

lemma filter_empty_append [simp]:
  "filter P (xs @ ys) = [] \<longleftrightarrow> filter P xs = [] \<and> filter P ys = []"
  by auto

lemma remdups_singleton: "set xs = {x} \<Longrightarrow> remdups xs = [x]"
proof -
  assume s: "set xs = {x}"
  then have "length (remdups xs) = 1" by (simp add: length_remdups_card_conv)
  then obtain y where "remdups xs = [y]" by (auto simp: length_Suc_conv)
  moreover have "set (remdups xs) = {x}" using s by simp
  ultimately show ?thesis by simp
qed

lemma list_all2_imp_all_right: "list_all2 P xs ys \<Longrightarrow> y \<in> set ys \<Longrightarrow> \<exists>x \<in> set xs. P x y"
  by (metis in_set_conv_nth list_all2_conv_all_nth nth_mem)

end
