(* ===== verification/Sha256.thy ===== *)
theory Sha256
  imports Prelude "HOL-Library.Word"
begin

text \<open>
  SHA-256 as Go's \<^verbatim>\<open>crypto/sha256\<close> computes it (FIPS 180-4), followed by \<^verbatim>\<open>hex.EncodeToString\<close>.
  The execution identity (\<^verbatim>\<open>runner.Compute\<close>), the content-addressed object keys and the loader's
  body verification all go through \<open>sha256_hex\<close>. Nothing about collisions is assumed anywhere:
  the properties that depend on two digests being different exhibit the colliding pair.
\<close>

unbundle bit_operations_syntax

type_synonym u32 = "32 word"

definition round_constants :: "u32 list" where
  "round_constants =
    [1116352408, 1899447441, 3049323471, 3921009573, 961987163, 1508970993, 2453635748, 2870763221,
     3624381080, 310598401, 607225278, 1426881987, 1925078388, 2162078206, 2614888103, 3248222580,
     3835390401, 4022224774, 264347078, 604807628, 770255983, 1249150122, 1555081692, 1996064986,
     2554220882, 2821834349, 2952996808, 3210313671, 3336571891, 3584528711, 113926993, 338241895,
     666307205, 773529912, 1294757372, 1396182291, 1695183700, 1986661051, 2177026350, 2456956037,
     2730485921, 2820302411, 3259730800, 3345764771, 3516065817, 3600352804, 4094571909, 275423344,
     430227734, 506948616, 659060556, 883997877, 958139571, 1322822218, 1537002063, 1747873779,
     1955562222, 2024104815, 2227730452, 2361852424, 2428436474, 2756734187, 3204031479, 3329325298]"

record hash_state =
  ha :: u32
  hb :: u32
  hc :: u32
  hd32 :: u32
  he :: u32
  hf :: u32
  hg :: u32
  hh :: u32

definition initial_state :: hash_state where
  "initial_state = \<lparr>ha = 0x6a09e667, hb = 0xbb67ae85, hc = 0x3c6ef372, hd32 = 0xa54ff53a,
     he = 0x510e527f, hf = 0x9b05688c, hg = 0x1f83d9ab, hh = 0x5be0cd19\<rparr>"

definition rotr32 :: "nat \<Rightarrow> u32 \<Rightarrow> u32" where
  "rotr32 n x = drop_bit n x OR push_bit (32 - n) x"

definition sig0 :: "u32 \<Rightarrow> u32" where
  "sig0 x = rotr32 7 x XOR rotr32 18 x XOR drop_bit 3 x"

definition sig1 :: "u32 \<Rightarrow> u32" where
  "sig1 x = rotr32 17 x XOR rotr32 19 x XOR drop_bit 10 x"

definition big_sig0 :: "u32 \<Rightarrow> u32" where
  "big_sig0 x = rotr32 2 x XOR rotr32 13 x XOR rotr32 22 x"

definition big_sig1 :: "u32 \<Rightarrow> u32" where
  "big_sig1 x = rotr32 6 x XOR rotr32 11 x XOR rotr32 25 x"

definition ch :: "u32 \<Rightarrow> u32 \<Rightarrow> u32 \<Rightarrow> u32" where
  "ch x y z = (x AND y) XOR (NOT x AND z)"

definition maj :: "u32 \<Rightarrow> u32 \<Rightarrow> u32 \<Rightarrow> u32" where
  "maj x y z = (x AND y) XOR (x AND z) XOR (y AND z)"

text \<open>The message schedule, newest word first: 16 words of the block, then 48 derived ones.\<close>

fun extend_schedule :: "nat \<Rightarrow> u32 list \<Rightarrow> u32 list" where
  "extend_schedule 0 ws = ws"
| "extend_schedule (Suc n) ws =
    extend_schedule n ((sig1 (ws ! 1) + ws ! 6 + sig0 (ws ! 14) + ws ! 15) # ws)"

definition schedule :: "u32 list \<Rightarrow> u32 list" where
  "schedule block = rev (extend_schedule 48 (rev block))"

definition compress_round :: "u32 \<times> u32 \<Rightarrow> hash_state \<Rightarrow> hash_state" where
  "compress_round = (\<lambda>(k, w) s.
    (let t1 = hh s + big_sig1 (he s) + ch (he s) (hf s) (hg s) + k + w;
         t2 = big_sig0 (ha s) + maj (ha s) (hb s) (hc s)
     in \<lparr>ha = t1 + t2, hb = ha s, hc = hb s, hd32 = hc s,
         he = hd32 s + t1, hf = he s, hg = hf s, hh = hg s\<rparr>))"

definition compress :: "u32 list \<Rightarrow> hash_state \<Rightarrow> hash_state" where
  "compress block s =
    (let r = fold compress_round (zip round_constants (schedule block)) s
     in \<lparr>ha = ha s + ha r, hb = hb s + hb r, hc = hc s + hc r, hd32 = hd32 s + hd32 r,
         he = he s + he r, hf = hf s + hf r, hg = hg s + hg r, hh = hh s + hh r\<rparr>)"

text \<open>Big-endian bytes of the bit length, the padding, and the split into words and blocks.\<close>

fun be_bytes :: "nat \<Rightarrow> int \<Rightarrow> int list" where
  "be_bytes 0 n = []"
| "be_bytes (Suc k) n = be_bytes k (n div 256) @ [n mod 256]"

definition pad_message :: "int list \<Rightarrow> int list" where
  "pad_message bs =
    bs @ [128] @ replicate (nat ((55 - int (length bs)) mod 64)) 0 @ be_bytes 8 (8 * int (length bs))"

fun words_of_bytes :: "int list \<Rightarrow> u32 list" where
  "words_of_bytes (a # b # c # d # bs) =
     word_of_int (((a * 256 + b) * 256 + c) * 256 + d) # words_of_bytes bs"
| "words_of_bytes _ = []"

function blocks :: "u32 list \<Rightarrow> u32 list list" where
  "blocks ws = (if length ws < 16 then [] else take 16 ws # blocks (drop 16 ws))"
  by pat_completeness auto
termination by (relation "measure length") auto

declare blocks.simps [simp del]

definition sha256_state :: "string \<Rightarrow> hash_state" where
  "sha256_state msg =
    fold compress (blocks (words_of_bytes (pad_message (map of_char msg)))) initial_state"

definition hex_word :: "u32 \<Rightarrow> string" where
  "hex_word w = map (\<lambda>i. hex_digit (unat (drop_bit (4 * i) w AND 15))) [7, 6, 5, 4, 3, 2, 1, 0]"

definition sha256_hex :: "string \<Rightarrow> string" where
  "sha256_hex msg =
    (let s = sha256_state msg
     in concat (map hex_word [ha s, hb s, hc s, hd32 s, he s, hf s, hg s, hh s]))"

lemma hex_digit_lower_hex:
  assumes "n < 16"
  shows "is_lower_hex (hex_digit n)"
proof (cases "n < 10")
  case True
  then show ?thesis by (simp add: hex_digit_def is_lower_hex_def digit_char)
next
  case False
  then have "of_char (char_of (87 + n) :: char) = (87 + n :: nat)" using assms by (simp add: of_char_of)
  then show ?thesis using False assms by (simp add: hex_digit_def is_lower_hex_def)
qed

text \<open>The shape every consumer of a digest checks: 64 lowercase hexadecimal characters.\<close>

definition is_hash_hex :: "string \<Rightarrow> bool" where
  "is_hash_hex s \<longleftrightarrow> length s = 64 \<and> list_all is_lower_hex s"

lemma unat_and_15: "unat (x AND 15 :: u32) < 16"
proof -
  have "unat (x AND 15) \<le> unat (15 :: u32)"
    by (rule word_and_le1 [THEN word_le_nat_alt [THEN iffD1]])
  then show ?thesis by simp
qed

lemma hex_word_shape [simp]: "length (hex_word w) = 8" "list_all is_lower_hex (hex_word w)"
  by (simp_all add: hex_word_def hex_digit_lower_hex unat_and_15)

theorem sha256_hex_shape: "is_hash_hex (sha256_hex msg)"
  by (simp add: is_hash_hex_def sha256_hex_def Let_def)

end
