(* ===== verification/Go_Time.thy ===== *)
theory Go_Time
  imports Prelude "HOL-Library.Monad_Syntax"
begin

text \<open>
  The part of Go's \<^verbatim>\<open>time\<close> package the engine relies on. A \<^verbatim>\<open>time.Time\<close> is an instant: the
  number of nanoseconds since Go's zero time, 0001-01-01T00:00:00Z, as an unbounded integer
  (\<^verbatim>\<open>time.Time\<close> keeps 64-bit seconds, far beyond every instant the engine meets). The location
  of a \<^verbatim>\<open>time.Time\<close> only affects printing, and the engine prints after \<^verbatim>\<open>.UTC()\<close>, so \<^verbatim>\<open>UTC\<close> is
  the identity on instants. A \<^verbatim>\<open>time.Duration\<close> is an integer number of nanoseconds.

  \<open>Format\<close> and \<open>Parse\<close> are specialised to the one layout the sources use,
  \<^verbatim>\<open>2006-01-02T15:04:05Z\<close>. The main results are that \<open>Parse\<close> undoes \<open>Format\<close> at second precision
  for four-digit years, and hence that the printed form identifies the instant.
\<close>

type_synonym time = int
type_synonym duration = int

definition nanosecond :: duration where "nanosecond = 1"
definition millisecond :: duration where "millisecond = 1000000"
definition second :: duration where "second = 1000000000"
definition minute :: duration where "minute = 60 * second"
definition hour :: duration where "hour = 60 * minute"

lemmas duration_defs = nanosecond_def millisecond_def second_def minute_def hour_def

definition UTC :: "time \<Rightarrow> time" where "UTC t = t"

text \<open>\<^verbatim>\<open>Truncate\<close> rounds down to a multiple of \<open>d\<close> since the zero time, and is the identity for \<open>d \<le> 0\<close>.\<close>

definition Truncate :: "time \<Rightarrow> duration \<Rightarrow> time" where
  "Truncate t d = (if d \<le> 0 then t else t - t mod d)"

lemma UTC_id [simp]: "UTC t = t"
  by (simp add: UTC_def)

lemma Truncate_le: "0 < d \<Longrightarrow> Truncate t d \<le> t"
  by (simp add: Truncate_def)

lemma Truncate_gt: "0 < d \<Longrightarrow> t < Truncate t d + d"
  using pos_mod_bound[of d t] by (simp add: Truncate_def)

lemma Truncate_dvd: "0 < d \<Longrightarrow> d dvd Truncate t d"
  by (simp add: Truncate_def)

lemma Truncate_mono: "0 < d \<Longrightarrow> t \<le> u \<Longrightarrow> Truncate t d \<le> Truncate u d"
proof -
  assume d: "0 < d" and tu: "t \<le> u"
  have "Truncate t d = d * (t div d)" "Truncate u d = d * (u div d)"
    using d by (simp_all add: Truncate_def minus_mod_eq_mult_div)
  moreover have "t div d \<le> u div d" using d tu by (simp add: zdiv_mono1)
  ultimately show ?thesis using d by simp
qed

lemma Truncate_idem [simp]: "Truncate (Truncate t d) d = Truncate t d"
  by (simp add: Truncate_def)

lemma Truncate_unique:
  assumes "0 < d" "d dvd s" "s \<le> t" "t < s + d"
  shows "Truncate t d = s"
proof -
  from assms(2) obtain k where k: "s = d * k" by blast
  have "t mod d = (d * k + (t - s)) mod d" using k by simp
  also have "\<dots> = (t - s) mod d" by (rule mod_mult_self4)
  also have "\<dots> = t - s" using assms by (intro mod_pos_pos_trivial) auto
  finally have "t mod d = t - s" .
  then show ?thesis using assms(1) by (simp add: Truncate_def)
qed

section \<open>The proleptic Gregorian calendar\<close>

text \<open>Days are counted from 0001-01-01, which is day 0.\<close>

definition is_leap :: "int \<Rightarrow> bool" where
  "is_leap y \<longleftrightarrow> y mod 4 = 0 \<and> (y mod 100 \<noteq> 0 \<or> y mod 400 = 0)"

definition days_before_year :: "int \<Rightarrow> int" where
  "days_before_year y = 365 * (y - 1) + (y - 1) div 4 - (y - 1) div 100 + (y - 1) div 400"

definition days_in :: "int \<Rightarrow> int \<Rightarrow> int" where
  "days_in m y =
    (if m = 2 then (if is_leap y then 29 else 28)
     else if m = 4 \<or> m = 6 \<or> m = 9 \<or> m = 11 then 30 else 31)"

definition days_before_month :: "int \<Rightarrow> int \<Rightarrow> int" where
  "days_before_month m y =
    (if m \<le> 1 then 0 else if m = 2 then 31
     else (if is_leap y then 1 else 0) +
       (if m = 3 then 59 else if m = 4 then 90 else if m = 5 then 120 else if m = 6 then 151
        else if m = 7 then 181 else if m = 8 then 212 else if m = 9 then 243
        else if m = 10 then 273 else if m = 11 then 304 else 334))"

definition days_of_date :: "int \<times> int \<times> int \<Rightarrow> int" where
  "days_of_date = (\<lambda>(y, m, d). days_before_year y + days_before_month m y + (d - 1))"

text \<open>Year and zero-based day of the year of a day number: 400, 100, 4 and 1-year cycles.\<close>

definition year_yday :: "int \<Rightarrow> int \<times> int" where
  "year_yday n =
    (let n400 = n div 146097; r400 = n mod 146097;
         n100 = min 3 (r400 div 36524); r100 = r400 - 36524 * n100;
         n4 = r100 div 1461; r4 = r100 mod 1461;
         n1 = min 3 (r4 div 365)
     in (400 * n400 + 100 * n100 + 4 * n4 + n1 + 1, r4 - 365 * n1))"

definition month_of_yday :: "int \<Rightarrow> int \<Rightarrow> int" where
  "month_of_yday y yd =
    (if yd < days_before_month 2 y then 1 else if yd < days_before_month 3 y then 2
     else if yd < days_before_month 4 y then 3 else if yd < days_before_month 5 y then 4
     else if yd < days_before_month 6 y then 5 else if yd < days_before_month 7 y then 6
     else if yd < days_before_month 8 y then 7 else if yd < days_before_month 9 y then 8
     else if yd < days_before_month 10 y then 9 else if yd < days_before_month 11 y then 10
     else if yd < days_before_month 12 y then 11 else 12)"

definition date_of_days :: "int \<Rightarrow> int \<times> int \<times> int" where
  "date_of_days n =
    (let (y, yd) = year_yday n; m = month_of_yday y yd
     in (y, m, yd - days_before_month m y + 1))"

lemma int_div_bounds:
  fixes x k :: int
  assumes "0 < k"
  shows "k * (x div k) \<le> x" "x < k * (x div k) + k"
  using assms pos_mod_bound[of k x] pos_mod_sign[of k x] mult_div_mod_eq[of k x] by linarith+

text \<open>One capped division step of the calendar: \<open>q\<close> cycles of \<open>k\<close> days, at most \<open>3\<close> of them.\<close>

lemma capped_div:
  fixes r k :: int
  assumes "0 \<le> r" "0 < k" "q = min 3 (r div k)"
  shows "0 \<le> q" "q \<le> 3" "k * q \<le> r" "q < 3 \<Longrightarrow> r < k * q + k"
proof -
  note d = int_div_bounds[OF assms(2), of r]
  have nn: "0 \<le> r div k" using assms by (simp add: pos_imp_zdiv_nonneg_iff)
  then show "0 \<le> q" "q \<le> 3" using assms(3) by simp_all
  have "k * q \<le> k * (r div k)" using assms(2,3) by (intro mult_left_mono) auto
  with d show "k * q \<le> r" by linarith
  show "r < k * q + k" if "q < 3"
  proof -
    have "q = r div k" using that assms(3) by linarith
    then show ?thesis using d by simp
  qed
qed

lemma year_yday_correct:
  assumes "year_yday n = (y, yd)"
  shows "days_before_year y + yd = n" "0 \<le> yd" "yd < 365 + (if is_leap y then 1 else 0)"
proof -
  define a where "a = n div 146097"
  define r where "r = n mod 146097"
  define b where "b = min 3 (r div 36524)"
  define s where "s = r - 36524 * b"
  define c where "c = s div 1461"
  define t where "t = s mod 1461"
  define e where "e = min 3 (t div 365)"
  have y: "y = 400 * a + 100 * b + 4 * c + e + 1" and yd: "yd = t - 365 * e"
    using assms unfolding year_yday_def Let_def a_def[symmetric] r_def[symmetric] b_def[symmetric]
      s_def[symmetric] c_def[symmetric] t_def[symmetric] e_def[symmetric]
    by blast+
  have n: "n = 146097 * a + r" and r: "0 \<le> r" "r < 146097"
    by (simp_all add: a_def r_def)
  have b: "0 \<le> b" "b \<le> 3" "36524 * b \<le> r" "b < 3 \<longrightarrow> r < 36524 * b + 36524"
    using capped_div[OF r(1) _ b_def] by auto
  have s: "r = 36524 * b + s" "0 \<le> s" "s \<le> 36524" "b < 3 \<longrightarrow> s < 36524"
  proof -
    show "r = 36524 * b + s" "0 \<le> s" using b by (simp_all add: s_def)
    show "b < 3 \<longrightarrow> s < 36524" using b by (auto simp: s_def)
    then show "s \<le> 36524" using b r by (cases "b < 3") (auto simp: s_def)
  qed
  have t: "s = 1461 * c + t" "0 \<le> t" "t < 1461" by (simp_all add: c_def t_def)
  have c: "0 \<le> c" "c \<le> 24" using s t by linarith+
  have e: "0 \<le> e" "e \<le> 3" "365 * e \<le> t" "e < 3 \<longrightarrow> t < 365 * e + 365"
    using capped_div[OF t(2) _ e_def] by auto
  have q4: "(y - 1) div 4 = 100 * a + 25 * b + c" using y e by (intro int_div_pos_eq[where r = e]) auto
  have q100: "(y - 1) div 100 = 4 * a + b"
    using y c e by (intro int_div_pos_eq[where r = "4 * c + e"]) auto
  have q400: "(y - 1) div 400 = a"
    using y b c e by (intro int_div_pos_eq[where r = "100 * b + 4 * c + e"]) auto
  have "days_before_year y = 146097 * a + 36524 * b + 1461 * c + 365 * e"
    unfolding days_before_year_def q4 q100 q400 using y by simp
  then show "days_before_year y + yd = n" using n s t yd by simp
  show "0 \<le> yd" using e yd by simp
  have yd_le: "yd \<le> 365" using t e yd by linarith
  moreover have "is_leap y" if "yd = 365"
  proof -
    have e3: "e = 3" "t = 1460" using that yd t e by linarith+
    have bc: "c = 24 \<longrightarrow> b = 3" using s t e3 b by linarith
    have y4: "y = 4 * (100 * a + 25 * b + c + 1)" using y e3 by simp
    then have m4: "y mod 4 = 0" by simp
    show ?thesis
    proof (cases "c = 24")
      case True
      then have "y = 400 * (a + 1)" using y4 bc by simp
      then show ?thesis using m4 by (simp add: is_leap_def)
    next
      case False
      then have "y mod 100 = 4 * c + 4"
        using y e3 c by (intro int_mod_pos_eq[where q = "4 * a + b"]) auto
      then show ?thesis using m4 c by (simp add: is_leap_def)
    qed
  qed
  ultimately show "yd < 365 + (if is_leap y then 1 else 0)" by (cases "yd = 365") auto
qed

lemma days_before_month_Suc:
  "1 \<le> m \<Longrightarrow> m < 12 \<Longrightarrow> days_before_month (m + 1) y = days_before_month m y + days_in m y"
proof -
  assume "1 \<le> m" "m < 12"
  then have "m = 1 \<or> m = 2 \<or> m = 3 \<or> m = 4 \<or> m = 5 \<or> m = 6 \<or> m = 7 \<or> m = 8 \<or> m = 9 \<or> m = 10 \<or> m = 11"
    by presburger
  then show ?thesis
    by (elim disjE; simp add: days_before_month_def days_in_def)
qed

lemma month_of_yday_bounds:
  "1 \<le> month_of_yday y yd" "month_of_yday y yd \<le> 12"
  unfolding month_of_yday_def by (simp_all add: if_distrib[where f = "\<lambda>x. 1 \<le> x"])

lemma month_of_yday_low: "0 \<le> yd \<Longrightarrow> days_before_month (month_of_yday y yd) y \<le> yd"
  unfolding month_of_yday_def by (simp add: days_before_month_def[of 1])

lemma month_of_yday_high:
  assumes "month_of_yday y yd < 12"
  shows "yd < days_before_month (month_of_yday y yd + 1) y"
  using assms unfolding month_of_yday_def by (simp split: if_split_asm)

lemma month_of_yday_correct:
  assumes "0 \<le> yd" "yd < 365 + (if is_leap y then 1 else 0)"
  shows "days_before_month (month_of_yday y yd) y \<le> yd"
    "yd < days_before_month (month_of_yday y yd) y + days_in (month_of_yday y yd) y"
proof -
  let ?m = "month_of_yday y yd"
  show "days_before_month ?m y \<le> yd" using assms(1) by (rule month_of_yday_low)
  show "yd < days_before_month ?m y + days_in ?m y"
  proof (cases "?m < 12")
    case True
    then show ?thesis
      using month_of_yday_high[OF True] days_before_month_Suc[of ?m y] month_of_yday_bounds[of y yd]
      by simp
  next
    case False
    then have "?m = 12" using month_of_yday_bounds(2)[of y yd] by linarith
    then show ?thesis using assms(2) by (simp add: days_before_month_def days_in_def)
  qed
qed

lemma date_of_days_valid:
  assumes "date_of_days n = (y, m, d)"
  shows "1 \<le> m" "m \<le> 12" "1 \<le> d" "d \<le> days_in m y" "days_of_date (y, m, d) = n"
proof -
  obtain y' yd where yy: "year_yday n = (y', yd)" by fastforce
  note v = year_yday_correct[OF yy] and mv = month_of_yday_correct[OF year_yday_correct(2,3)[OF yy]] month_of_yday_bounds
  have eqs: "y = y'" "m = month_of_yday y' yd" "d = yd - days_before_month m y' + 1"
    using assms yy by (auto simp: date_of_days_def Let_def)
  show "1 \<le> m" "m \<le> 12" "1 \<le> d" "d \<le> days_in m y"
    using mv eqs by auto
  show "days_of_date (y, m, d) = n"
    using v eqs by (simp add: days_of_date_def)
qed

lemma days_in_bounds: "28 \<le> days_in m y" "days_in m y \<le> 31"
  by (auto simp: days_in_def)


section \<open>Printing with the layout 2006-01-02T15:04:05Z\<close>

text \<open>Go's \<^verbatim>\<open>appendInt(b, x, width)\<close>: the sign, then the digits padded with zeros to \<open>width\<close>.\<close>

definition append_int :: "int \<Rightarrow> nat \<Rightarrow> string" where
  "append_int x w =
    (if x < 0 then [CHR ''-''] else []) @
    (let ds = show_nat (nat \<bar>x\<bar>) in replicate (w - length ds) (CHR ''0'') @ ds)"

definition unix_seconds :: "time \<Rightarrow> int" where
  "unix_seconds t = t div second"

definition Format :: "time \<Rightarrow> string" where
  "Format t =
    (let secs = unix_seconds t; sod = secs mod 86400;
         (y, m, d) = date_of_days (secs div 86400)
     in append_int y 4 @ ''-'' @ append_int m 2 @ ''-'' @ append_int d 2 @ ''T'' @
        append_int (sod div 3600) 2 @ '':'' @ append_int (sod mod 3600 div 60) 2 @ '':'' @
        append_int (sod mod 60) 2 @ ''Z'')"

section \<open>Parsing with the layout 2006-01-02T15:04:05Z\<close>

text \<open>
  \<^verbatim>\<open>time.Parse\<close> walks the layout's chunks. \<^verbatim>\<open>getnum\<close> reads one or two digits (two exactly when
  \<open>fixed\<close>); the hour chunk is not fixed; a fractional second after the seconds is accepted
  although the layout has none. The range checks are those of \<^verbatim>\<open>Parse\<close>, the day-of-month check
  last.
\<close>

definition getnum :: "bool \<Rightarrow> string \<Rightarrow> (nat \<times> string) option" where
  "getnum fixed s =
    (case s of
       [] \<Rightarrow> None
     | a # s' \<Rightarrow>
        if \<not> is_digit a then None
        else (case s' of
                b # s'' \<Rightarrow> if is_digit b then Some (digit_val a * 10 + digit_val b, s'')
                          else if fixed then None else Some (digit_val a, s')
              | [] \<Rightarrow> if fixed then None else Some (digit_val a, s')))"

definition getyear :: "string \<Rightarrow> (nat \<times> string) option" where
  "getyear s = (if 4 \<le> length s \<and> list_all is_digit (take 4 s)
                then Some (digits_val (take 4 s), drop 4 s) else None)"

definition skip :: "char \<Rightarrow> string \<Rightarrow> string option" where
  "skip c s = (case s of [] \<Rightarrow> None | a # s' \<Rightarrow> if a = c then Some s' else None)"

text \<open>Nanoseconds of an optional fraction (at most nine digits are significant) and the rest.\<close>

definition getfrac :: "string \<Rightarrow> int \<times> string" where
  "getfrac s =
    (case s of
       p # a # s' \<Rightarrow>
         if (p = CHR ''.'' \<or> p = CHR '','') \<and> is_digit a
         then (let ds = takeWhile is_digit (a # s'); sig = take 9 ds
               in (int (digits_val sig) * 10 ^ (9 - length sig), dropWhile is_digit (a # s')))
         else (0, s)
     | _ \<Rightarrow> (0, s))"

definition parse_fields :: "string \<Rightarrow> (nat \<times> nat \<times> nat \<times> nat \<times> nat \<times> nat \<times> int) option" where
  "parse_fields s0 =
    do {
      (y, s1) \<leftarrow> getyear s0; s2 \<leftarrow> skip (CHR ''-'') s1;
      (mo, s3) \<leftarrow> getnum True s2; s4 \<leftarrow> skip (CHR ''-'') s3;
      (d, s5) \<leftarrow> getnum True s4; s6 \<leftarrow> skip (CHR ''T'') s5;
      (h, s7) \<leftarrow> getnum False s6; s8 \<leftarrow> skip (CHR '':'') s7;
      (mi, s9) \<leftarrow> getnum True s8; s10 \<leftarrow> skip (CHR '':'') s9;
      (sec, s11) \<leftarrow> getnum True s10;
      (let (ns, s12) = getfrac s11 in
       do { s13 \<leftarrow> skip (CHR ''Z'') s12;
            (if s13 = [] then Some (y, mo, d, h, mi, sec, ns) else None) })
    }"

definition in_range :: "nat \<times> nat \<times> nat \<times> nat \<times> nat \<times> nat \<times> int \<Rightarrow> bool" where
  "in_range = (\<lambda>(y, mo, d, h, mi, sec, ns).
     1 \<le> mo \<and> mo \<le> 12 \<and> h < 24 \<and> mi < 60 \<and> sec < 60 \<and>
     1 \<le> d \<and> int d \<le> days_in (int mo) (int y))"

definition instant :: "nat \<times> nat \<times> nat \<times> nat \<times> nat \<times> nat \<times> int \<Rightarrow> time" where
  "instant = (\<lambda>(y, mo, d, h, mi, sec, ns).
     (days_of_date (int y, int mo, int d) * 86400 + int (h * 3600 + mi * 60 + sec)) * second + ns)"

definition Parse :: "string \<Rightarrow> time result" where
  "Parse s =
    (case parse_fields s of
       None \<Rightarrow> Inl (Errorf ''parsing time %q as %q'' [S s, S ''2006-01-02T15:04:05Z''])
     | Some f \<Rightarrow> if in_range f then Inr (instant f)
                 else Inl (Errorf ''parsing time %q: out of range'' [S s]))"

text \<open>The value of \<^verbatim>\<open>t, _ := time.Parse(..)\<close>: the zero time when parsing fails.\<close>

definition Parse_or_zero :: "string \<Rightarrow> time" where
  "Parse_or_zero s = (case Parse s of Inl _ \<Rightarrow> 0 | Inr t \<Rightarrow> t)"


section \<open>Parse undoes Format\<close>

lemma is_digit_rep [simp]: "is_digit (CHR ''0'')" "digit_val (CHR ''0'') = 0"
  by (simp_all add: is_digit_def digit_val_def)

lemma digits_val_snoc: "digits_val (ds @ [c]) = 10 * digits_val ds + digit_val c"
  by (simp add: digits_val_def)

lemma digits_rev_digits: "list_all is_digit (digits_rev n)"
proof (induction n rule: digits_rev.induct)
  case (1 n)
  then show ?case by (subst digits_rev.simps) (auto simp: digit_char)
qed

lemma digits_val_show_nat [simp]: "digits_val (show_nat n) = n"
proof (induction n rule: digits_rev.induct)
  case (1 n)
  show ?case
  proof (cases "n < 10")
    case True
    then have "show_nat n = [char_of (48 + n)]" by (simp add: show_nat_def digits_rev.simps[of n])
    then show ?thesis using True by (simp add: digits_val_def digit_char)
  next
    case False
    then have "show_nat n = show_nat (n div 10) @ [char_of (48 + n mod 10)]"
      by (simp add: show_nat_def digits_rev.simps[of n])
    then show ?thesis using 1 False by (simp add: digits_val_snoc digit_char)
  qed
qed

lemma show_nat_digits: "list_all is_digit (show_nat n)"
  using digits_rev_digits[of n] by (simp add: show_nat_def list_all_iff)

lemma length_digits_rev: "0 < w \<Longrightarrow> n < 10 ^ w \<Longrightarrow> length (digits_rev n) \<le> w"
proof (induction n arbitrary: w rule: digits_rev.induct)
  case (1 n)
  show ?case
  proof (cases "n < 10")
    case True
    then show ?thesis using 1 by (simp add: digits_rev.simps[of n])
  next
    case False
    then obtain v where v: "w = Suc v" "0 < v"
      using "1.prems" by (cases w; cases "w - 1") (auto simp: not_less)
    then have "n div 10 < 10 ^ v" using "1.prems" by (simp add: less_mult_imp_div_less mult.commute)
    then show ?thesis using "1.IH"[OF False v(2)] v False by (simp add: digits_rev.simps[of n])
  qed
qed

lemma digits_val_zeros: "digits_val (replicate k (CHR ''0'') @ ds) = digits_val ds"
  by (induction k) (simp_all add: digits_val_def)

text \<open>A padded number is exactly \<open>w\<close> digits that read back as the number.\<close>

lemma append_int_props:
  assumes "0 \<le> x" "x < 10 ^ w" "0 < w"
  shows "length (append_int x w) = w" "list_all is_digit (append_int x w)"
    "digits_val (append_int x w) = nat x"
proof -
  let ?ds = "show_nat (nat x)"
  have eq: "append_int x w = replicate (w - length ?ds) (CHR ''0'') @ ?ds"
    using assms by (simp add: append_int_def Let_def)
  have "nat x < 10 ^ w" using assms by (simp add: nat_less_iff)
  then have "length ?ds \<le> w" using length_digits_rev[OF assms(3)] by (simp add: show_nat_def)
  then show "length (append_int x w) = w" by (simp add: eq)
  show "list_all is_digit (append_int x w)"
    unfolding eq using show_nat_digits[of "nat x"] by (auto simp: list_all_iff)
  have "digits_val (append_int x w) = digits_val ?ds" unfolding eq by (rule digits_val_zeros)
  then show "digits_val (append_int x w) = nat x" by simp
qed

lemma getnum_append_int:
  assumes "0 \<le> x" "x < 100"
  shows "getnum fixed (append_int x 2 @ rest) = Some (nat x, rest)"
proof -
  note p = append_int_props[of x 2] 
  then obtain a b where ab: "append_int x 2 = [a, b]"
    using assms by (auto simp: length_Suc_conv numeral_2_eq_2)
  with p assms show ?thesis by (simp add: getnum_def digits_val_def)
qed

lemma getyear_append_int:
  assumes "0 \<le> x" "x < 10000"
  shows "getyear (append_int x 4 @ rest) = Some (nat x, rest)"
  using append_int_props[of x 4] assms by (simp add: getyear_def)

lemma skip_Cons [simp]: "skip c (c # s) = Some s"
  by (simp add: skip_def)

lemma getfrac_Z [simp]: "getfrac (CHR ''Z'' # s) = (0, CHR ''Z'' # s)"
  by (simp add: getfrac_def split: list.splits)

definition year_of :: "time \<Rightarrow> int" where
  "year_of t = fst (date_of_days (unix_seconds t div 86400))"

lemma sod_split:
  fixes s h mi se :: int
  assumes "0 \<le> s" "s < 86400" "h = s div 3600" "mi = s mod 3600 div 60" "se = s mod 60"
  shows "0 \<le> h" "h < 24" "0 \<le> mi" "mi < 60" "0 \<le> se" "se < 60" "h * 3600 + mi * 60 + se = s"
proof -
  define r where "r = s mod 3600"
  have r: "0 \<le> r" "r < 3600" "s = 3600 * h + r" by (simp_all add: r_def assms(3))
  have "se = r mod 60" by (simp add: r_def assms(5) mod_mod_cancel)
  then have se: "0 \<le> se" "se < 60" "r = 60 * mi + se" by (simp_all add: assms(4) r_def)
  show "0 \<le> se" "se < 60" "h * 3600 + mi * 60 + se = s" using r se by simp_all
  show "0 \<le> h" "h < 24" using r assms(1,2) by linarith+
  show "0 \<le> mi" "mi < 60" using r se by linarith+
qed

lemma parse_fields_print:
  assumes "0 \<le> y" "y < 10000" "0 \<le> m" "m < 100" "0 \<le> d" "d < 100" "0 \<le> h" "h < 100"
    "0 \<le> mi" "mi < 100" "0 \<le> se" "se < 100"
  shows "parse_fields (append_int y 4 @ ''-'' @ append_int m 2 @ ''-'' @ append_int d 2 @ ''T'' @
      append_int h 2 @ '':'' @ append_int mi 2 @ '':'' @ append_int se 2 @ ''Z'') =
    Some (nat y, nat m, nat d, nat h, nat mi, nat se, 0)"
  unfolding parse_fields_def using assms
  by (simp add: getyear_append_int getnum_append_int)

theorem Parse_Format:
  assumes "year_of t \<in> {0..9999}"
  shows "Parse (Format t) = Inr (Truncate t second)"
proof -
  obtain y m d where ymd: "date_of_days (unix_seconds t div 86400) = (y, m, d)"
    using prod_cases3 by blast
  define sod where "sod = unix_seconds t mod 86400"
  define h where "h = sod div 3600"
  define mi where "mi = sod mod 3600 div 60"
  define se where "se = sod mod 60"
  note v = date_of_days_valid[OF ymd]
  have y: "0 \<le> y" "y < 10000" using assms ymd by (auto simp: year_of_def)
  have sod: "0 \<le> sod" "sod < 86400" by (simp_all add: sod_def)
  note sp = sod_split[OF sod h_def mi_def se_def]
  have F: "Format t = append_int y 4 @ ''-'' @ append_int m 2 @ ''-'' @ append_int d 2 @ ''T'' @
      append_int h 2 @ '':'' @ append_int mi 2 @ '':'' @ append_int se 2 @ ''Z''"
    unfolding Format_def Let_def ymd sod_def[symmetric] h_def mi_def se_def by simp
  have "d < 100" "m < 100" using v days_in_bounds(2)[of m y] by linarith+
  then have pf: "parse_fields (Format t) = Some (nat y, nat m, nat d, nat h, nat mi, nat se, 0)"
    unfolding F using y v sp by (intro parse_fields_print) auto
  have r: "in_range (nat y, nat m, nat d, nat h, nat mi, nat se, 0)"
    using v y sp by (auto simp: in_range_def nat_less_iff nat_le_iff)
  have "instant (nat y, nat m, nat d, nat h, nat mi, nat se, 0)
      = (unix_seconds t div 86400 * 86400 + (h * 3600 + mi * 60 + se)) * second"
    using v y sp(1-6) by (simp add: instant_def)
  also have "\<dots> = unix_seconds t * second" unfolding sp(7) sod_def by simp
  also have "\<dots> = Truncate t second"
    by (simp add: Truncate_def unix_seconds_def second_def minus_mod_eq_div_mult)
  finally show ?thesis using pf r by (simp add: Parse_def)
qed

corollary Format_inject:
  assumes "year_of t \<in> {0..9999}" "year_of u \<in> {0..9999}" "Format t = Format u"
  shows "Truncate t second = Truncate u second"
  using Parse_Format[OF assms(1)] Parse_Format[OF assms(2)] assms(3) by simp

lemma Format_Truncate [simp]: "Format (Truncate t second) = Format t"
proof -
  have "unix_seconds (Truncate t second) = unix_seconds t"
    by (simp add: unix_seconds_def Truncate_def second_def minus_mod_eq_div_mult)
  then show ?thesis by (simp add: Format_def)
qed

lemma append_int_no_pipe: "CHR ''|'' \<notin> set (append_int x w)"
  using show_nat_digits[of "nat \<bar>x\<bar>"] pipe_not_alnum(2)
  by (auto simp: append_int_def Let_def list_all_iff)

lemma Format_no_pipe: "CHR ''|'' \<notin> set (Format t)"
  by (auto simp: Format_def Let_def append_int_no_pipe split: prod.splits)

section \<open>Differences\<close>

text \<open>\<^verbatim>\<open>t.Sub(u)\<close>, saturating at the range of \<^verbatim>\<open>int64\<close>.\<close>

definition Sub :: "time \<Rightarrow> time \<Rightarrow> duration" where
  "Sub t u = min (2 ^ 63 - 1) (max (- (2 ^ 63)) (t - u))"

end
