(* ===== verification/Go_Value.thy ===== *)
theory Go_Value
  imports Complex_Main Prelude "HOL-Library.Log_Nat"
begin

text \<open>
  Dynamically typed Go values (\<^verbatim>\<open>any\<close>) as the YAML and JSON decoders produce them, and IEEE 754
  binary64 (\<^verbatim>\<open>float64\<close>). A finite float is the rational number it denotes; \<open>fl\<close> rounds a
  rational to the nearest binary64 value, ties to even, which is how Go rounds conversions and
  arithmetic. The sign of zero is not kept: no comparison of the sources sees it.
\<close>

section \<open>float64\<close>

datatype float64 = NaN | PInf | NInf | Fin rat

definition pow2 :: "int \<Rightarrow> rat" where
  "pow2 e = (if 0 \<le> e then 2 ^ nat e else 1 / 2 ^ nat (- e))"

text \<open>The exponent of the binade of a positive rational: \<open>pow2 (ilog2 r) \<le> r < pow2 (ilog2 r + 1)\<close>.\<close>

definition ilog2 :: "rat \<Rightarrow> int" where
  "ilog2 r = (let (p, q) = quotient_of r; k = int (floorlog 2 (nat p)) - int (floorlog 2 (nat q))
              in if pow2 k \<le> r then k else k - 1)"

definition round_half_even :: "rat \<Rightarrow> int" where
  "round_half_even r =
    (let f = \<lfloor>r\<rfloor>; d = r - of_int f
     in if d < 1 / 2 then f else if 1 / 2 < d then f + 1 else if even f then f else f + 1)"

definition fl :: "rat \<Rightarrow> float64" where
  "fl r =
    (if r = 0 then Fin 0
     else (let u = pow2 (max (ilog2 \<bar>r\<bar>) (- 1022) - 52);
               v = of_int (round_half_even (r / u)) * u
           in if 2 ^ 1024 \<le> v then PInf else if v \<le> - (2 ^ 1024) then NInf else Fin v))"

definition float64_of_int :: "int \<Rightarrow> float64" where
  "float64_of_int i = fl (of_int i)"

text \<open>Comparison: every ordered comparison with NaN is false.\<close>

fun f_lt :: "float64 \<Rightarrow> float64 \<Rightarrow> bool" where
  "f_lt (Fin a) (Fin b) = (a < b)"
| "f_lt (Fin a) PInf = True"
| "f_lt NInf (Fin b) = True"
| "f_lt NInf PInf = True"
| "f_lt _ _ = False"

fun f_le :: "float64 \<Rightarrow> float64 \<Rightarrow> bool" where
  "f_le NaN _ = False"
| "f_le _ NaN = False"
| "f_le NInf _ = True"
| "f_le _ PInf = True"
| "f_le (Fin a) (Fin b) = (a \<le> b)"
| "f_le _ _ = False"

text \<open>Addition and division, rounded; \<open>\<infinity> - \<infinity>\<close>, \<open>0 / 0\<close> and \<open>\<infinity> / \<infinity>\<close> are NaN.\<close>

fun f_add :: "float64 \<Rightarrow> float64 \<Rightarrow> float64" where
  "f_add (Fin a) (Fin b) = fl (a + b)"
| "f_add NaN _ = NaN"
| "f_add _ NaN = NaN"
| "f_add PInf NInf = NaN"
| "f_add NInf PInf = NaN"
| "f_add PInf _ = PInf"
| "f_add _ PInf = PInf"
| "f_add NInf _ = NInf"
| "f_add _ NInf = NInf"

text \<open>\<^verbatim>\<open>time.Duration.Seconds\<close>: whole seconds plus the rounded fraction; Go's \<^verbatim>\<open>/\<close> truncates.\<close>

definition go_quot :: "int \<Rightarrow> int \<Rightarrow> int" where
  "go_quot a b = sgn a * sgn b * (\<bar>a\<bar> div \<bar>b\<bar>)"

definition go_rem :: "int \<Rightarrow> int \<Rightarrow> int" where
  "go_rem a b = a - b * go_quot a b"

definition Seconds :: "int \<Rightarrow> float64" where
  "Seconds d = f_add (float64_of_int (go_quot d 1000000000)) (fl (of_int (go_rem d 1000000000) / 1000000000))"

section \<open>any\<close>

datatype int_kind = KInt | KInt32 | KInt64 | KUint | KUint32 | KUint64

datatype any =
    ANil
  | ABool bool
  | AInt int_kind int
  | AFloat float64
  | AFloat32 float64
  | AStr string
  | AList "any list"
  | AMap "(string \<times> any) list"
  | AMapAny "(any \<times> any) list"

text \<open>
  \<^verbatim>\<open>map[string]any\<close>, and the \<^verbatim>\<open>map[any]any\<close> the YAML decoder makes of a mapping with another kind of key.
\<close>

text \<open>A Go map with string keys: an association list with distinct keys; \<open>None\<close> is the nil map.\<close>

type_synonym go_map = "(string \<times> any) list"

text \<open>\<^verbatim>\<open>v, ok := m[k]\<close>; reading a nil map finds nothing.\<close>

definition map_get :: "go_map option \<Rightarrow> string \<Rightarrow> any option" where
  "map_get m k = (case m of None \<Rightarrow> None | Some kvs \<Rightarrow> map_of kvs k)"

text \<open>\<^verbatim>\<open>%T\<close> of a decoded value.\<close>

fun int_kind_name :: "int_kind \<Rightarrow> string" where
  "int_kind_name KInt = ''int''"
| "int_kind_name KInt32 = ''int32''"
| "int_kind_name KInt64 = ''int64''"
| "int_kind_name KUint = ''uint''"
| "int_kind_name KUint32 = ''uint32''"
| "int_kind_name KUint64 = ''uint64''"

fun fmt_T :: "any \<Rightarrow> string" where
  "fmt_T ANil = ''<nil>''"
| "fmt_T (ABool b) = ''bool''"
| "fmt_T (AInt k i) = int_kind_name k"
| "fmt_T (AFloat f) = ''float64''"
| "fmt_T (AFloat32 f) = ''float32''"
| "fmt_T (AStr s) = ''string''"
| "fmt_T (AList xs) = ''[]interface {}''"
| "fmt_T (AMap kvs) = ''map[string]interface {}''"
| "fmt_T (AMapAny kvs) = ''map[interface {}]interface {}''"

end
