(* ===== verification/Results.thy ===== *)
theory Results
  imports Go_Time Go_Value "HOL-Library.List_Lexorder" "HOL-Library.Char_ord" "HOL-Library.Product_Lexorder"
begin

text \<open>
  The result-write layer, \<^verbatim>\<open>engine/internal/results\<close>: the row types, the conversions to and from
  the BigQuery records, the two append-only tables and the queries of \<^verbatim>\<open>BigQueryStore\<close>.

  A table is the list of its records in insertion order. The engine only inserts
  (\<^verbatim>\<open>inserter.Put\<close>). Each SQL query of \<^verbatim>\<open>schema.go\<close> is a function of the tables in the order in
  which the query engine visits them: SQL fixes neither the order of a result without
  \<^verbatim>\<open>ORDER BY\<close> nor which of two rows with equal keys \<^verbatim>\<open>ROW_NUMBER\<close> numbers first, so the callers
  apply these functions to an arbitrary permutation of the table.
\<close>

section \<open>Rows\<close>

type_synonym ExecutionStatus = string
type_synonym CheckResult = string
type_synonym TriggerSource = string
type_synonym Mode = string

definition StatusRunning :: ExecutionStatus where "StatusRunning = ''running''"
definition StatusSuccess :: ExecutionStatus where "StatusSuccess = ''success''"
definition StatusFailed :: ExecutionStatus where "StatusFailed = ''failed''"
definition StatusError :: ExecutionStatus where "StatusError = ''error''"
definition StatusAborted :: ExecutionStatus where "StatusAborted = ''aborted''"

definition ResultPass :: CheckResult where "ResultPass = ''pass''"
definition ResultFail :: CheckResult where "ResultFail = ''fail''"
definition ResultDegraded :: CheckResult where "ResultDegraded = ''degraded''"
definition ResultError :: CheckResult where "ResultError = ''error''"

definition TriggerScheduler :: TriggerSource where "TriggerScheduler = ''scheduler''"
definition TriggerManual :: TriggerSource where "TriggerManual = ''manual''"
definition TriggerOperatorRerun :: TriggerSource where "TriggerOperatorRerun = ''operator-rerun''"

definition ModeSet :: Mode where "ModeSet = ''set''"
definition ModeRecord :: Mode where "ModeRecord = ''record''"

lemmas status_defs = StatusRunning_def StatusSuccess_def StatusFailed_def StatusError_def StatusAborted_def
lemmas result_defs = ResultPass_def ResultFail_def ResultDegraded_def ResultError_def
lemmas source_defs = TriggerScheduler_def TriggerManual_def TriggerOperatorRerun_def
lemmas mode_defs = ModeSet_def ModeRecord_def

lemma status_distinct [simp]:
  "StatusRunning \<noteq> StatusSuccess" "StatusRunning \<noteq> StatusFailed" "StatusRunning \<noteq> StatusError"
  "StatusRunning \<noteq> StatusAborted" "StatusSuccess \<noteq> StatusFailed" "StatusSuccess \<noteq> StatusError"
  "StatusSuccess \<noteq> StatusAborted" "StatusFailed \<noteq> StatusError" "StatusFailed \<noteq> StatusAborted"
  "StatusError \<noteq> StatusAborted"
  by (simp_all add: status_defs)

lemmas status_distinct_sym [simp] = status_distinct[symmetric]

lemma result_distinct [simp]:
  "ResultPass \<noteq> ResultFail" "ResultPass \<noteq> ResultDegraded" "ResultPass \<noteq> ResultError"
  "ResultFail \<noteq> ResultDegraded" "ResultFail \<noteq> ResultError" "ResultDegraded \<noteq> ResultError"
  by (simp_all add: result_defs)

lemmas result_distinct_sym [simp] = result_distinct[symmetric]

record ExecutionRow =
  er_execution_id :: string
  er_attempt_id :: string
  er_recorded_at :: time
  er_status :: ExecutionStatus
  er_mode :: Mode
  er_engine_version :: string
  er_ruleset_version :: string
  er_entity :: string
  er_trigger_source :: TriggerSource
  er_window_start :: time
  er_window_end :: time
  er_started_at :: "time option"
  er_completed_at :: "time option"
  er_error_summary :: "string option"
  er_supersedes :: "string option"

record CheckResultRow =
  cr_execution_id :: string
  cr_attempt_id :: string
  cr_check_id :: string
  cr_result :: CheckResult
  cr_executed_at :: time
  cr_engine_version :: string
  cr_evidence_summary :: "go_map option"
  cr_sample_violating_rows :: "go_map list option"

record LatestExecutionRow =
  lr_entity :: string
  lr_check_id :: string
  lr_latest_end :: time
  lr_latest_status :: ExecutionStatus
  lr_mode :: Mode

section \<open>Records\<close>

text \<open>\<^verbatim>\<open>bigquery.NullTimestamp\<close> and \<^verbatim>\<open>bigquery.NullString\<close>: a value and a validity flag.\<close>

record NullTimestamp =
  nt_timestamp :: time
  nt_valid :: bool

record NullString =
  ns_string :: string
  ns_valid :: bool

definition null_timestamp :: NullTimestamp where
  "null_timestamp = \<lparr>nt_timestamp = 0, nt_valid = False\<rparr>"

definition null_string :: NullString where
  "null_string = \<lparr>ns_string = [], ns_valid = False\<rparr>"

record executionRecord =
  xr_execution_id :: string
  xr_attempt_id :: string
  xr_recorded_at :: time
  xr_status :: string
  xr_mode :: string
  xr_engine_version :: string
  xr_ruleset_version :: string
  xr_entity :: string
  xr_trigger_source :: string
  xr_window_start :: time
  xr_window_end :: time
  xr_started_at :: NullTimestamp
  xr_completed_at :: NullTimestamp
  xr_error_summary :: NullString
  xr_supersedes :: NullString

definition toExecutionRecord :: "ExecutionRow \<Rightarrow> executionRecord" where
  "toExecutionRecord r =
    \<lparr>xr_execution_id = er_execution_id r, xr_attempt_id = er_attempt_id r,
     xr_recorded_at = er_recorded_at r, xr_status = er_status r,
     xr_mode = (if er_mode r = [] then ModeSet else er_mode r),
     xr_engine_version = er_engine_version r, xr_ruleset_version = er_ruleset_version r,
     xr_entity = er_entity r, xr_trigger_source = er_trigger_source r,
     xr_window_start = er_window_start r, xr_window_end = er_window_end r,
     xr_started_at = (case er_started_at r of None \<Rightarrow> null_timestamp
                      | Some t \<Rightarrow> \<lparr>nt_timestamp = t, nt_valid = True\<rparr>),
     xr_completed_at = (case er_completed_at r of None \<Rightarrow> null_timestamp
                        | Some t \<Rightarrow> \<lparr>nt_timestamp = t, nt_valid = True\<rparr>),
     xr_error_summary = (case er_error_summary r of None \<Rightarrow> null_string
                         | Some s \<Rightarrow> \<lparr>ns_string = s, ns_valid = True\<rparr>),
     xr_supersedes = (case er_supersedes r of None \<Rightarrow> null_string
                      | Some s \<Rightarrow> \<lparr>ns_string = s, ns_valid = True\<rparr>)\<rparr>"

definition fromExecutionRecord :: "executionRecord \<Rightarrow> ExecutionRow" where
  "fromExecutionRecord rec =
    \<lparr>er_execution_id = xr_execution_id rec, er_attempt_id = xr_attempt_id rec,
     er_recorded_at = xr_recorded_at rec, er_status = xr_status rec,
     er_mode = (if xr_mode rec = [] then ModeSet else xr_mode rec),
     er_engine_version = xr_engine_version rec, er_ruleset_version = xr_ruleset_version rec,
     er_entity = xr_entity rec, er_trigger_source = xr_trigger_source rec,
     er_window_start = xr_window_start rec, er_window_end = xr_window_end rec,
     er_started_at = (if nt_valid (xr_started_at rec) then Some (nt_timestamp (xr_started_at rec)) else None),
     er_completed_at = (if nt_valid (xr_completed_at rec) then Some (nt_timestamp (xr_completed_at rec)) else None),
     er_error_summary = (if ns_valid (xr_error_summary rec) then Some (ns_string (xr_error_summary rec)) else None),
     er_supersedes = (if ns_valid (xr_supersedes rec) then Some (ns_string (xr_supersedes rec)) else None)\<rparr>"

text \<open>
  The error of \<^verbatim>\<open>json.Marshal\<close> on a dynamic value: a float that is not finite and a map with keys that are not
  strings are refused. The encoder visits a list in order and a map by its sorted keys, and stops at the first
  error.
\<close>

definition json_float_err :: "float64 \<Rightarrow> string option" where
  "json_float_err f =
    (case f of NaN \<Rightarrow> Some ''json: unsupported value: NaN'' | PInf \<Rightarrow> Some ''json: unsupported value: +Inf''
     | NInf \<Rightarrow> Some ''json: unsupported value: -Inf'' | Fin r \<Rightarrow> None)"

fun first_some :: "'a option list \<Rightarrow> 'a option" where
  "first_some [] = None"
| "first_some (Some a # xs) = Some a"
| "first_some (None # xs) = first_some xs"

fun json_Marshal_err :: "any \<Rightarrow> string option" where
  "json_Marshal_err (AFloat f) = json_float_err f"
| "json_Marshal_err (AFloat32 f) = json_float_err f"
| "json_Marshal_err (AList xs) = first_some (map json_Marshal_err xs)"
| "json_Marshal_err (AMap kvs) = first_some (map snd (sort_key fst (map (\<lambda>kv. (fst kv, json_Marshal_err (snd kv))) kvs)))"
| "json_Marshal_err (AMapAny kvs) = Some ''json: unsupported type: map[interface {}]interface {}''"
| "json_Marshal_err _ = None"

text \<open>
  The JSON columns hold the value their text encodes: \<^verbatim>\<open>mustJSON\<close> writes \<^verbatim>\<open>null\<close> for a nil map, the object where
  it can be encoded, and an object with the encoder's message otherwise.
\<close>

definition mustJSON :: "go_map option \<Rightarrow> any" where
  "mustJSON v =
    (case v of
       None \<Rightarrow> ANil
     | Some m \<Rightarrow> (case json_Marshal_err (AMap m) of None \<Rightarrow> AMap m | Some e \<Rightarrow> AMap [(''_marshal_error'', AStr e)]))"

definition mustJSONArray :: "go_map list option \<Rightarrow> any" where
  "mustJSONArray v =
    (case v of
       None \<Rightarrow> ANil
     | Some ms \<Rightarrow> (case json_Marshal_err (AList (map AMap ms)) of None \<Rightarrow> AList (map AMap ms)
                    | Some e \<Rightarrow> AList [AMap [(''_marshal_error'', AStr e)]]))"

text \<open>Whatever the evidence, the column holds a value that JSON has.\<close>

lemma mustJSON_encodable: "json_Marshal_err (mustJSON v) = None" "json_Marshal_err (mustJSONArray vs) = None"
  by (simp_all add: mustJSON_def mustJSONArray_def split: option.split)

record checkResultRecord =
  kr_execution_id :: string
  kr_attempt_id :: string
  kr_check_id :: string
  kr_result :: string
  kr_executed_at :: time
  kr_engine_version :: string
  kr_evidence_summary :: any
  kr_sample_violating_rows :: any

definition toCheckResultRecord :: "CheckResultRow \<Rightarrow> checkResultRecord" where
  "toCheckResultRecord r =
    \<lparr>kr_execution_id = cr_execution_id r, kr_attempt_id = cr_attempt_id r,
     kr_check_id = cr_check_id r, kr_result = cr_result r, kr_executed_at = cr_executed_at r,
     kr_engine_version = cr_engine_version r,
     kr_evidence_summary = mustJSON (cr_evidence_summary r),
     kr_sample_violating_rows = mustJSONArray (cr_sample_violating_rows r)\<rparr>"

lemma kr_toCheckResultRecord [simp]:
  "kr_execution_id (toCheckResultRecord r) = cr_execution_id r"
  "kr_attempt_id (toCheckResultRecord r) = cr_attempt_id r"
  "kr_check_id (toCheckResultRecord r) = cr_check_id r"
  "kr_result (toCheckResultRecord r) = cr_result r"
  "kr_executed_at (toCheckResultRecord r) = cr_executed_at r"
  by (simp_all add: toCheckResultRecord_def)

text \<open>What a write and a read back do to a row: only an empty mode is replaced by \<^verbatim>\<open>set\<close>.\<close>

definition default_mode :: "ExecutionRow \<Rightarrow> ExecutionRow" where
  "default_mode r = (if er_mode r = [] then r\<lparr>er_mode := ModeSet\<rparr> else r)"

lemma from_to_record: "fromExecutionRecord (toExecutionRecord r) = default_mode r"
  by (cases r)
    (simp add: fromExecutionRecord_def toExecutionRecord_def default_mode_def null_timestamp_def
      null_string_def mode_defs split: option.splits)

lemma xr_toExecutionRecord [simp]:
  "xr_execution_id (toExecutionRecord r) = er_execution_id r"
  "xr_attempt_id (toExecutionRecord r) = er_attempt_id r"
  "xr_recorded_at (toExecutionRecord r) = er_recorded_at r"
  "xr_status (toExecutionRecord r) = er_status r"
  "xr_entity (toExecutionRecord r) = er_entity r"
  "nt_valid (xr_started_at (toExecutionRecord r)) \<longleftrightarrow> er_started_at r \<noteq> None"
  by (auto simp: toExecutionRecord_def null_timestamp_def split: option.splits)

lemma er_fromExecutionRecord [simp]:
  "er_execution_id (fromExecutionRecord x) = xr_execution_id x"
  "er_attempt_id (fromExecutionRecord x) = xr_attempt_id x"
  "er_recorded_at (fromExecutionRecord x) = xr_recorded_at x"
  "er_status (fromExecutionRecord x) = xr_status x"
  "er_entity (fromExecutionRecord x) = xr_entity x"
  "er_started_at (fromExecutionRecord x) =
     (if nt_valid (xr_started_at x) then Some (nt_timestamp (xr_started_at x)) else None)"
  by (simp_all add: fromExecutionRecord_def)

text \<open>A row as the table shows it, given the timestamp \<open>q t\<close> that a column keeps of a time \<open>t\<close>.\<close>

definition stored_record :: "(time \<Rightarrow> time) \<Rightarrow> executionRecord \<Rightarrow> executionRecord" where
  "stored_record q rec = rec\<lparr>xr_recorded_at := q (xr_recorded_at rec), xr_window_start := q (xr_window_start rec),
     xr_window_end := q (xr_window_end rec),
     xr_started_at := (xr_started_at rec)\<lparr>nt_timestamp := q (nt_timestamp (xr_started_at rec))\<rparr>,
     xr_completed_at := (xr_completed_at rec)\<lparr>nt_timestamp := q (nt_timestamp (xr_completed_at rec))\<rparr>\<rparr>"

definition stored_row :: "(time \<Rightarrow> time) \<Rightarrow> ExecutionRow \<Rightarrow> ExecutionRow" where
  "stored_row q r = r\<lparr>er_recorded_at := q (er_recorded_at r), er_window_start := q (er_window_start r),
     er_window_end := q (er_window_end r), er_started_at := map_option q (er_started_at r),
     er_completed_at := map_option q (er_completed_at r)\<rparr>"

lemma stored_record_simps [simp]:
  "xr_execution_id (stored_record q x) = xr_execution_id x" "xr_attempt_id (stored_record q x) = xr_attempt_id x"
  "xr_recorded_at (stored_record q x) = q (xr_recorded_at x)" "xr_status (stored_record q x) = xr_status x"
  "xr_engine_version (stored_record q x) = xr_engine_version x" "xr_entity (stored_record q x) = xr_entity x"
  "nt_valid (xr_started_at (stored_record q x)) = nt_valid (xr_started_at x)"
  "nt_timestamp (xr_started_at (stored_record q x)) = q (nt_timestamp (xr_started_at x))"
  by (simp_all add: stored_record_def)

text \<open>Reading a stored row back gives the row that was written, with each of its times as the column keeps it.\<close>

lemma stored_round_trip: "fromExecutionRecord (stored_record q (toExecutionRecord r)) = stored_row q (default_mode r)"
  by (cases r)
    (simp add: fromExecutionRecord_def toExecutionRecord_def stored_record_def stored_row_def default_mode_def
      null_timestamp_def null_string_def mode_defs split: option.splits)

section \<open>Queries\<close>

text \<open>\<^verbatim>\<open>ROW_NUMBER() OVER (ORDER BY key DESC) = 1\<close>: the first row with the maximal key.\<close>

fun first_max :: "('a \<Rightarrow> 'k::linorder) \<Rightarrow> 'a list \<Rightarrow> 'a option" where
  "first_max key [] = None"
| "first_max key (x # xs) =
    (case first_max key xs of None \<Rightarrow> Some x | Some y \<Rightarrow> if key x < key y then Some y else Some x)"

lemma first_max_None [simp]: "first_max key xs = None \<longleftrightarrow> xs = []"
  by (cases xs) (auto split: option.splits)

lemma first_max_in: "first_max key xs = Some x \<Longrightarrow> x \<in> set xs"
  by (induction xs arbitrary: x) (auto split: option.splits if_splits)

lemma first_max_ge:
  assumes "first_max key xs = Some x" and "y \<in> set xs"
  shows "key y \<le> key x"
  using assms
proof (induction xs arbitrary: x)
  case (Cons a xs)
  show ?case
  proof (cases "first_max key xs")
    case None
    then show ?thesis using Cons.prems by auto
  next
    case (Some b)
    then show ?thesis using Cons by (force split: if_splits)
  qed
qed simp

lemma first_max_unique:
  assumes "x \<in> set xs" and "\<forall>y \<in> set xs. y \<noteq> x \<longrightarrow> key y < key x"
  shows "first_max key xs = Some x"
proof -
  obtain z where z: "first_max key xs = Some z"
    using assms(1) by (cases "first_max key xs") auto
  have "key x \<le> key z" using first_max_ge [OF z assms(1)] .
  then have "z = x" using assms(2) first_max_in [OF z] by force
  then show ?thesis using z by simp
qed

text \<open>\<^verbatim>\<open>PARTITION BY part ORDER BY key DESC\<close> restricted to \<^verbatim>\<open>rn = 1\<close>: one row per partition.\<close>

definition row_number_1 :: "('a \<Rightarrow> 'p) \<Rightarrow> ('a \<Rightarrow> 'k::linorder) \<Rightarrow> 'a list \<Rightarrow> 'a list" where
  "row_number_1 part key xs =
    List.map_filter (\<lambda>p. first_max key (filter (\<lambda>x. part x = p) xs)) (remdups (map part xs))"

text \<open>\<^verbatim>\<open>currentExecutionsViewSQL\<close>, the canonical projection every query of the store starts from.\<close>

definition canonical :: "executionRecord list \<Rightarrow> executionRecord list" where
  "canonical xs = row_number_1 xr_execution_id xr_recorded_at xs"

definition currentExecutionsInlineSQL :: "string \<Rightarrow> executionRecord list \<Rightarrow> executionRecord list" where
  "currentExecutionsInlineSQL i xs =
    take 1 (row_number_1 xr_execution_id xr_recorded_at (filter (\<lambda>x. xr_execution_id x = i) xs))"

definition runningOlderThanSQL :: "time \<Rightarrow> executionRecord list \<Rightarrow> executionRecord list" where
  "runningOlderThanSQL before xs =
    filter (\<lambda>x. xr_status x = ''running'' \<and> nt_valid (xr_started_at x)
               \<and> nt_timestamp (xr_started_at x) < before) (canonical xs)"

definition countRunningSQL :: "executionRecord list \<Rightarrow> nat" where
  "countRunningSQL xs = length (filter (\<lambda>x. xr_status x = ''running'') (canonical xs))"

text \<open>The inner join of \<^verbatim>\<open>latestExecutionPerEntityCheckSQL\<close> on \<^verbatim>\<open>execution_id\<close> and \<^verbatim>\<open>attempt_id\<close>.\<close>

definition join_attempt ::
  "executionRecord list \<Rightarrow> checkResultRecord list \<Rightarrow> (executionRecord \<times> checkResultRecord) list" where
  "join_attempt exs crs =
    concat (map (\<lambda>ex. map (Pair ex) (filter (\<lambda>cr. kr_execution_id cr = xr_execution_id ex
                                            \<and> kr_attempt_id cr = xr_attempt_id ex) crs)) exs)"

definition latestExecutionPerEntityCheckSQL ::
  "time \<Rightarrow> executionRecord list \<Rightarrow> checkResultRecord list \<Rightarrow> LatestExecutionRow list" where
  "latestExecutionPerEntityCheckSQL as_of exs crs =
    map (\<lambda>(ex, cr). \<lparr>lr_entity = xr_entity ex, lr_check_id = kr_check_id cr,
                     lr_latest_end = xr_window_end ex, lr_latest_status = xr_status ex,
                     lr_mode = xr_mode ex\<rparr>)
      (sort_key (\<lambda>(ex, cr). (xr_entity ex, kr_check_id cr))
        (row_number_1 (\<lambda>(ex, cr). (xr_entity ex, kr_check_id cr))
                      (\<lambda>(ex, cr). (xr_window_end ex, xr_recorded_at ex))
          (join_attempt (canonical (filter (\<lambda>x. xr_recorded_at x \<le> as_of) exs)) crs)))"

lemma map_filter_Cons [simp]:
  "List.map_filter f (x # xs) = (case f x of None \<Rightarrow> List.map_filter f xs | Some y \<Rightarrow> y # List.map_filter f xs)"
  by (simp add: List.map_filter_def split: option.splits)

lemma map_filter_Nil [simp]: "List.map_filter f [] = []"
  by (simp add: List.map_filter_def)

lemma set_row_number_1:
  "x \<in> set (row_number_1 part key xs) \<longleftrightarrow>
   first_max key (filter (\<lambda>y. part y = part x) xs) = Some x"
proof
  assume "x \<in> set (row_number_1 part key xs)"
  then obtain p where p: "first_max key (filter (\<lambda>y. part y = p) xs) = Some x"
    by (auto simp: row_number_1_def List.map_filter_def)
  then have "part x = p" using first_max_in [OF p] by simp
  with p show "first_max key (filter (\<lambda>y. part y = part x) xs) = Some x" by simp
next
  assume *: "first_max key (filter (\<lambda>y. part y = part x) xs) = Some x"
  then have "part x \<in> set (map part xs)" using first_max_in [OF *] by auto
  with * show "x \<in> set (row_number_1 part key xs)"
    by (force simp: row_number_1_def List.map_filter_def)
qed

lemma canonical_iff:
  "x \<in> set (canonical xs) \<longleftrightarrow>
   first_max xr_recorded_at (filter (\<lambda>y. xr_execution_id y = xr_execution_id x) xs) = Some x"
  by (simp add: canonical_def set_row_number_1)

lemma canonical_subset: "x \<in> set (canonical xs) \<Longrightarrow> x \<in> set xs"
  using first_max_in by (force simp: canonical_iff)

text \<open>One row per partition, and every partition has one.\<close>

lemma map_part_row_number_1: "map part (row_number_1 part key xs) = remdups (map part xs)"
proof -
  have "map part (List.map_filter (\<lambda>p. first_max key (filter (\<lambda>x. part x = p) xs)) ps) = ps"
    if "set ps \<subseteq> part ` set xs" for ps
    using that
  proof (induction ps)
    case (Cons p ps)
    then have "filter (\<lambda>x. part x = p) xs \<noteq> []" by (auto simp: filter_empty_conv)
    then obtain y where y: "first_max key (filter (\<lambda>x. part x = p) xs) = Some y" by fastforce
    then have "part y = p" using first_max_in [OF y] by simp
    then show ?case using y Cons by simp
  qed simp
  then show ?thesis by (simp add: row_number_1_def)
qed

lemma distinct_canonical: "distinct (map xr_execution_id (canonical xs))"
  by (simp add: canonical_def map_part_row_number_1)

lemma current_eq:
  "currentExecutionsInlineSQL i xs =
   (case first_max xr_recorded_at (filter (\<lambda>x. xr_execution_id x = i) xs) of None \<Rightarrow> [] | Some x \<Rightarrow> [x])"
proof (cases "filter (\<lambda>x. xr_execution_id x = i) xs")
  case Nil
  then show ?thesis by (simp add: currentExecutionsInlineSQL_def row_number_1_def)
next
  case (Cons a as)
  let ?ys = "filter (\<lambda>x. xr_execution_id x = i) xs"
  have "set (map xr_execution_id ?ys) = {i}"
  proof -
    have "a \<in> set ?ys" using Cons by simp
    then show ?thesis by force
  qed
  then have "remdups (map xr_execution_id ?ys) = [i]" by (rule remdups_singleton)
  moreover have "filter (\<lambda>x. xr_execution_id x = i) ?ys = ?ys" by simp
  ultimately show ?thesis
    by (simp add: currentExecutionsInlineSQL_def row_number_1_def split: option.splits)
qed

end
