(* ===== verification/Alerts.thy ===== *)
theory Alerts
  imports Results
begin

text \<open>
  The alerting surface, \<^verbatim>\<open>engine/internal/alerts\<close>: the event payload, the category boundary
  \<^verbatim>\<open>MapCategory\<close> and the engine-side suppression of literal duplicates, \<^verbatim>\<open>AttemptDeduper\<close>.
\<close>

section \<open>Events\<close>

type_synonym Category = string
type_synonym EventSource = string
type_synonym Severity = string

definition CategoryDataQuality :: Category where "CategoryDataQuality = ''data_quality''"
definition CategoryOperational :: Category where "CategoryOperational = ''operational''"

definition SourceRunner :: EventSource where "SourceRunner = ''runner''"
definition SourceLoader :: EventSource where "SourceLoader = ''loader''"
definition SourceScheduler :: EventSource where "SourceScheduler = ''scheduler''"
definition SourceOrphanDetector :: EventSource where "SourceOrphanDetector = ''orphan_detector''"
definition SourceTriggerHandler :: EventSource where "SourceTriggerHandler = ''trigger_handler''"

definition SeverityInfo :: Severity where "SeverityInfo = ''info''"
definition SeverityWarning :: Severity where "SeverityWarning = ''warning''"
definition SeverityCritical :: Severity where "SeverityCritical = ''critical''"

lemmas category_defs = CategoryDataQuality_def CategoryOperational_def
lemmas event_source_defs = SourceRunner_def SourceLoader_def SourceScheduler_def
  SourceOrphanDetector_def SourceTriggerHandler_def

lemma category_distinct [simp]:
  "CategoryDataQuality \<noteq> CategoryOperational" "CategoryOperational \<noteq> CategoryDataQuality"
  "CategoryDataQuality \<noteq> []" "CategoryOperational \<noteq> []"
  by (simp_all add: category_defs)

record Event =
  ev_execution_id :: "string option"
  ev_attempt_id :: "string option"
  ev_entity :: string
  ev_check_id :: "string option"
  ev_category :: Category
  ev_severity :: "Severity option"
  ev_source :: EventSource
  ev_result :: "CheckResult option"
  ev_status :: "ExecutionStatus option"
  ev_recorded_at :: time
  ev_error_summary :: "string option"

section \<open>The category boundary\<close>

definition MapCategory :: "EventSource \<Rightarrow> CheckResult option \<Rightarrow> ExecutionStatus option \<Rightarrow> Category \<times> bool" where
  "MapCategory source result status =
    (if source \<noteq> SourceRunner then (CategoryOperational, True)
     else case result of
       Some r \<Rightarrow>
         (if r = ResultFail \<or> r = ResultDegraded then (CategoryDataQuality, True)
          else if r = ResultError then (CategoryOperational, True)
          else if r = ResultPass then ([], False)
          else (CategoryOperational, True))
     | None \<Rightarrow>
         (case status of
            Some s \<Rightarrow>
              (if s = StatusFailed then (CategoryOperational, True)
               else if s = StatusError \<or> s = StatusAborted then (CategoryOperational, True)
               else if s = StatusSuccess \<or> s = StatusRunning then ([], False)
               else (CategoryOperational, True))
          | None \<Rightarrow> ([], False)))"

text \<open>Only a runner-sourced \<^verbatim>\<open>fail\<close> or \<^verbatim>\<open>degraded\<close> check is a data-quality alert.\<close>

lemma MapCategory_data_quality:
  "MapCategory src r s = (CategoryDataQuality, True) \<longleftrightarrow>
   src = SourceRunner \<and> (r = Some ResultFail \<or> r = Some ResultDegraded)"
  by (auto simp: MapCategory_def split: option.splits)

lemma MapCategory_check_silent:
  "snd (MapCategory SourceRunner (Some r) s) \<longleftrightarrow> r \<noteq> ResultPass"
  by (simp add: MapCategory_def)

lemma MapCategory_execution_silent:
  "snd (MapCategory SourceRunner None (Some s)) \<longleftrightarrow> s \<noteq> StatusSuccess \<and> s \<noteq> StatusRunning"
  by (simp add: MapCategory_def)

section \<open>Duplicate suppression\<close>

record dedupKey =
  dk_execution_id :: string
  dk_attempt_id :: string
  dk_check_id :: string
  dk_result :: string

record AttemptDeduper =
  ad_seen :: "dedupKey set"

definition NewAttemptDeduper :: AttemptDeduper where
  "NewAttemptDeduper = \<lparr>ad_seen = {}\<rparr>"

definition or_empty :: "string option \<Rightarrow> string" where
  "or_empty p = (case p of None \<Rightarrow> [] | Some s \<Rightarrow> s)"

definition dedup_key :: "Event \<Rightarrow> dedupKey" where
  "dedup_key e =
    \<lparr>dk_execution_id = or_empty (ev_execution_id e), dk_attempt_id = or_empty (ev_attempt_id e),
     dk_check_id = or_empty (ev_check_id e), dk_result = or_empty (ev_result e)\<rparr>"

definition ShouldPublish :: "AttemptDeduper \<Rightarrow> Event \<Rightarrow> bool \<times> AttemptDeduper" where
  "ShouldPublish d e =
    (let key = dedup_key e
     in if key \<in> ad_seen d then (False, d)
        else (True, d\<lparr>ad_seen := insert key (ad_seen d)\<rparr>))"

text \<open>A sequence of calls on one deduper: the events it lets through.\<close>

fun publish_all :: "AttemptDeduper \<Rightarrow> Event list \<Rightarrow> Event list" where
  "publish_all d [] = []"
| "publish_all d (e # es) =
    (let (b, d') = ShouldPublish d e in (if b then [e] else []) @ publish_all d' es)"

lemma publish_all_keys:
  "distinct (map dedup_key (publish_all d es)) \<and>
   set (map dedup_key (publish_all d es)) = dedup_key ` set es - ad_seen d"
proof (induction es arbitrary: d)
  case (Cons e es)
  show ?case
    using Cons.IH [of d] Cons.IH [of "d\<lparr>ad_seen := insert (dedup_key e) (ad_seen d)\<rparr>"]
    by (cases "dedup_key e \<in> ad_seen d") (auto simp: ShouldPublish_def Let_def)
qed simp

text \<open>
  However often events are offered to one attempt's deduper, each key tuple
  \<^verbatim>\<open>(execution_id, attempt_id, check_id, result)\<close> is let through exactly once: no duplicate
  goes out and no key that was offered is lost.
\<close>

theorem dedup_exactly_once:
  "distinct (map dedup_key (publish_all NewAttemptDeduper es)) \<and>
   set (map dedup_key (publish_all NewAttemptDeduper es)) = set (map dedup_key es)"
  using publish_all_keys [of NewAttemptDeduper es] by (simp add: NewAttemptDeduper_def)

end
