(* ===== verification/Store.thy ===== *)
theory Store
  imports Alerts
begin

text \<open>
  The engine's view of the outside: the state its calls change (\<open>world\<close>) and the answers of the
  services it calls (\<open>ext\<close>), and the operations of \<^verbatim>\<open>BigQueryStore\<close> over them.

  Every call that leaves the process advances \<open>tick\<close>; the oracles of \<open>ext\<close> are indexed by it, so
  a statement for all \<open>ext\<close> covers every sequence of answers, errors and clock readings. The
  oracles are what the SDKs return (\<^verbatim>\<open>inserter.Put\<close>, \<^verbatim>\<open>q.Read\<close>, \<^verbatim>\<open>it.Next\<close>,
  \<^verbatim>\<open>publisher.Publish\<close>), the clock, \<^verbatim>\<open>ctx.Err()\<close> and \<^verbatim>\<open>uuid.NewString\<close>.

  \<open>timestamp\<close> is the \<^verbatim>\<open>TIMESTAMP\<close> that BigQuery makes of a Go time, in a column or a query parameter: the
  column's precision is the microsecond, a \<^verbatim>\<open>time.Time\<close>'s the nanosecond. The tables of \<open>world\<close> hold the rows as
  they were sent; every query sees them through \<open>timestamp\<close> (\<open>stored_record\<close>), and nothing is assumed of it but where
  a statement compares two times of the table.
\<close>

section \<open>State and oracles\<close>

text \<open>
  \<open>inserted\<close> is the number of copies of the row a \<^verbatim>\<open>Put\<close> leaves in the table: streaming inserts
  are at-least-once, and one that reports an error may still have landed. \<open>scan_order\<close> and
  \<open>scan_checks\<close> are the orders in which a query visits the tables; \<open>next_fail\<close> is the index of the
  \<^verbatim>\<open>it.Next\<close> call that fails and its error.
\<close>

record ext =
  clock :: "nat \<Rightarrow> time"
  ctx_err :: "nat \<Rightarrow> goerr option"
  put_err :: "nat \<Rightarrow> goerr option"
  inserted :: "nat \<Rightarrow> nat"
  read_err :: "nat \<Rightarrow> goerr option"
  next_fail :: "nat \<Rightarrow> (nat \<times> goerr) option"
  timestamp :: "time \<Rightarrow> time"
  scan_order :: "nat \<Rightarrow> executionRecord list \<Rightarrow> executionRecord list"
  scan_checks :: "nat \<Rightarrow> checkResultRecord list \<Rightarrow> checkResultRecord list"
  create_err :: "nat \<Rightarrow> goerr option"
  publish_err :: "nat \<Rightarrow> goerr option"
  new_uuid :: "nat \<Rightarrow> string"

datatype sample =
    Inc string "string list"
  | Observe string "string list" float64
  | Set string "string list" float64

record world =
  tick :: nat
  executions :: "executionRecord list"
  check_results :: "checkResultRecord list"
  published :: "Event list"
  samples :: "sample list"

definition step :: "world \<Rightarrow> world" where
  "step w = w\<lparr>tick := tick w + 1\<rparr>"

definition now :: "ext \<Rightarrow> world \<Rightarrow> time \<times> world" where
  "now x w = (clock x (tick w), step w)"

definition sample :: "sample list \<Rightarrow> world \<Rightarrow> world" where
  "sample ss w = w\<lparr>samples := samples w @ ss\<rparr>"

text \<open>\<^verbatim>\<open>iterator.Done\<close>, the end of a result set.\<close>

definition Done :: goerr where
  "Done = errors_New ''no more items in iterator''"

text \<open>What the development assumes of the services, as named predicates.\<close>

definition put_durable :: "ext \<Rightarrow> bool" where
  "put_durable x \<longleftrightarrow> (\<forall>t. put_err x t = None \<longrightarrow> 0 < inserted x t)"

definition put_atomic :: "ext \<Rightarrow> bool" where
  "put_atomic x \<longleftrightarrow> (\<forall>t. inserted x t = (if put_err x t = None then 1 else 0))"

definition scan_permutes :: "ext \<Rightarrow> bool" where
  "scan_permutes x \<longleftrightarrow> (\<forall>t xs. mset (scan_order x t xs) = mset xs)"

text \<open>Later readings of the clock are later in the table too.\<close>

definition clock_monotone :: "ext \<Rightarrow> bool" where
  "clock_monotone x \<longleftrightarrow> (\<forall>s t. s < t \<longrightarrow> timestamp x (clock x s) < timestamp x (clock x t))"

text \<open>An iterator reports \<^verbatim>\<open>Done\<close> only at the end of the result set.\<close>

definition iter_honest :: "ext \<Rightarrow> bool" where
  "iter_honest x \<longleftrightarrow> (\<forall>t k e. next_fail x t = Some (k, e) \<longrightarrow> \<not> errors_Is e Done)"

lemma put_atomic_durable: "put_atomic x \<Longrightarrow> put_durable x"
  by (simp add: put_atomic_def put_durable_def)

lemma scan_permutes_set: "scan_permutes x \<Longrightarrow> set (scan_order x t xs) = set xs"
  unfolding scan_permutes_def by (metis set_mset_mset)

section \<open>Writes\<close>

definition WriteExecutionRow :: "ext \<Rightarrow> ExecutionRow \<Rightarrow> world \<Rightarrow> goerr option \<times> world" where
  "WriteExecutionRow x row w =
    (let w' = (step w)\<lparr>executions := executions w @ replicate (inserted x (tick w)) (toExecutionRecord row)\<rparr>
     in case put_err x (tick w) of
          Some e \<Rightarrow> (Some (Errorf ''insert dq_executions row: %w'' [W e]), w')
        | None \<Rightarrow> (None, w'))"

definition WriteCheckResultRow :: "ext \<Rightarrow> CheckResultRow \<Rightarrow> world \<Rightarrow> goerr option \<times> world" where
  "WriteCheckResultRow x row w =
    (let w' = (step w)\<lparr>check_results := check_results w @ replicate (inserted x (tick w)) (toCheckResultRecord row)\<rparr>
     in case put_err x (tick w) of
          Some e \<Rightarrow> (Some (Errorf ''insert dq_check_results row: %w'' [W e]), w')
        | None \<Rightarrow> (None, w'))"

section \<open>Reads\<close>

text \<open>The execution table as a query at a given tick visits it.\<close>

definition visible :: "ext \<Rightarrow> world \<Rightarrow> executionRecord list" where
  "visible x w = map (stored_record (timestamp x)) (executions w)"

definition scanned :: "ext \<Rightarrow> world \<Rightarrow> executionRecord list" where
  "scanned x w = map (stored_record (timestamp x)) (scan_order x (tick w) (executions w))"

lemma set_scanned: "scan_permutes x \<Longrightarrow> set (scanned x w) = set (visible x w)"
  by (simp add: scanned_def visible_def scan_permutes_set)

lemma visible_step [simp]: "visible x (w\<lparr>tick := t\<rparr>) = visible x w"
  by (simp add: visible_def)

definition ErrExecutionNotFound :: goerr where
  "ErrExecutionNotFound = errors_New ''execution not found''"

text \<open>The rows the \<^verbatim>\<open>it.Next\<close> loop delivers and the error that ends it.\<close>

definition iterate :: "(nat \<times> goerr) option \<Rightarrow> 'a list \<Rightarrow> 'a list \<times> goerr" where
  "iterate fail rows =
    (case fail of
       Some (k, e) \<Rightarrow> (if k \<le> length rows then (take k rows, e) else (rows, Done))
     | None \<Rightarrow> (rows, Done))"

definition QueryCurrentExecution :: "ext \<Rightarrow> string \<Rightarrow> world \<Rightarrow> ExecutionRow result \<times> world" where
  "QueryCurrentExecution x executionID w =
    ((case read_err x (tick w) of
        Some e \<Rightarrow> Inl (Errorf ''submit query for execution %s: %w'' [S executionID, W e])
      | None \<Rightarrow>
          (case iterate (next_fail x (tick w))
                  (currentExecutionsInlineSQL executionID (scanned x w)) of
             (rec # _, _) \<Rightarrow> Inr (fromExecutionRecord rec)
           | ([], e) \<Rightarrow>
               (if errors_Is e Done then Inl (Errorf ''%s: %w'' [S executionID, W ErrExecutionNotFound])
                else Inl (Errorf ''read query row for execution %s: %w'' [S executionID, W e])))),
     step w)"

definition CountRunningExecutions :: "ext \<Rightarrow> world \<Rightarrow> int result \<times> world" where
  "CountRunningExecutions x w =
    ((case read_err x (tick w) of
        Some e \<Rightarrow> Inl (Errorf ''submit CountRunningExecutions query: %w'' [W e])
      | None \<Rightarrow>
          (case iterate (next_fail x (tick w)) [countRunningSQL (scanned x w)] of
             (n # _, _) \<Rightarrow> Inr (int n)
           | ([], e) \<Rightarrow>
               (if errors_Is e Done then Inr 0
                else Inl (Errorf ''read CountRunningExecutions row: %w'' [W e])))),
     step w)"

definition ListRunningOlderThan :: "ext \<Rightarrow> time \<Rightarrow> world \<Rightarrow> ExecutionRow list result \<times> world" where
  "ListRunningOlderThan x before w =
    ((case read_err x (tick w) of
        Some e \<Rightarrow> Inl (Errorf ''submit ListRunningOlderThan query: %w'' [W e])
      | None \<Rightarrow>
          (case iterate (next_fail x (tick w))
                  (runningOlderThanSQL (timestamp x (UTC before)) (scanned x w)) of
             (recs, e) \<Rightarrow>
               (if errors_Is e Done then Inr (map fromExecutionRecord recs)
                else Inl (Errorf ''read ListRunningOlderThan row: %w'' [W e])))),
     step w)"

definition LatestExecutionPerEntityCheck ::
  "ext \<Rightarrow> time \<Rightarrow> world \<Rightarrow> LatestExecutionRow list result \<times> world" where
  "LatestExecutionPerEntityCheck x asOf w =
    ((case read_err x (tick w) of
        Some e \<Rightarrow> Inl (Errorf ''submit LatestExecutionPerEntityCheck query: %w'' [W e])
      | None \<Rightarrow>
          (case iterate (next_fail x (tick w))
                  (latestExecutionPerEntityCheckSQL (timestamp x (UTC asOf)) (scanned x w)
                     (scan_checks x (tick w) (check_results w))) of
             (recs, e) \<Rightarrow>
               (if errors_Is e Done then Inr recs
                else Inl (Errorf ''read LatestExecutionPerEntityCheck row: %w'' [W e])))),
     step w)"

section \<open>Schema\<close>

definition to_lower :: "char \<Rightarrow> char" where
  "to_lower c = (if is_upper c then char_of ((of_char c :: nat) + 32) else c)"

fun Contains :: "string \<Rightarrow> string \<Rightarrow> bool" where
  "Contains [] p = (p = [])"
| "Contains (c # cs) p = (HasPrefix (c # cs) p \<or> Contains cs p)"

definition isAlreadyExists :: "goerr option \<Rightarrow> bool" where
  "isAlreadyExists err =
    (case err of
       None \<Rightarrow> False
     | Some e \<Rightarrow>
         (let msg = map to_lower (Error e)
          in Contains msg ''already exists'' \<or> Contains msg ''already created''
             \<or> Contains msg ''alreadyexists'' \<or> Contains msg ''duplicate''))"

definition ensureTable :: "ext \<Rightarrow> string \<Rightarrow> world \<Rightarrow> goerr option \<times> world" where
  "ensureTable x name w =
    ((case create_err x (tick w) of
        Some e \<Rightarrow> (if \<not> isAlreadyExists (Some e) then Some (Errorf ''create table %s: %w'' [S name, W e]) else None)
      | None \<Rightarrow> None),
     step w)"

text \<open>Submitting the view's DDL, waiting for the job and reading its status are three calls.\<close>

definition ensureView :: "ext \<Rightarrow> world \<Rightarrow> goerr option \<times> world" where
  "ensureView x w =
    (case create_err x (tick w) of
       Some e \<Rightarrow> (Some (Errorf ''submit view-create job: %w'' [W e]), step w)
     | None \<Rightarrow>
         (case create_err x (tick w + 1) of
            Some e \<Rightarrow> (Some (Errorf ''wait for view-create job: %w'' [W e]), step (step w))
          | None \<Rightarrow>
              (case create_err x (tick w + 2) of
                 Some e \<Rightarrow> (Some (Errorf ''view-create job error: %w'' [W e]), step (step (step w)))
               | None \<Rightarrow> (None, step (step (step w))))))"

definition EnsureSchema :: "ext \<Rightarrow> string \<Rightarrow> world \<Rightarrow> goerr option \<times> world" where
  "EnsureSchema x datasetID w =
    (let err = create_err x (tick w); w = step w
     in if err \<noteq> None \<and> \<not> isAlreadyExists err
        then (Some (Errorf ''create dataset %s: %w'' [S datasetID, W (the err)]), w)
        else (case ensureTable x ''dq_executions'' w of
                (Some e, w) \<Rightarrow> (Some e, w)
              | (None, w) \<Rightarrow>
                  (case ensureTable x ''dq_check_results'' w of
                     (Some e, w) \<Rightarrow> (Some e, w)
                   | (None, w) \<Rightarrow> (case ensureView x w of (_, w) \<Rightarrow> (None, w)))))"

section \<open>Publishing\<close>

text \<open>\<open>published\<close> is the sequence of events handed to \<^verbatim>\<open>Publish\<close>, whatever it returned.\<close>

definition Publish :: "ext \<Rightarrow> Event \<Rightarrow> world \<Rightarrow> goerr option \<times> world" where
  "Publish x e w = (publish_err x (tick w), (step w)\<lparr>published := published w @ [e]\<rparr>)"

section \<open>Effects of the operations\<close>

lemma step_simps [simp]:
  "tick (step w) = Suc (tick w)" "executions (step w) = executions w"
  "check_results (step w) = check_results w" "published (step w) = published w"
  "samples (step w) = samples w"
  by (simp_all add: step_def)

lemma sample_simps [simp]:
  "tick (sample ss w) = tick w" "executions (sample ss w) = executions w"
  "check_results (sample ss w) = check_results w" "published (sample ss w) = published w"
  "samples (sample ss w) = samples w @ ss"
  by (simp_all add: sample_def)

lemma WriteExecutionRow_eq:
  "WriteExecutionRow x row w =
   (map_option (\<lambda>e. Errorf ''insert dq_executions row: %w'' [W e]) (put_err x (tick w)),
    (step w)\<lparr>executions := executions w @ replicate (inserted x (tick w)) (toExecutionRecord row)\<rparr>)"
  by (simp add: WriteExecutionRow_def Let_def split: option.split)

lemma WriteCheckResultRow_eq:
  "WriteCheckResultRow x row w =
   (map_option (\<lambda>e. Errorf ''insert dq_check_results row: %w'' [W e]) (put_err x (tick w)),
    (step w)\<lparr>check_results := check_results w @ replicate (inserted x (tick w)) (toCheckResultRecord row)\<rparr>)"
  by (simp add: WriteCheckResultRow_def Let_def split: option.split)

text \<open>
  \<open>extends w w'\<close>: nothing that was written in \<open>w\<close> is changed or removed in \<open>w'\<close>. It is the
  append-only commitment of the result-write layer, for the tables and for what was emitted.
\<close>

definition extends :: "world \<Rightarrow> world \<Rightarrow> bool" where
  "extends w w' \<longleftrightarrow>
    prefix (executions w) (executions w') \<and> prefix (check_results w) (check_results w')
    \<and> prefix (published w) (published w') \<and> prefix (samples w) (samples w') \<and> tick w \<le> tick w'"

lemma extends_refl [simp]: "extends w w"
  by (simp add: extends_def)

lemma extends_trans [trans]: "extends u v \<Longrightarrow> extends v w \<Longrightarrow> extends u w"
  by (auto simp: extends_def intro: prefix_order.trans)

lemma extends_step [append_only]: "extends w (step w)"
  by (simp add: extends_def)

lemma extends_sample [append_only]: "extends w (sample ss w)"
  by (simp add: extends_def)

lemma extends_WriteExecutionRow [append_only]: "extends w (snd (WriteExecutionRow x row w))"
  by (simp add: WriteExecutionRow_eq extends_def)

lemma extends_WriteCheckResultRow [append_only]: "extends w (snd (WriteCheckResultRow x row w))"
  by (simp add: WriteCheckResultRow_eq extends_def)

lemma extends_Publish [append_only]: "extends w (snd (Publish x e w))"
  by (simp add: Publish_def extends_def)

section \<open>What a read sees\<close>

lemma QueryCurrentExecution_ok:
  assumes "read_err x (tick w) = None" "next_fail x (tick w) = None" "scan_permutes x"
    and "rec \<in> set (visible x w)" "xr_execution_id rec = i"
    and "\<forall>y \<in> set (visible x w). xr_execution_id y = i \<longrightarrow> y \<noteq> rec \<longrightarrow> xr_recorded_at y < xr_recorded_at rec"
  shows "fst (QueryCurrentExecution x i w) = Inr (fromExecutionRecord rec)"
proof -
  have "first_max xr_recorded_at (filter (\<lambda>y. xr_execution_id y = i) (scanned x w)) = Some rec"
    using assms by (intro first_max_unique) (auto simp: set_scanned)
  then show ?thesis
    using assms by (simp add: QueryCurrentExecution_def iterate_def current_eq)
qed

text \<open>
  A successful read of the current execution is the latest row written for that id: it was
  written, it carries the id and no row of the id is younger. A missing id is reported as such.
\<close>

lemma QueryCurrentExecution_sound:
  assumes "fst (QueryCurrentExecution x i w) = Inr row" and "scan_permutes x"
  shows "\<exists>rec \<in> set (visible x w). row = fromExecutionRecord rec \<and> xr_execution_id rec = i \<and>
           (\<forall>y \<in> set (visible x w). xr_execution_id y = i \<longrightarrow> xr_recorded_at y \<le> xr_recorded_at rec)"
proof -
  let ?ys = "filter (\<lambda>y. xr_execution_id y = i) (scanned x w)"
  obtain rec where rec: "first_max xr_recorded_at ?ys = Some rec" "row = fromExecutionRecord rec"
    using assms(1)
    by (auto simp: QueryCurrentExecution_def iterate_def current_eq take_Cons'
        split: option.splits list.splits if_splits prod.splits)
  have set: "set ?ys = {y \<in> set (visible x w). xr_execution_id y = i}"
    using set_scanned [OF assms(2)] by auto
  show ?thesis
  proof (intro bexI conjI ballI impI)
    show "row = fromExecutionRecord rec" by (rule rec(2))
    show "xr_execution_id rec = i" "rec \<in> set (visible x w)"
      using first_max_in [OF rec(1)] set by auto
    show "xr_recorded_at y \<le> xr_recorded_at rec" if "y \<in> set (visible x w)" "xr_execution_id y = i" for y
      using first_max_ge [OF rec(1)] that set by auto
  qed
qed

section \<open>Services that never fail\<close>

text \<open>
  A concrete instance of the oracles: a clock that advances by a microsecond per tick, columns that truncate to
  the microsecond, and no errors.
\<close>

definition microsecond :: duration where "microsecond = 1000"

definition quiet :: ext where
  "quiet = \<lparr>clock = (\<lambda>t. microsecond * int t), ctx_err = (\<lambda>t. None), put_err = (\<lambda>t. None), inserted = (\<lambda>t. 1),
    read_err = (\<lambda>t. None), next_fail = (\<lambda>t. None), timestamp = (\<lambda>t. Truncate t microsecond), scan_order = (\<lambda>t xs. xs), scan_checks = (\<lambda>t xs. xs),
    create_err = (\<lambda>t. None), publish_err = (\<lambda>t. None), new_uuid = (\<lambda>t. show_nat t)\<rparr>"

definition empty_world :: world where
  "empty_world = \<lparr>tick = 0, executions = [], check_results = [], published = [], samples = []\<rparr>"

lemma quiet_simps [simp]:
  "clock quiet t = 1000 * int t" "timestamp quiet u = 1000 * (u div 1000)" "ctx_err quiet t = None" "put_err quiet t = None" "inserted quiet t = 1"
  "read_err quiet t = None" "next_fail quiet t = None" "scan_order quiet t xs = xs" "publish_err quiet t = None"
  by (simp_all add: quiet_def microsecond_def Truncate_def minus_mod_eq_mult_div)

lemma quiet_laws [simp]: "put_atomic quiet" "put_durable quiet" "scan_permutes quiet" "clock_monotone quiet"
  "iter_honest quiet"
  by (simp_all add: iter_honest_def put_atomic_def put_durable_def scan_permutes_def clock_monotone_def)

lemma empty_world_simps [simp]:
  "tick empty_world = 0" "executions empty_world = []" "check_results empty_world = []"
  "published empty_world = []" "samples empty_world = []"
  by (simp_all add: empty_world_def)

end
