(* ===== verification/Manifest_Store.thy ===== *)
theory Manifest_Store
  imports Store Sha256
begin

text \<open>
  The manifest control plane's data (\<^verbatim>\<open>tools/manifest/manifest.go\<close>, \<^verbatim>\<open>engine/internal/loader/manifest.go\<close>) and
  its object store (\<^verbatim>\<open>tools/manifest/store.go\<close>, \<^verbatim>\<open>store_gcs.go\<close>, \<^verbatim>\<open>loader/store.go\<close>, \<^verbatim>\<open>loader/store_gcs.go\<close>).

  The GCS client is a parameter: \<open>gcs\<close> is what its calls return on a state \<open>'s\<close>, \<open>gcs_bucket\<close> what its
  documentation promises (conditional writes, increasing generations). \<open>manifest_store\<close> is the
  contract of the \<^verbatim>\<open>Store\<close> interface; the \<^verbatim>\<open>GCSStore\<close> methods are shown to provide it over every such
  client. JSON text is produced and read by a \<open>codec\<close> parameter.
\<close>

section \<open>Manifest and pointer\<close>

record ManifestRule =
  mr_entity :: string
  mr_yaml_path :: string
  mr_yaml_hash :: string

record Manifest =
  mf_manifest_version :: int
  mf_ruleset_version :: string
  mf_schema_versions_present :: "int list"
  mf_engine_compatibility :: string
  mf_linter_used :: string
  mf_generated_at :: time
  mf_rules :: "ManifestRule list"

record Pointer =
  po_pointer_version :: int
  po_manifest_hash :: string
  po_ruleset_version :: string
  po_published_at :: time

definition manifestSchemaVersion :: int where "manifestSchemaVersion = 1"
definition pointerSchemaVersion :: int where "pointerSchemaVersion = 1"

record codec =
  marshal_manifest :: "Manifest \<Rightarrow> string result"
  unmarshal_manifest :: "string \<Rightarrow> Manifest result"
  marshal_pointer :: "Pointer \<Rightarrow> string result"
  unmarshal_pointer :: "string \<Rightarrow> Pointer result"

text \<open>
  What is written is read back: the law of the codec the control plane relies on. For \<^verbatim>\<open>encoding/json\<close> it is a law of values whose
  strings are valid UTF-8, other bytes being replaced; manifests and pointers hold identifiers, paths, digests and RFC 3339 times.
\<close>

definition codec_roundtrip :: "codec \<Rightarrow> bool" where
  "codec_roundtrip c \<longleftrightarrow>
    (\<forall>m b. marshal_manifest c m = Inr b \<longrightarrow> unmarshal_manifest c b = Inr m) \<and>
    (\<forall>p b. marshal_pointer c p = Inr b \<longrightarrow> unmarshal_pointer c b = Inr p)"

section \<open>Keys\<close>

definition pointerPath :: string where
  "pointerPath = ''manifests/latest.json''"

definition yamlByHashPath :: "string \<Rightarrow> string" where
  "yamlByHashPath hashHex = ''yamls/by-hash/sha256-'' @ hashHex @ ''.yaml''"

definition manifestByHashPath :: "string \<Rightarrow> string" where
  "manifestByHashPath hashHex = ''manifests/by-hash/sha256-'' @ hashHex @ ''.json''"

lemma keys_distinct [simp]:
  "manifestByHashPath h \<noteq> pointerPath" "yamlByHashPath h \<noteq> pointerPath"
  "manifestByHashPath h \<noteq> yamlByHashPath h'" "yamlByHashPath h' \<noteq> manifestByHashPath h"
  "pointerPath \<noteq> manifestByHashPath h" "pointerPath \<noteq> yamlByHashPath h"
  by (simp_all add: manifestByHashPath_def yamlByHashPath_def pointerPath_def)

lemma keys_inject [simp]:
  "manifestByHashPath h = manifestByHashPath h' \<longleftrightarrow> h = h'" "yamlByHashPath h = yamlByHashPath h' \<longleftrightarrow> h = h'"
  by (simp_all add: manifestByHashPath_def yamlByHashPath_def)

section \<open>Errors\<close>

definition ErrAlreadyExists :: goerr where "ErrAlreadyExists = errors_New ''object already exists''"
definition ErrObjectNotFound :: goerr where "ErrObjectNotFound = errors_New ''object not found''"
definition ErrPreconditionFailed :: goerr where
  "ErrPreconditionFailed = errors_New ''CAS precondition failed (pointer generation mismatch)''"
definition ErrVerificationFailed :: goerr where "ErrVerificationFailed = errors_New ''pre-publish verification failed''"

lemmas store_error_defs = ErrAlreadyExists_def ErrObjectNotFound_def ErrPreconditionFailed_def ErrVerificationFailed_def

section \<open>The GCS client\<close>

definition ErrObjectNotExist :: goerr where
  "ErrObjectNotExist = errors_New ''storage: object doesn't exist''"

text \<open>A conditional write: \<^verbatim>\<open>Conditions{DoesNotExist: true}\<close> or \<^verbatim>\<open>Conditions{GenerationMatch: g}\<close>.\<close>

datatype conditions = DoesNotExist | GenerationMatch int

text \<open>
  \<open>g_write\<close> is \<^verbatim>\<open>Write\<close> followed by \<^verbatim>\<open>Close\<close>: the error of \<^verbatim>\<open>Write\<close>, and what \<^verbatim>\<open>Close\<close> returned with
  the generation in \<^verbatim>\<open>Writer.Attrs\<close>. \<open>g_code\<close> is the HTTP code of a \<^verbatim>\<open>*googleapi.Error\<close> in the chain.
\<close>

record 's gcs =
  g_open_err :: "string \<Rightarrow> 's \<Rightarrow> goerr option"
  g_body :: "string \<Rightarrow> 's \<Rightarrow> string result"
  g_attrs :: "string \<Rightarrow> 's \<Rightarrow> int result"
  g_write :: "string \<Rightarrow> conditions \<Rightarrow> string \<Rightarrow> 's \<Rightarrow> (goerr option \<times> int result) \<times> 's"
  g_code :: "goerr \<Rightarrow> int option"

section \<open>GCSStore\<close>

definition isPreconditionFailed :: "'s gcs \<Rightarrow> goerr \<Rightarrow> bool" where
  "isPreconditionFailed g e \<longleftrightarrow> g_code g e = Some 412"

definition WriteIfNotExists :: "'s gcs \<Rightarrow> string \<Rightarrow> string \<Rightarrow> 's \<Rightarrow> goerr option \<times> 's" where
  "WriteIfNotExists g key body s =
    (case g_write g key DoesNotExist body s of
       ((Some e, _), s) \<Rightarrow> (Some (Errorf ''write body to %s: %w'' [S key, W e]), s)
     | ((None, Inl e), s) \<Rightarrow>
         (if isPreconditionFailed g e then (Some (Errorf ''%s: %w'' [S key, W ErrAlreadyExists]), s)
          else (Some (Errorf ''close writer for %s: %w'' [S key, W e]), s))
     | ((None, Inr _), s) \<Rightarrow> (None, s))"

definition ReadObject :: "'s gcs \<Rightarrow> string \<Rightarrow> 's \<Rightarrow> string result" where
  "ReadObject g key s =
    (case g_open_err g key s of
       Some e \<Rightarrow>
         (if errors_Is e ErrObjectNotExist then Inl (Errorf ''%s: %w'' [S key, W ErrObjectNotFound])
          else Inl (Errorf ''open reader for %s: %w'' [S key, W e]))
     | None \<Rightarrow>
         (case g_body g key s of
            Inl e \<Rightarrow> Inl (Errorf ''read %s: %w'' [S key, W e])
          | Inr data \<Rightarrow> Inr data))"

definition ReadPointerGeneration :: "'s gcs \<Rightarrow> string \<Rightarrow> 's \<Rightarrow> int result" where
  "ReadPointerGeneration g key s =
    (case g_attrs g key s of
       Inl e \<Rightarrow> (if errors_Is e ErrObjectNotExist then Inr 0 else Inl (Errorf ''attrs for %s: %w'' [S key, W e]))
     | Inr n \<Rightarrow> Inr n)"

definition CASWritePointer :: "'s gcs \<Rightarrow> string \<Rightarrow> string \<Rightarrow> int \<Rightarrow> 's \<Rightarrow> int result \<times> 's" where
  "CASWritePointer g key body expectedGen s =
    (case g_write g key (if expectedGen = 0 then DoesNotExist else GenerationMatch expectedGen) body s of
       ((Some e, _), s) \<Rightarrow> (Inl (Errorf ''write pointer body to %s: %w'' [S key, W e]), s)
     | ((None, Inl e), s) \<Rightarrow>
         (if isPreconditionFailed g e
          then (Inl (Errorf ''CAS write of %s (expectedGen=%d): %w'' [S key, S (show_int expectedGen), W ErrPreconditionFailed]), s)
          else (Inl (Errorf ''close pointer writer for %s: %w'' [S key, W e]), s))
     | ((None, Inr n), s) \<Rightarrow> (Inr n, s))"

section \<open>Contracts\<close>

type_synonym objects = "string \<rightharpoonup> string \<times> int"

definition gen_of :: "(string \<times> int) option \<Rightarrow> int" where
  "gen_of ob = (case ob of None \<Rightarrow> 0 | Some (_, n) \<Rightarrow> n)"

definition meets :: "conditions \<Rightarrow> (string \<times> int) option \<Rightarrow> bool" where
  "meets c ob = (case c of DoesNotExist \<Rightarrow> ob = None | GenerationMatch n \<Rightarrow> ob \<noteq> None \<and> gen_of ob = n)"

text \<open>
  What Google Cloud Storage documents of a bucket: reads return the stored bytes and generation; a
  conditional write that succeeds met its condition and installs the object with a larger
  generation; one refused with 412 did not meet it and changed nothing; one that failed otherwise may
  or may not have been applied, under its condition. A refusal is the answer to the write itself: a client that
  repeats a write whose answer was lost, and passes on the refusal of the repetition, is not such a bucket.
  \<open>sdk_error\<close>: the client's errors do not carry the publisher's sentinels.
\<close>

definition sdk_error :: "goerr \<Rightarrow> bool" where
  "sdk_error e \<longleftrightarrow> \<not> errors_Is e ErrAlreadyExists \<and> \<not> errors_Is e ErrPreconditionFailed \<and>
    \<not> errors_Is e ErrVerificationFailed \<and> \<not> errors_Is e ErrObjectNotFound"

definition codec_errors :: "codec \<Rightarrow> bool" where
  "codec_errors c \<longleftrightarrow>
    (\<forall>m e. marshal_manifest c m = Inl e \<longrightarrow> sdk_error e) \<and> (\<forall>b e. unmarshal_manifest c b = Inl e \<longrightarrow> sdk_error e) \<and>
    (\<forall>p e. marshal_pointer c p = Inl e \<longrightarrow> sdk_error e) \<and> (\<forall>b e. unmarshal_pointer c b = Inl e \<longrightarrow> sdk_error e)"

locale gcs_bucket =
  fixes g :: "'s gcs" and objs :: "'s \<Rightarrow> objects"
  assumes body_ok: "g_open_err g k s = None \<Longrightarrow> g_body g k s = Inr b \<Longrightarrow> \<exists>n. objs s k = Some (b, n)"
    and open_missing: "g_open_err g k s = Some e \<Longrightarrow> errors_Is e ErrObjectNotExist \<Longrightarrow> objs s k = None"
    and attrs_ok: "g_attrs g k s = Inr n \<Longrightarrow> \<exists>b. objs s k = Some (b, n)"
    and attrs_missing: "g_attrs g k s = Inl e \<Longrightarrow> errors_Is e ErrObjectNotExist \<Longrightarrow> objs s k = None"
    and gen_positive: "objs s k = Some (b, n) \<Longrightarrow> 0 < n"
    and write_ok: "g_write g k c b s = ((None, Inr n), s') \<Longrightarrow>
      meets c (objs s k) \<and> gen_of (objs s k) < n \<and> objs s' = (objs s)(k \<mapsto> (b, n))"
    and write_refused: "g_write g k c b s = ((None, Inl e), s') \<Longrightarrow> isPreconditionFailed g e \<Longrightarrow>
      \<not> meets c (objs s k) \<and> objs s' = objs s"
    and write_failed: "g_write g k c b s = ((we, r), s') \<Longrightarrow> we \<noteq> None \<or> isl r \<Longrightarrow>
      objs s' = objs s \<or> (meets c (objs s k) \<and> (\<exists>n. gen_of (objs s k) < n \<and> objs s' = (objs s)(k \<mapsto> (b, n))))"
    and open_error: "g_open_err g k s = Some e \<Longrightarrow> sdk_error e"
    and body_error: "g_body g k s = Inl e \<Longrightarrow> sdk_error e"
    and attrs_error: "g_attrs g k s = Inl e \<Longrightarrow> sdk_error e"
    and write_error: "g_write g k c b s = ((Some e, r), s') \<Longrightarrow> sdk_error e"
    and close_error: "g_write g k c b s = ((None, Inl e), s') \<Longrightarrow> sdk_error e"

text \<open>The \<^verbatim>\<open>Store\<close> interface of the publisher, over the objects it stores.\<close>

locale manifest_store =
  fixes write_new :: "string \<Rightarrow> string \<Rightarrow> 's \<Rightarrow> goerr option \<times> 's"
    and read_obj :: "string \<Rightarrow> 's \<Rightarrow> string result"
    and read_gen :: "string \<Rightarrow> 's \<Rightarrow> int result"
    and cas :: "string \<Rightarrow> string \<Rightarrow> int \<Rightarrow> 's \<Rightarrow> int result \<times> 's"
    and objs :: "'s \<Rightarrow> objects"
  assumes write_new_ok: "write_new k b s = (None, s') \<Longrightarrow> objs s k = None \<and> (\<exists>n. 0 < n \<and> objs s' = (objs s)(k \<mapsto> (b, n)))"
    and write_new_exists: "write_new k b s = (Some e, s') \<Longrightarrow> errors_Is e ErrAlreadyExists \<Longrightarrow> objs s k \<noteq> None \<and> objs s' = objs s"
    and write_new_failed: "write_new k b s = (Some e, s') \<Longrightarrow>
      objs s' = objs s \<or> (objs s k = None \<and> (\<exists>n. 0 < n \<and> objs s' = (objs s)(k \<mapsto> (b, n))))"
    and read_obj_ok: "read_obj k s = Inr b \<Longrightarrow> \<exists>n. objs s k = Some (b, n)"
    and read_gen_ok: "read_gen k s = Inr n \<Longrightarrow> gen_of (objs s k) = n"
    and cas_ok: "cas k b n s = (Inr m, s') \<Longrightarrow> gen_of (objs s k) = n \<and> n < m \<and> objs s' = (objs s)(k \<mapsto> (b, m))"
    and cas_lost: "cas k b n s = (Inl e, s') \<Longrightarrow> errors_Is e ErrPreconditionFailed \<Longrightarrow> gen_of (objs s k) \<noteq> n \<and> objs s' = objs s"
    and cas_failed: "cas k b n s = (Inl e, s') \<Longrightarrow>
      objs s' = objs s \<or> (gen_of (objs s k) = n \<and> (\<exists>m. n < m \<and> objs s' = (objs s)(k \<mapsto> (b, m))))"
    and write_new_error: "write_new k b s = (Some e, s') \<Longrightarrow> \<not> errors_Is e ErrVerificationFailed \<and> \<not> errors_Is e ErrPreconditionFailed"
    and read_obj_error: "read_obj k s = Inl e \<Longrightarrow> \<not> errors_Is e ErrVerificationFailed \<and> \<not> errors_Is e ErrPreconditionFailed"
    and read_obj_missing: "read_obj k s = Inl e \<Longrightarrow> errors_Is e ErrObjectNotFound \<Longrightarrow> objs s k = None"
    and read_gen_error: "read_gen k s = Inl e \<Longrightarrow> \<not> errors_Is e ErrVerificationFailed \<and> \<not> errors_Is e ErrPreconditionFailed"
    and cas_error: "cas k b n s = (Inl e, s') \<Longrightarrow> \<not> errors_Is e ErrVerificationFailed"
begin

text \<open>No write moves a generation back.\<close>

lemma gen_mono:
  "gen_of (objs s j) \<le> gen_of (objs (snd (cas k b n s)) j)"
proof (cases "cas k b n s")
  case (Pair r s')
  show ?thesis
  proof (cases r)
    case (Inl e)
    then show ?thesis using cas_failed [of k b n s e s'] Pair by (auto simp: gen_of_def split: if_splits)
  next
    case (Inr m)
    then show ?thesis using cas_ok [of k b n s m s'] Pair by (auto simp: gen_of_def)
  qed
qed

text \<open>Two writers that read the same generation: after one has won, the other's CAS cannot succeed.\<close>

lemma cas_single_winner:
  assumes "cas k b1 n s = (Inr m, s1)" "gen_of (objs s1 k) \<le> gen_of (objs s2 k)"
  shows "isl (fst (cas k b2 n s2))"
proof (rule ccontr)
  assume "\<not> isl (fst (cas k b2 n s2))"
  then obtain m2 s3 where "cas k b2 n s2 = (Inr m2, s3)" by (cases "cas k b2 n s2"; cases "fst (cas k b2 n s2)") auto
  then have "gen_of (objs s2 k) = n" using cas_ok by blast
  moreover have "n < m" "gen_of (objs s1 k) = m" using cas_ok [OF assms(1)] by (auto simp: gen_of_def)
  ultimately show False using assms(2) by simp
qed

end

text \<open>The methods of \<^verbatim>\<open>GCSStore\<close> branch by branch.\<close>

lemma WriteIfNotExists_cases:
  assumes "WriteIfNotExists g k b s = (r, s')"
  obtains (ok) n where "r = None" "g_write g k DoesNotExist b s = ((None, Inr n), s')"
  | (exists) e where "r = Some (Errorf ''%s: %w'' [S k, W ErrAlreadyExists])" "g_write g k DoesNotExist b s = ((None, Inl e), s')"
      "isPreconditionFailed g e"
  | (close) e where "r = Some (Errorf ''close writer for %s: %w'' [S k, W e])" "g_write g k DoesNotExist b s = ((None, Inl e), s')"
  | (body) e q where "r = Some (Errorf ''write body to %s: %w'' [S k, W e])" "g_write g k DoesNotExist b s = ((Some e, q), s')"
  using assms unfolding WriteIfNotExists_def
  by (auto split: prod.splits option.splits sum.splits if_splits)

abbreviation cas_condition :: "int \<Rightarrow> conditions" where
  "cas_condition n \<equiv> (if n = 0 then DoesNotExist else GenerationMatch n)"

lemma CASWritePointer_cases:
  assumes "CASWritePointer g k b n s = (r, s')"
  obtains (ok) m where "r = Inr m" "g_write g k (cas_condition n) b s = ((None, Inr m), s')"
  | (lost) e where "r = Inl (Errorf ''CAS write of %s (expectedGen=%d): %w'' [S k, S (show_int n), W ErrPreconditionFailed])"
      "g_write g k (cas_condition n) b s = ((None, Inl e), s')" "isPreconditionFailed g e"
  | (close) e where "r = Inl (Errorf ''close pointer writer for %s: %w'' [S k, W e])"
      "g_write g k (cas_condition n) b s = ((None, Inl e), s')"
  | (body) e q where "r = Inl (Errorf ''write pointer body to %s: %w'' [S k, W e])"
      "g_write g k (cas_condition n) b s = ((Some e, q), s')"
  using assms unfolding CASWritePointer_def
  by (auto split: prod.splits option.splits sum.splits if_splits)

lemma ReadObject_cases:
  assumes "ReadObject g k s = r"
  obtains (ok) b where "r = Inr b" "g_open_err g k s = None" "g_body g k s = Inr b"
  | (missing) e where "r = Inl (Errorf ''%s: %w'' [S k, W ErrObjectNotFound])" "g_open_err g k s = Some e"
      "errors_Is e ErrObjectNotExist"
  | (unopened) e where "r = Inl (Errorf ''open reader for %s: %w'' [S k, W e])" "g_open_err g k s = Some e"
  | (body) e where "r = Inl (Errorf ''read %s: %w'' [S k, W e])" "g_body g k s = Inl e"
  using assms unfolding ReadObject_def
  by (cases "g_open_err g k s"; cases "g_body g k s") (auto split: if_splits)

lemma meets_cas:
  "(\<And>b m. ob = Some (b, m) \<Longrightarrow> 0 < m) \<Longrightarrow> meets (cas_condition n) ob \<longleftrightarrow> gen_of ob = n"
  by (auto simp: meets_def gen_of_def split: option.splits)

sublocale gcs_bucket \<subseteq> st: manifest_store "WriteIfNotExists g" "ReadObject g" "ReadPointerGeneration g" "CASWritePointer g" objs
proof unfold_locales
  fix k b s s' e n m
  have cond: "meets (cas_condition n) (objs s k) \<longleftrightarrow> gen_of (objs s k) = n" for n
    by (rule meets_cas) (use gen_positive in blast)
  have absent: "meets DoesNotExist (objs s k) \<longleftrightarrow> objs s k = None" by (simp add: meets_def)
  have none: "gen_of None = 0" by (simp add: gen_of_def)
  show "objs s k = None \<and> (\<exists>n. 0 < n \<and> objs s' = (objs s)(k \<mapsto> (b, n)))" if "WriteIfNotExists g k b s = (None, s')"
    using that by (cases rule: WriteIfNotExists_cases) (use write_ok absent none in \<open>auto, metis\<close>)
  show "objs s k \<noteq> None \<and> objs s' = objs s" if "WriteIfNotExists g k b s = (Some e, s')" "errors_Is e ErrAlreadyExists"
    using that(1)
  proof (cases rule: WriteIfNotExists_cases)
    case (exists d)
    then show ?thesis using write_refused absent by blast
  next
    case (close d)
    then show ?thesis using close_error that(2) by (auto simp: sdk_error_def store_error_defs)
  next
    case (body d q)
    then show ?thesis using write_error that(2) by (auto simp: sdk_error_def store_error_defs)
  qed simp
  show "objs s' = objs s \<or> (objs s k = None \<and> (\<exists>n. 0 < n \<and> objs s' = (objs s)(k \<mapsto> (b, n))))"
    if "WriteIfNotExists g k b s = (Some e, s')"
  proof -
    have "\<exists>we r. g_write g k DoesNotExist b s = ((we, r), s') \<and> (we \<noteq> None \<or> isl r)"
      using that by (cases rule: WriteIfNotExists_cases) auto
    then show ?thesis using write_failed [of k DoesNotExist b s _ _ s'] absent none by metis
  qed
  show "\<not> errors_Is e ErrVerificationFailed \<and> \<not> errors_Is e ErrPreconditionFailed" if "WriteIfNotExists g k b s = (Some e, s')"
    using that
    by (cases rule: WriteIfNotExists_cases)
       (use close_error write_error in \<open>auto simp: sdk_error_def store_error_defs\<close>)
  show "\<exists>n. objs s k = Some (b, n)" if "ReadObject g k s = Inr b"
    using that body_ok [of k s b] by (cases rule: ReadObject_cases) auto
  show "\<not> errors_Is e ErrVerificationFailed \<and> \<not> errors_Is e ErrPreconditionFailed" if "ReadObject g k s = Inl e"
    using that open_error body_error
    by (cases rule: ReadObject_cases) (auto simp: sdk_error_def store_error_defs)
  show "objs s k = None" if "ReadObject g k s = Inl e" "errors_Is e ErrObjectNotFound"
    using that open_error body_error open_missing
    by (cases rule: ReadObject_cases) (auto simp: sdk_error_def store_error_defs)
  show "gen_of (objs s k) = n" if "ReadPointerGeneration g k s = Inr n"
    using that attrs_ok [of k s n] attrs_missing [of k s]
    by (auto simp: ReadPointerGeneration_def gen_of_def split: sum.splits if_splits)
  show "\<not> errors_Is e ErrVerificationFailed \<and> \<not> errors_Is e ErrPreconditionFailed" if "ReadPointerGeneration g k s = Inl e"
    using that attrs_error
    by (auto simp: ReadPointerGeneration_def sdk_error_def store_error_defs split: sum.splits if_splits)
  show "gen_of (objs s k) = n \<and> n < m \<and> objs s' = (objs s)(k \<mapsto> (b, m))" if "CASWritePointer g k b n s = (Inr m, s')"
    using that by (cases rule: CASWritePointer_cases) (use write_ok [of k "cas_condition n" b s] cond [of n] in auto)
  show "gen_of (objs s k) \<noteq> n \<and> objs s' = objs s" if "CASWritePointer g k b n s = (Inl e, s')" "errors_Is e ErrPreconditionFailed"
    using that(1)
  proof (cases rule: CASWritePointer_cases)
    case (lost d)
    then show ?thesis using write_refused cond by blast
  next
    case (close d)
    then show ?thesis using close_error that(2) by (auto simp: sdk_error_def store_error_defs)
  next
    case (body d q)
    then show ?thesis using write_error that(2) by (auto simp: sdk_error_def store_error_defs)
  qed simp
  show "objs s' = objs s \<or> (gen_of (objs s k) = n \<and> (\<exists>m. n < m \<and> objs s' = (objs s)(k \<mapsto> (b, m))))"
    if "CASWritePointer g k b n s = (Inl e, s')"
  proof -
    have "\<exists>we r. g_write g k (cas_condition n) b s = ((we, r), s') \<and> (we \<noteq> None \<or> isl r)"
      using that by (cases rule: CASWritePointer_cases) auto
    then show ?thesis using write_failed [of k "cas_condition n" b s _ _ s'] cond [of n] by metis
  qed
  show "\<not> errors_Is e ErrVerificationFailed" if "CASWritePointer g k b n s = (Inl e, s')"
    using that
    by (cases rule: CASWritePointer_cases)
       (use close_error write_error in \<open>auto simp: sdk_error_def store_error_defs\<close>)
qed

section \<open>A bucket in memory\<close>

text \<open>
  An instance of the client: reads succeed, writes succeed unless their condition fails. A stored
  number \<open>n\<close> is the generation \<open>n + 1\<close>, so every generation is positive.
\<close>

record bucket =
  bk_objects :: "string \<rightharpoonup> string \<times> nat"
  bk_writes :: nat

definition mem_objects :: "bucket \<Rightarrow> objects" where
  "mem_objects s = (\<lambda>k. case bk_objects s k of None \<Rightarrow> None | Some (b, n) \<Rightarrow> Some (b, int n + 1))"

definition next_gen :: "bucket \<Rightarrow> string \<Rightarrow> nat" where
  "next_gen s k = (case bk_objects s k of None \<Rightarrow> bk_writes s | Some (_, n) \<Rightarrow> max (n + 1) (bk_writes s))"

definition Err412 :: goerr where "Err412 = errors_New ''googleapi: Error 412: conditionNotMet''"

definition mem_client :: "bucket gcs" where
  "mem_client = \<lparr>
    g_open_err = (\<lambda>k s. case bk_objects s k of None \<Rightarrow> Some ErrObjectNotExist | Some _ \<Rightarrow> None),
    g_body = (\<lambda>k s. case bk_objects s k of None \<Rightarrow> Inl ErrObjectNotExist | Some (b, _) \<Rightarrow> Inr b),
    g_attrs = (\<lambda>k s. case bk_objects s k of None \<Rightarrow> Inl ErrObjectNotExist | Some (_, n) \<Rightarrow> Inr (int n + 1)),
    g_write = (\<lambda>k c b s.
      if meets c (mem_objects s k)
      then ((None, Inr (int (next_gen s k) + 1)),
            \<lparr>bk_objects = (bk_objects s)(k \<mapsto> (b, next_gen s k)), bk_writes = bk_writes s + 1\<rparr>)
      else ((None, Inl Err412), s)),
    g_code = (\<lambda>e. if e = Err412 then Some 412 else None)\<rparr>"

lemma mem_write:
  "g_write mem_client k c b s = ((we, r), s') \<longleftrightarrow>
    we = None \<and>
    (if meets c (mem_objects s k)
     then r = Inr (int (next_gen s k) + 1) \<and> s' = \<lparr>bk_objects = (bk_objects s)(k \<mapsto> (b, next_gen s k)), bk_writes = bk_writes s + 1\<rparr>
     else r = Inl Err412 \<and> s' = s)"
  by (auto simp: mem_client_def)

lemma mem_objects_update:
  "mem_objects \<lparr>bk_objects = (bk_objects s)(k \<mapsto> (b, n)), bk_writes = m\<rparr> = (mem_objects s)(k \<mapsto> (b, int n + 1))"
  by (auto simp: mem_objects_def)

lemma next_gen_gt: "gen_of (mem_objects s k) < int (next_gen s k) + 1"
  by (auto simp: next_gen_def mem_objects_def gen_of_def split: option.split)

lemma mem_errors: "sdk_error ErrObjectNotExist" "sdk_error Err412"
  by (simp_all add: sdk_error_def store_error_defs ErrObjectNotExist_def Err412_def)

interpretation mem: gcs_bucket mem_client mem_objects
proof unfold_locales
  fix k s b n e c we r s'
  show "\<exists>n. mem_objects s k = Some (b, n)" if "g_open_err mem_client k s = None" "g_body mem_client k s = Inr b"
    using that by (auto simp: mem_client_def mem_objects_def split: option.splits)
  show "mem_objects s k = None" if "g_open_err mem_client k s = Some e" "errors_Is e ErrObjectNotExist"
    using that by (auto simp: mem_client_def mem_objects_def split: option.splits)
  show "\<exists>b. mem_objects s k = Some (b, n)" if "g_attrs mem_client k s = Inr n"
    using that by (auto simp: mem_client_def mem_objects_def split: option.splits)
  show "mem_objects s k = None" if "g_attrs mem_client k s = Inl e" "errors_Is e ErrObjectNotExist"
    using that by (auto simp: mem_client_def mem_objects_def split: option.splits)
  show "0 < n" if "mem_objects s k = Some (b, n)"
    using that by (auto simp: mem_objects_def split: option.splits)
  show "meets c (mem_objects s k) \<and> gen_of (mem_objects s k) < n \<and> mem_objects s' = (mem_objects s)(k \<mapsto> (b, n))"
    if "g_write mem_client k c b s = ((None, Inr n), s')"
    using that next_gen_gt [of s k] by (auto simp: mem_write mem_objects_update split: if_splits)
  show "\<not> meets c (mem_objects s k) \<and> mem_objects s' = mem_objects s"
    if "g_write mem_client k c b s = ((None, Inl e), s')" "isPreconditionFailed mem_client e"
    using that by (auto simp: mem_write split: if_splits)
  show "mem_objects s' = mem_objects s \<or>
      (meets c (mem_objects s k) \<and> (\<exists>n. gen_of (mem_objects s k) < n \<and> mem_objects s' = (mem_objects s)(k \<mapsto> (b, n))))"
    if "g_write mem_client k c b s = ((we, r), s')" "we \<noteq> None \<or> isl r"
    using that by (auto simp: mem_write split: if_splits)
  show "sdk_error e" if "g_open_err mem_client k s = Some e"
    using that mem_errors by (auto simp: mem_client_def split: option.splits)
  show "sdk_error e" if "g_body mem_client k s = Inl e"
    using that mem_errors by (auto simp: mem_client_def split: option.splits)
  show "sdk_error e" if "g_attrs mem_client k s = Inl e"
    using that mem_errors by (auto simp: mem_client_def split: option.splits)
  show "sdk_error e" if "g_write mem_client k c b s = ((Some e, r), s')"
    using that by (simp add: mem_write)
  show "sdk_error e" if "g_write mem_client k c b s = ((None, Inl e), s')"
    using that mem_errors by (auto simp: mem_write split: if_splits)
qed

end
