(* ===== verification/Loader.thy ===== *)
theory Loader
  imports Manifest_Store
begin

text \<open>
  The manifest loader (\<^verbatim>\<open>engine/internal/loader/loader.go\<close>, \<^verbatim>\<open>compat.go\<close>): the startup load, the
  refresh with its hash short-circuit, the three contract checks and the failure classes.

  The store is read at two moments, between which other processes may write to it, so the loader's
  \<^verbatim>\<open>Store\<close> is what a read of a key returns at a tick of the engine. The semver library is the
  parameter \<open>semver\<close>, the JSON decoder the parameter \<open>codec\<close>.
\<close>

section \<open>Contract checks\<close>

record 'v semver =
  NewVersion :: "string \<Rightarrow> 'v result"
  NewConstraint :: "string \<Rightarrow> ('v \<Rightarrow> bool) result"
  version_text :: "'v \<Rightarrow> string"

definition ErrContractMismatch :: goerr where
  "ErrContractMismatch = errors_New ''manifest contract check failed''"

text \<open>\<^verbatim>\<open>%v\<close> of an \<^verbatim>\<open>[]int\<close>.\<close>

definition show_ints :: "int list \<Rightarrow> string" where
  "show_ints xs = ''['' @ strings_Join (map show_int xs) '' '' @ '']''"

fun containsInt :: "int list \<Rightarrow> int \<Rightarrow> bool" where
  "containsInt [] x = False"
| "containsInt (v # xs) x = (if v = x then True else containsInt xs x)"

lemma containsInt_iff [simp]: "containsInt xs x \<longleftrightarrow> x \<in> set xs"
  by (induction xs) auto

text \<open>The last loop of \<^verbatim>\<open>runContractChecks\<close>: the first schema version the engine does not support.\<close>

fun unsupported_version :: "int list \<Rightarrow> int list \<Rightarrow> goerr option" where
  "unsupported_version supported [] = None"
| "unsupported_version supported (v # vs) =
    (if \<not> containsInt supported v
     then Some (Errorf ''%w: schema_versions_present includes %d, which is not in engine-supported set %v''
                  [W ErrContractMismatch, S (show_int v), S (show_ints supported)])
     else unsupported_version supported vs)"

definition runContractChecks ::
  "'v semver \<Rightarrow> 'a Manifest_scheme \<Rightarrow> 'v \<Rightarrow> int list \<Rightarrow> int list \<Rightarrow> goerr option" where
  "runContractChecks sv m engineVersion supportedManifestVersions supportedSchemaVersions =
    (if \<not> containsInt supportedManifestVersions (mf_manifest_version m)
     then Some (Errorf ''%w: manifest_version %d is not in engine-supported set %v''
                  [W ErrContractMismatch, S (show_int (mf_manifest_version m)), S (show_ints supportedManifestVersions)])
     else case NewConstraint sv (mf_engine_compatibility m) of
       Inl e \<Rightarrow> Some (Errorf ''%w: engine_compatibility %q is not a valid semver constraint: %v''
                       [W ErrContractMismatch, S (mf_engine_compatibility m), V e])
     | Inr constraint \<Rightarrow>
         (if \<not> constraint engineVersion
          then Some (Errorf ''%w: engine version %s does not satisfy manifest's engine_compatibility %q''
                       [W ErrContractMismatch, S (version_text sv engineVersion), S (mf_engine_compatibility m)])
          else unsupported_version supportedSchemaVersions (mf_schema_versions_present m)))"

section \<open>The loader\<close>

definition errorClassPointerRead :: string where "errorClassPointerRead = ''pointer_read''"
definition errorClassBodyFetch :: string where "errorClassBodyFetch = ''body_fetch''"
definition errorClassHashMismatch :: string where "errorClassHashMismatch = ''hash_mismatch''"
definition errorClassParseError :: string where "errorClassParseError = ''parse_error''"
definition errorClassCompatibilityContract :: string where
  "errorClassCompatibilityContract = ''compatibility_contract''"

lemmas error_class_defs = errorClassPointerRead_def errorClassBodyFetch_def errorClassHashMismatch_def
  errorClassParseError_def errorClassCompatibilityContract_def

definition ErrHashMismatch :: goerr where
  "ErrHashMismatch = errors_New ''manifest body hash does not match pointer hash''"
definition ErrBodyFetch :: goerr where "ErrBodyFetch = errors_New ''manifest body fetch failed''"
definition ErrParseError :: goerr where "ErrParseError = errors_New ''manifest body parse failed''"

lemmas loader_error_defs = ErrHashMismatch_def ErrBodyFetch_def ErrParseError_def ErrContractMismatch_def

text \<open>The parsed manifest with the \<^verbatim>\<open>Hash\<close> field the loader fills in.\<close>

record LoadedManifest = Manifest +
  mf_Hash :: string

type_synonym object_reader = "string \<Rightarrow> nat \<Rightarrow> string result"

record LoaderConfig =
  lc_EngineVersion :: string
  lc_SupportedSchemaVersions :: "int list"
  lc_SupportedManifestVersions :: "int list"
  lc_PointerKey :: string
  lc_BodyPrefix :: string
  lc_Metrics :: bool

text \<open>\<open>lc_Metrics\<close> and \<open>lo_metrics\<close> say whether samples go to the engine's registry or to a throwaway one.\<close>

record 'v Loader =
  lo_store :: object_reader
  lo_engineVersion :: 'v
  lo_supportedMV :: "int list"
  lo_supportedSV :: "int list"
  lo_pointerKey :: string
  lo_bodyPrefix :: string
  lo_metrics :: bool

definition New :: "'v semver \<Rightarrow> object_reader option \<Rightarrow> LoaderConfig \<Rightarrow> 'v Loader result" where
  "New sv store cfg =
    (case store of
       None \<Rightarrow> Inl (errors_New ''loader: store is required'')
     | Some st \<Rightarrow>
         (case NewVersion sv (lc_EngineVersion cfg) of
            Inl e \<Rightarrow> Inl (Errorf ''loader: engine_version %q is not a valid semver: %w'' [S (lc_EngineVersion cfg), W e])
          | Inr ev \<Rightarrow>
              (if lc_SupportedSchemaVersions cfg = []
               then Inl (errors_New ''loader: SupportedSchemaVersions must be non-empty'')
               else Inr \<lparr>lo_store = st, lo_engineVersion = ev,
                 lo_supportedMV = (if lc_SupportedManifestVersions cfg = [] then [1] else lc_SupportedManifestVersions cfg),
                 lo_supportedSV = lc_SupportedSchemaVersions cfg,
                 lo_pointerKey = (if lc_PointerKey cfg = [] then ''manifests/latest.json'' else lc_PointerKey cfg),
                 lo_bodyPrefix = (if lc_BodyPrefix cfg = [] then ''manifests/by-hash/'' else lc_BodyPrefix cfg),
                 lo_metrics = lc_Metrics cfg\<rparr>)))"

definition stripSha256Prefix :: "string \<Rightarrow> string result" where
  "stripSha256Prefix hashStr =
    (if \<not> HasPrefix hashStr ''sha256:''
     then Inl (Errorf (''manifest_hash %q does not start with %q (ADR-0005 '' @ section_sign @ ''7)'') [S hashStr, S ''sha256:''])
     else (let hexStr = TrimPrefix hashStr ''sha256:''
           in if \<not> is_hash_hex hexStr
              then Inl (Errorf ''manifest_hash hex portion %q is not a 64-char lowercase hex string'' [S hexStr])
              else Inr hexStr))"

definition readPointer :: "codec \<Rightarrow> 'v Loader \<Rightarrow> world \<Rightarrow> Pointer result \<times> world" where
  "readPointer c l w =
    (case lo_store l (lo_pointerKey l) (tick w) of
       Inl e \<Rightarrow> Inl e
     | Inr raw \<Rightarrow>
         (case unmarshal_pointer c raw of
            Inl e \<Rightarrow> Inl (Errorf ''parse pointer JSON: %w'' [W e])
          | Inr p \<Rightarrow>
              (if po_pointer_version p \<noteq> 1
               then Inl (Errorf ''unsupported pointer_version %d (loader supports 1)'' [S (show_int (po_pointer_version p))])
               else case stripSha256Prefix (po_manifest_hash p) of Inl e \<Rightarrow> Inl e | Inr _ \<Rightarrow> Inr p)),
     step w)"

definition fetchAndVerify ::
  "codec \<Rightarrow> 'v semver \<Rightarrow> 'v Loader \<Rightarrow> Pointer \<Rightarrow> world \<Rightarrow> LoadedManifest result \<times> world" where
  "fetchAndVerify c sv l pointer w =
    (case stripSha256Prefix (po_manifest_hash pointer) of
       Inl e \<Rightarrow> (Inl e, w)
     | Inr hexStr \<Rightarrow>
         (let key = lo_bodyPrefix l @ ''sha256-'' @ hexStr @ ''.json''
          in (case lo_store l key (tick w) of
                Inl e \<Rightarrow> Inl (Errorf ''%w: %s: %w'' [W ErrBodyFetch, S key, W e])
              | Inr raw \<Rightarrow>
                  (let actual = sha256_hex raw
                   in if actual \<noteq> hexStr
                      then Inl (Errorf ''%w: body sha256 %s does not match pointer hash %s'' [W ErrHashMismatch, S actual, S hexStr])
                      else case unmarshal_manifest c raw of
                        Inl e \<Rightarrow> Inl (Errorf ''%w: %w'' [W ErrParseError, W e])
                      | Inr m \<Rightarrow>
                          (case runContractChecks sv m (lo_engineVersion l) (lo_supportedMV l) (lo_supportedSV l) of
                             Some e \<Rightarrow> Inl e
                           | None \<Rightarrow> Inr (Manifest.extend m (LoadedManifest.fields actual)))),
              step w)))"

definition Load :: "codec \<Rightarrow> 'v semver \<Rightarrow> 'v Loader \<Rightarrow> world \<Rightarrow> LoadedManifest result \<times> world" where
  "Load c sv l w =
    (case readPointer c l w of
       (Inl e, w) \<Rightarrow> (Inl (Errorf ''read pointer: %w'' [W e]), w)
     | (Inr pointer, w) \<Rightarrow> fetchAndVerify c sv l pointer w)"

definition classifyFetchAndVerifyError :: "goerr option \<Rightarrow> string" where
  "classifyFetchAndVerifyError err =
    (case err of
       None \<Rightarrow> errorClassCompatibilityContract
     | Some e \<Rightarrow>
         (if errors_Is e ErrHashMismatch then errorClassHashMismatch
          else if errors_Is e ErrBodyFetch then errorClassBodyFetch
          else if errors_Is e ErrParseError then errorClassParseError
          else errorClassCompatibilityContract))"

definition refresh_failure :: "'v Loader \<Rightarrow> string \<Rightarrow> world \<Rightarrow> world" where
  "refresh_failure l class w =
    (if lo_metrics l then sample [Inc ''dq_loader_refresh_failures_total'' [class]] w else w)"

text \<open>\<^verbatim>\<open>(m, swapped, err)\<close>: \<open>Inr (None, False)\<close> is the short-circuit \<^verbatim>\<open>(nil, false, nil)\<close>.\<close>

definition Refresh ::
  "codec \<Rightarrow> 'v semver \<Rightarrow> 'v Loader \<Rightarrow> string \<Rightarrow> world \<Rightarrow> (LoadedManifest option \<times> bool) result \<times> world" where
  "Refresh c sv l currentHash w =
    (case readPointer c l w of
       (Inl e, w) \<Rightarrow> (Inl (Errorf ''read pointer: %w'' [W e]), refresh_failure l errorClassPointerRead w)
     | (Inr pointer, w) \<Rightarrow>
         (case stripSha256Prefix (po_manifest_hash pointer) of
            Inl e \<Rightarrow> (Inl (Errorf ''validate pointer manifest_hash: %w'' [W e]), refresh_failure l errorClassPointerRead w)
          | Inr pointerHex \<Rightarrow>
              (if pointerHex = currentHash then (Inr (None, False), w)
               else case fetchAndVerify c sv l pointer w of
                 (Inl e, w) \<Rightarrow> (Inl e, refresh_failure l (classifyFetchAndVerifyError (Some e)) w)
               | (Inr m, w) \<Rightarrow> (Inr (Some m, True), w))))"

section \<open>What each step accepts\<close>

lemma stripSha256Prefix_ok: "stripSha256Prefix s = Inr h \<longleftrightarrow> s = ''sha256:'' @ h \<and> is_hash_hex h"
proof -
  have "HasPrefix s ''sha256:'' \<longleftrightarrow> (\<exists>h. s = ''sha256:'' @ h)" by (auto simp: HasPrefix_iff_prefix prefix_def)
  moreover have "TrimPrefix (''sha256:'' @ h) ''sha256:'' = h" by (rule TrimPrefix_append)
  ultimately show ?thesis by (auto simp: stripSha256Prefix_def Let_def simp del: append.simps)
qed

lemma unsupported_version_None: "unsupported_version svs vs = None \<longleftrightarrow> set vs \<subseteq> set svs"
  by (induction vs) auto

lemma unsupported_version_error: "unsupported_version svs vs = Some e \<Longrightarrow> errors_Is e ErrContractMismatch"
  by (induction vs) (auto split: if_splits)

text \<open>The manifest is one this engine may run: the three contract checks as a predicate.\<close>

definition compatible :: "'v semver \<Rightarrow> 'v \<Rightarrow> int list \<Rightarrow> int list \<Rightarrow> 'a Manifest_scheme \<Rightarrow> bool" where
  "compatible sv v mvs svs m \<longleftrightarrow>
    mf_manifest_version m \<in> set mvs \<and>
    (\<exists>ok. NewConstraint sv (mf_engine_compatibility m) = Inr ok \<and> ok v) \<and>
    set (mf_schema_versions_present m) \<subseteq> set svs"

lemma runContractChecks_None: "runContractChecks sv m v mvs svs = None \<longleftrightarrow> compatible sv v mvs svs m"
  by (auto simp: runContractChecks_def compatible_def unsupported_version_None split: sum.splits)

lemma runContractChecks_error:
  "runContractChecks sv m v mvs svs = Some e \<Longrightarrow> errors_Is e ErrContractMismatch"
  by (auto simp: runContractChecks_def split: sum.splits if_splits dest: unsupported_version_error)

lemma readPointer_ok:
  "fst (readPointer c l w) = Inr p \<longleftrightarrow>
    (\<exists>raw h. lo_store l (lo_pointerKey l) (tick w) = Inr raw \<and> unmarshal_pointer c raw = Inr p \<and>
       po_pointer_version p = 1 \<and> stripSha256Prefix (po_manifest_hash p) = Inr h)"
  by (auto simp: readPointer_def split: sum.splits)

lemma readPointer_world [simp]: "snd (readPointer c l w) = step w"
  by (simp add: readPointer_def)

abbreviation body_key :: "'v Loader \<Rightarrow> string \<Rightarrow> string" where
  "body_key l h \<equiv> lo_bodyPrefix l @ ''sha256-'' @ h @ ''.json''"

lemma fetchAndVerify_ok:
  "fst (fetchAndVerify c sv l p w) = Inr m \<longleftrightarrow>
    (\<exists>h raw m0. stripSha256Prefix (po_manifest_hash p) = Inr h \<and> lo_store l (body_key l h) (tick w) = Inr raw \<and>
       sha256_hex raw = h \<and> unmarshal_manifest c raw = Inr m0 \<and>
       compatible sv (lo_engineVersion l) (lo_supportedMV l) (lo_supportedSV l) m0 \<and>
       m = Manifest.extend m0 (LoadedManifest.fields h))"
  by (auto simp: fetchAndVerify_def Let_def simp flip: runContractChecks_None split: sum.splits option.splits)

text \<open>The stages of a fetch and the failure class each is reported under.\<close>

definition body_failure :: "codec \<Rightarrow> 'v semver \<Rightarrow> 'v Loader \<Rightarrow> string \<Rightarrow> nat \<Rightarrow> string option" where
  "body_failure c sv l h t =
    (case lo_store l (body_key l h) t of
       Inl _ \<Rightarrow> Some errorClassBodyFetch
     | Inr raw \<Rightarrow>
         if sha256_hex raw \<noteq> h then Some errorClassHashMismatch
         else case unmarshal_manifest c raw of
           Inl _ \<Rightarrow> Some errorClassParseError
         | Inr m \<Rightarrow> if compatible sv (lo_engineVersion l) (lo_supportedMV l) (lo_supportedSV l) m then None
                    else Some errorClassCompatibilityContract)"

text \<open>An error that no sentinel of the loader occurs in: what the store and the decoder return.\<close>

definition foreign :: "goerr \<Rightarrow> bool" where
  "foreign e \<longleftrightarrow> \<not> errors_Is e ErrHashMismatch \<and> \<not> errors_Is e ErrBodyFetch \<and> \<not> errors_Is e ErrParseError"

definition foreign_errors :: "codec \<Rightarrow> 'v Loader \<Rightarrow> bool" where
  "foreign_errors c l \<longleftrightarrow>
    (\<forall>k t e. lo_store l k t = Inl e \<longrightarrow> foreign e) \<and> (\<forall>b e. unmarshal_manifest c b = Inl e \<longrightarrow> foreign e)"

lemma fetchAndVerify_stored:
  assumes "stripSha256Prefix (po_manifest_hash p) = Inr h" "lo_store l (body_key l h) (tick w) = Inr b" "sha256_hex b = h"
    and "unmarshal_manifest c b = Inr m"
  shows "fst (fetchAndVerify c sv l p w) =
    (case runContractChecks sv m (lo_engineVersion l) (lo_supportedMV l) (lo_supportedSV l) of
       None \<Rightarrow> Inr (Manifest.extend m (LoadedManifest.fields h)) | Some e \<Rightarrow> Inl e)"
  unfolding fetchAndVerify_def assms(1) using assms(2-4) by (simp split: option.split)

lemma runContractChecks_foreign:
  assumes "runContractChecks sv m v mvs svs = Some e"
  shows "foreign e"
proof -
  have u: "unsupported_version svs vs = Some e \<Longrightarrow> foreign e" for vs
    by (induction vs) (auto simp: foreign_def loader_error_defs split: if_splits)
  show ?thesis
    using assms unfolding runContractChecks_def
    by (auto simp: foreign_def loader_error_defs split: sum.splits if_splits dest: u)
qed

lemma fetchAndVerify_class:
  assumes "foreign_errors c l" "stripSha256Prefix (po_manifest_hash p) = Inr h"
  shows "body_failure c sv l h (tick w) =
    (case fst (fetchAndVerify c sv l p w) of Inl e \<Rightarrow> Some (classifyFetchAndVerifyError (Some e)) | Inr _ \<Rightarrow> None)"
proof (cases "lo_store l (body_key l h) (tick w)")
  case (Inl e)
  then have "foreign e" using assms(1) by (auto simp: foreign_errors_def)
  then show ?thesis
    using assms(2) Inl by (simp add: fetchAndVerify_def body_failure_def classifyFetchAndVerifyError_def foreign_def loader_error_defs)
next
  case (Inr raw)
  show ?thesis
  proof (cases "sha256_hex raw = h")
    case False
    then show ?thesis
      using assms(2) Inr by (auto simp: fetchAndVerify_def body_failure_def classifyFetchAndVerifyError_def Let_def)
  next
    case True
    show ?thesis
    proof (cases "unmarshal_manifest c raw")
      case (Inl e)
      then have "foreign e" using assms(1) by (auto simp: foreign_errors_def)
      then show ?thesis
        using assms(2) Inr Inl True
        by (simp add: fetchAndVerify_def body_failure_def classifyFetchAndVerifyError_def foreign_def loader_error_defs Let_def)
    next
      case m: (Inr m)
      show ?thesis
      proof (cases "runContractChecks sv m (lo_engineVersion l) (lo_supportedMV l) (lo_supportedSV l)")
        case None
        then show ?thesis
          using assms(2) Inr m True by (auto simp: fetchAndVerify_def body_failure_def Let_def simp flip: runContractChecks_None)
      next
        case (Some e)
        then have "foreign e" "\<not> compatible sv (lo_engineVersion l) (lo_supportedMV l) (lo_supportedSV l) m"
          by (auto simp: runContractChecks_foreign simp flip: runContractChecks_None)
        then show ?thesis
          using assms(2) Inr m True Some
          by (simp add: fetchAndVerify_def body_failure_def classifyFetchAndVerifyError_def foreign_def Let_def)
      qed
    qed
  qed
qed

lemma Load_eq:
  "fst (Load c sv l w) =
    (case fst (readPointer c l w) of Inl e \<Rightarrow> Inl (Errorf ''read pointer: %w'' [W e])
     | Inr p \<Rightarrow> fst (fetchAndVerify c sv l p (step w)))"
proof -
  obtain r where "readPointer c l w = (r, step w)" by (metis prod.collapse readPointer_world)
  then show ?thesis by (simp add: Load_def split: sum.split)
qed

section \<open>Properties\<close>

text \<open>
  C19. \<^verbatim>\<open>Load\<close> returns a manifest exactly when the pointer read at this moment decodes, has version 1 and
  a well-formed hash, the object under the content-addressed key read at the next moment has exactly
  that SHA-256 digest and decodes, and the decoded manifest passes the three contract checks; the
  manifest returned is the decoded one with \<^verbatim>\<open>Hash\<close> set to the digest.
\<close>

theorem Load_verified:
  "fst (Load c sv l w) = Inr m \<longleftrightarrow>
    (\<exists>p h raw body m0.
       lo_store l (lo_pointerKey l) (tick w) = Inr raw \<and> unmarshal_pointer c raw = Inr p \<and>
       po_pointer_version p = 1 \<and> po_manifest_hash p = ''sha256:'' @ h \<and> is_hash_hex h \<and>
       lo_store l (lo_bodyPrefix l @ ''sha256-'' @ h @ ''.json'') (tick w + 1) = Inr body \<and>
       sha256_hex body = h \<and> unmarshal_manifest c body = Inr m0 \<and>
       compatible sv (lo_engineVersion l) (lo_supportedMV l) (lo_supportedSV l) m0 \<and>
       m = Manifest.extend m0 (LoadedManifest.fields h))"
proof (cases "fst (readPointer c l w)")
  case (Inl e)
  have "\<not> (\<exists>p raw h. lo_store l (lo_pointerKey l) (tick w) = Inr raw \<and> unmarshal_pointer c raw = Inr p \<and>
      po_pointer_version p = 1 \<and> po_manifest_hash p = ''sha256:'' @ h \<and> is_hash_hex h)"
    using readPointer_ok [of c l w] Inl by (metis Inl_Inr_False stripSha256Prefix_ok)
  then show ?thesis using Inl unfolding Load_eq by auto
next
  case (Inr p)
  obtain raw h where r: "lo_store l (lo_pointerKey l) (tick w) = Inr raw" "unmarshal_pointer c raw = Inr p"
    "po_pointer_version p = 1" "stripSha256Prefix (po_manifest_hash p) = Inr h"
    using Inr readPointer_ok by blast
  have "fst (Load c sv l w) = Inr m \<longleftrightarrow> fst (fetchAndVerify c sv l p (step w)) = Inr m"
    using Inr by (simp add: Load_eq)
  then show ?thesis
    using r unfolding fetchAndVerify_ok by (simp add: stripSha256Prefix_ok)
qed

lemma Refresh_cases:
  obtains (pointer) e where "fst (readPointer c l w) = Inl e"
      "Refresh c sv l cur w = (Inl (Errorf ''read pointer: %w'' [W e]), refresh_failure l errorClassPointerRead (step w))"
  | (same) p where "fst (readPointer c l w) = Inr p" "stripSha256Prefix (po_manifest_hash p) = Inr cur"
      "Refresh c sv l cur w = (Inr (None, False), step w)"
  | (failed) p h e where "fst (readPointer c l w) = Inr p" "stripSha256Prefix (po_manifest_hash p) = Inr h" "h \<noteq> cur"
      "fst (fetchAndVerify c sv l p (step w)) = Inl e"
      "Refresh c sv l cur w = (Inl e, refresh_failure l (classifyFetchAndVerifyError (Some e)) (step (step w)))"
  | (swapped) p h m where "fst (readPointer c l w) = Inr p" "stripSha256Prefix (po_manifest_hash p) = Inr h" "h \<noteq> cur"
      "fst (fetchAndVerify c sv l p (step w)) = Inr m" "Refresh c sv l cur w = (Inr (Some m, True), step (step w))"
proof (cases "fst (readPointer c l w)")
  case (Inl e)
  then have "readPointer c l w = (Inl e, step w)" by (metis prod.collapse readPointer_world)
  then show ?thesis using pointer [OF Inl] by (simp add: Refresh_def)
next
  case (Inr p)
  then have rp: "readPointer c l w = (Inr p, step w)" by (metis prod.collapse readPointer_world)
  obtain h where h: "stripSha256Prefix (po_manifest_hash p) = Inr h" using Inr readPointer_ok by blast
  have w: "snd (fetchAndVerify c sv l p (step w)) = step (step w)" using h by (simp add: fetchAndVerify_def Let_def)
  show ?thesis
  proof (cases "h = cur")
    case True
    then show ?thesis using same [OF Inr] rp h by (simp add: Refresh_def)
  next
    case False
    show ?thesis
    proof (cases "fst (fetchAndVerify c sv l p (step w))")
      case (Inl e)
      then have "fetchAndVerify c sv l p (step w) = (Inl e, step (step w))" by (metis prod.collapse w)
      then show ?thesis using failed [OF Inr h False Inl] rp h False by (simp add: Refresh_def)
    next
      case m: (Inr m)
      then have "fetchAndVerify c sv l p (step w) = (Inr m, step (step w))" by (metis prod.collapse w)
      then show ?thesis using swapped [OF Inr h False m] rp h False by (simp add: Refresh_def)
    qed
  qed
qed

lemma fetchAndVerify_Hash:
  "fst (fetchAndVerify c sv l p w) = Inr m \<Longrightarrow> stripSha256Prefix (po_manifest_hash p) = Inr (mf_Hash m)"
  unfolding fetchAndVerify_ok by (auto simp: LoadedManifest.defs Manifest.defs)

text \<open>
  \<^verbatim>\<open>Refresh\<close> agrees with \<^verbatim>\<open>Load\<close>: where a startup load would return a manifest, a refresh returns the
  same manifest if its hash differs from the one held and short-circuits if it is equal; where it
  swaps, a startup load would have returned the same manifest; where it fails, a startup load fails.
\<close>

theorem Refresh_agrees_Load:
  "case fst (Refresh c sv l cur w) of
     Inl e \<Rightarrow> isl (fst (Load c sv l w))
   | Inr (None, swapped) \<Rightarrow> \<not> swapped \<and> (case fst (Load c sv l w) of Inl _ \<Rightarrow> True | Inr m \<Rightarrow> mf_Hash m = cur)
   | Inr (Some m, swapped) \<Rightarrow> swapped \<and> mf_Hash m \<noteq> cur \<and> fst (Load c sv l w) = Inr m"
proof (cases rule: Refresh_cases [of c l w sv cur])
  case (pointer e)
  then show ?thesis by (simp add: Load_eq)
next
  case (same p)
  then show ?thesis by (auto simp: Load_eq split: sum.split dest: fetchAndVerify_Hash)
next
  case (failed p h e)
  then show ?thesis by (simp add: Load_eq)
next
  case (swapped p h m)
  then show ?thesis by (auto simp: Load_eq dest: fetchAndVerify_Hash)
qed

text \<open>The failure class of a refresh, from the stages alone.\<close>

definition refresh_class :: "codec \<Rightarrow> 'v semver \<Rightarrow> 'v Loader \<Rightarrow> string \<Rightarrow> world \<Rightarrow> string option" where
  "refresh_class c sv l cur w =
    (case fst (readPointer c l w) of
       Inl _ \<Rightarrow> Some errorClassPointerRead
     | Inr p \<Rightarrow> (let h = drop 7 (po_manifest_hash p) in if h = cur then None else body_failure c sv l h (tick w + 1)))"

lemma refresh_failure_samples [simp]:
  "samples (refresh_failure l k w) = samples w @ (if lo_metrics l then [Inc ''dq_loader_refresh_failures_total'' [k]] else [])"
  by (simp add: refresh_failure_def)

text \<open>
  C20. A refresh fails exactly when one of its stages does, and then emits exactly one
  \<^verbatim>\<open>dq_loader_refresh_failures_total\<close> sample with the class of the first failing stage (pointer, body
  fetch, hash, parse, contract), provided the store's and decoder's errors do not themselves carry
  the loader's sentinels; otherwise it emits nothing.
\<close>

theorem Refresh_failure_class:
  assumes "foreign_errors c l"
  shows "isl (fst (Refresh c sv l cur w)) = (refresh_class c sv l cur w \<noteq> None) \<and>
    samples (snd (Refresh c sv l cur w)) = samples w @
      (case refresh_class c sv l cur w of
         None \<Rightarrow> []
       | Some k \<Rightarrow> if lo_metrics l then [Inc ''dq_loader_refresh_failures_total'' [k]] else [])"
proof -
  have drop: "drop 7 (po_manifest_hash p) = h" if "stripSha256Prefix (po_manifest_hash p) = Inr h" for p h
    using that by (simp add: stripSha256Prefix_ok)
  show ?thesis
  proof (cases rule: Refresh_cases [of c l w sv cur])
    case (pointer e)
    then show ?thesis by (simp add: refresh_class_def)
  next
    case (same p)
    then show ?thesis using drop [OF same(2)] by (simp add: refresh_class_def)
  next
    case (failed p h e)
    then show ?thesis
      using drop [OF failed(2)] fetchAndVerify_class [OF assms failed(2), of sv "step w"] by (simp add: refresh_class_def)
  next
    case (swapped p h m)
    then show ?thesis
      using drop [OF swapped(2)] fetchAndVerify_class [OF assms swapped(2), of sv "step w"] by (simp add: refresh_class_def)
  qed
qed

text \<open>A bucket that holds a pointer but not the body it names.\<close>

definition dangling_pointer :: Pointer where
  "dangling_pointer = \<lparr>po_pointer_version = 1, po_manifest_hash = ''sha256:'' @ replicate 64 (CHR ''0''),
     po_ruleset_version = ''rules-v1'', po_published_at = 0\<rparr>"

definition dangling_codec :: codec where
  "dangling_codec = \<lparr>marshal_manifest = (\<lambda>m. Inl (errors_New ''unsupported'')),
     unmarshal_manifest = (\<lambda>b. Inl (errors_New ''invalid character'')),
     marshal_pointer = (\<lambda>p. Inr ''P''), unmarshal_pointer = (\<lambda>b. Inr dangling_pointer)\<rparr>"

definition dangling_loader :: "unit Loader" where
  "dangling_loader = \<lparr>lo_store = (\<lambda>k t. if k = pointerPath then Inr ''P'' else Inl (Errorf ''%s: %w'' [S k, W ErrObjectNotFound])),
     lo_engineVersion = (), lo_supportedMV = [1], lo_supportedSV = [1], lo_pointerKey = pointerPath,
     lo_bodyPrefix = ''manifests/by-hash/'', lo_metrics = True\<rparr>"

definition any_version :: "unit semver" where
  "any_version = \<lparr>NewVersion = (\<lambda>s. Inr ()), NewConstraint = (\<lambda>s. Inr (\<lambda>v. True)), version_text = (\<lambda>v. ''0.1.0'')\<rparr>"

theorem Refresh_failure_class_witness:
  "isl (fst (Refresh dangling_codec any_version dangling_loader [] empty_world)) \<and>
   samples (snd (Refresh dangling_codec any_version dangling_loader [] empty_world)) =
     [Inc ''dq_loader_refresh_failures_total'' [''body_fetch'']]"
proof -
  have zeros: "is_hash_hex (replicate 64 (CHR ''0''))"
    by (simp add: is_hash_hex_def is_lower_hex_def list_all_length)
  have "foreign_errors dangling_codec dangling_loader"
    by (auto simp: foreign_errors_def dangling_codec_def dangling_loader_def foreign_def loader_error_defs store_error_defs
        split: if_splits)
  moreover have "fst (readPointer dangling_codec dangling_loader empty_world) = Inr dangling_pointer"
    using zeros unfolding readPointer_ok
    by (simp add: stripSha256Prefix_ok dangling_codec_def dangling_loader_def dangling_pointer_def)
  then have "refresh_class dangling_codec any_version dangling_loader [] empty_world = Some errorClassBodyFetch"
    by (simp add: refresh_class_def body_failure_def dangling_loader_def dangling_pointer_def pointerPath_def)
  ultimately show ?thesis
    using Refresh_failure_class [of dangling_codec dangling_loader any_version "[]" empty_world]
    by (simp add: errorClassBodyFetch_def dangling_loader_def)
qed

end
