(* ===== verification/Go_Files.thy ===== *)
theory Go_Files
  imports Go_Value "HOL-Library.Char_ord" "HOL-Library.List_Lexorder"
begin

text \<open>
  Go's \<^verbatim>\<open>path/filepath\<close> on Unix, and the file system as the tools see it: what \<^verbatim>\<open>os.Stat\<close>,
  \<^verbatim>\<open>os.ReadFile\<close>, \<^verbatim>\<open>filepath.EvalSymlinks\<close> and the working directory answer, and the tree
  \<^verbatim>\<open>filepath.WalkDir\<close> walks. The path-containment check of \<^verbatim>\<open>tools/pathsafe\<close> is built on it.
\<close>

section \<open>Paths\<close>

definition sep :: char where "sep = CHR ''/''"

definition IsAbs :: "string \<Rightarrow> bool" where
  "IsAbs p \<longleftrightarrow> HasPrefix p ''/''"

text \<open>One element of a path pushed on the cleaned elements so far (newest first).\<close>

definition clean_push :: "bool \<Rightarrow> string \<Rightarrow> string list \<Rightarrow> string list" where
  "clean_push rooted e out =
    (if e = [] \<or> e = ''.'' then out
     else if e = ''..'' then
       (case out of
          [] \<Rightarrow> if rooted then [] else [e]
        | o' # os \<Rightarrow> if o' = ''..'' then e # out else os)
     else e # out)"

definition clean_elems :: "string \<Rightarrow> string list" where
  "clean_elems p = rev (fold (clean_push (IsAbs p)) (strings_Split p sep) [])"

definition Clean :: "string \<Rightarrow> string" where
  "Clean p =
    (let body = strings_Join (clean_elems p) ''/''
     in if IsAbs p then ''/'' @ body else if body = [] then ''.'' else body)"

definition Join :: "string list \<Rightarrow> string" where
  "Join es = (case filter (\<lambda>e. e \<noteq> []) es of [] \<Rightarrow> [] | ps \<Rightarrow> Clean (strings_Join ps ''/''))"

definition Dir :: "string \<Rightarrow> string" where
  "Dir p = Clean (rev (dropWhile (\<lambda>c. c \<noteq> sep) (rev p)))"

definition Base :: "string \<Rightarrow> string" where
  "Base p =
    (if p = [] then ''.''
     else (let q = rev (takeWhile (\<lambda>c. c \<noteq> sep) (dropWhile (\<lambda>c. c = sep) (rev p)))
           in if q = [] then ''/'' else q))"

definition Ext :: "string \<Rightarrow> string" where
  "Ext p =
    (let r = takeWhile (\<lambda>c. c \<noteq> sep) (rev p)
     in if CHR ''.'' \<in> set r then CHR ''.'' # rev (takeWhile (\<lambda>c. c \<noteq> CHR ''.'') r) else [])"

definition Abs :: "string \<Rightarrow> string \<Rightarrow> string" where
  "Abs cwd p = (if IsAbs p then Clean p else Join [cwd, p])"

text \<open>\<^verbatim>\<open>filepath.Rel\<close>: the elements after the common prefix, with one \<^verbatim>\<open>..\<close> per element left of the base.\<close>

fun strip_common :: "string list \<Rightarrow> string list \<Rightarrow> string list \<times> string list" where
  "strip_common (b # bs) (t # ts) = (if b = t then strip_common bs ts else (b # bs, t # ts))"
| "strip_common bs ts = (bs, ts)"

definition Rel :: "string \<Rightarrow> string \<Rightarrow> string result" where
  "Rel basepath targpath =
    (if Clean targpath = Clean basepath then Inr ''.''
     else if IsAbs (Clean basepath) \<noteq> IsAbs (Clean targpath)
     then Inl (errors_New (''Rel: can't make '' @ targpath @ '' relative to '' @ basepath))
     else (case strip_common (clean_elems basepath) (clean_elems targpath) of
             (bs, ts) \<Rightarrow>
               (if bs \<noteq> [] \<and> hd bs = ''..''
                then Inl (errors_New (''Rel: can't make '' @ targpath @ '' relative to '' @ basepath))
                else Inr (strings_Join (map (\<lambda>_. ''..'') bs @ ts) ''/''))))"

section \<open>The file system\<close>

definition os_ErrNotExist :: goerr where
  "os_ErrNotExist = errors_New ''file does not exist''"

text \<open>A directory with the error of reading it, if any, and its entries in the order of \<^verbatim>\<open>os.ReadDir\<close>.\<close>

datatype node = File | Directory "goerr option" "(string \<times> node) list"

record os =
  os_Stat :: "string \<Rightarrow> bool result"
  os_ReadFile :: "string \<Rightarrow> string result"
  os_EvalSymlinks :: "string \<Rightarrow> string result"
  os_Getwd :: "string result"
  os_tree :: "string \<Rightarrow> node result"

definition filepath_Abs :: "os \<Rightarrow> string \<Rightarrow> string result" where
  "filepath_Abs fs p = (if IsAbs p then Inr (Clean p) else res_bind (os_Getwd fs) (\<lambda>cwd. Inr (Join [cwd, p])))"

text \<open>
  \<^verbatim>\<open>filepath.WalkDir\<close>: the callback gets the path, the base name, whether the entry is a directory and
  an error; its answer continues, skips the directory or stops the walk.
\<close>

datatype walk_act = Continue | SkipDir | Fail goerr

type_synonym 'a walk_fn = "string \<Rightarrow> string \<Rightarrow> bool \<Rightarrow> goerr option \<Rightarrow> 'a \<Rightarrow> walk_act \<times> 'a"

fun walkDir :: "'a walk_fn \<Rightarrow> string \<Rightarrow> string \<Rightarrow> node \<Rightarrow> 'a \<Rightarrow> walk_act \<times> 'a"
and walkEntries :: "'a walk_fn \<Rightarrow> string \<Rightarrow> (string \<times> node) list \<Rightarrow> 'a \<Rightarrow> walk_act \<times> 'a" where
  "walkDir fn path name File a = fn path name False None a"
| "walkDir fn path name (Directory err entries) a =
    (case fn path name True None a of
       (Fail e, a) \<Rightarrow> (Fail e, a)
     | (SkipDir, a) \<Rightarrow> (Continue, a)
     | (Continue, a) \<Rightarrow>
         (case err of
            None \<Rightarrow> walkEntries fn path entries a
          | Some _ \<Rightarrow>
              (case fn path name True err a of
                 (Fail e, a) \<Rightarrow> (Fail e, a)
               | (SkipDir, a) \<Rightarrow> (Continue, a)
               | (Continue, a) \<Rightarrow> walkEntries fn path entries a)))"
| "walkEntries fn path [] a = (Continue, a)"
| "walkEntries fn path ((name, n) # es) a =
    (case walkDir fn (Join [path, name]) name n a of
       (Fail e, a) \<Rightarrow> (Fail e, a)
     | (SkipDir, a) \<Rightarrow> (Continue, a)
     | (Continue, a) \<Rightarrow> walkEntries fn path es a)"

definition WalkDir :: "os \<Rightarrow> 'a walk_fn \<Rightarrow> string \<Rightarrow> 'a \<Rightarrow> goerr option \<times> 'a" where
  "WalkDir fs fn rootDir a =
    (case (case os_tree fs rootDir of
             Inl e \<Rightarrow> fn rootDir [] False (Some e) a
           | Inr n \<Rightarrow> walkDir fn rootDir (Base rootDir) n a) of
       (Fail e, a) \<Rightarrow> (Some e, a)
     | (_, a) \<Rightarrow> (None, a))"

text \<open>What every answer of the callback keeps of the accumulator, the walk keeps.\<close>

definition visit_keeps :: "('a \<Rightarrow> bool) \<Rightarrow> 'a walk_fn \<Rightarrow> bool" where
  "visit_keeps P fn \<longleftrightarrow> (\<forall>path name isDir err a. P a \<longrightarrow> P (snd (fn path name isDir err a)))"

lemma visit_keepsD: "visit_keeps P fn \<Longrightarrow> P a \<Longrightarrow> fn path name isDir err a = (r, a') \<Longrightarrow> P a'"
  unfolding visit_keeps_def by (metis snd_conv)

lemma walk_invariant:
  "visit_keeps P fn \<Longrightarrow> P a \<Longrightarrow> P (snd (walkDir fn path name n a))"
  "visit_keeps P fn \<Longrightarrow> P a \<Longrightarrow> P (snd (walkEntries fn path es a))"
proof (induction fn path name n a and fn path es a rule: walkDir_walkEntries.induct)
  case (1 fn path name a)
  then show ?case by (simp add: visit_keeps_def)
next
  case (2 fn path name err entries a)
  note keep = visit_keepsD [OF 2(3)]
  obtain r1 a1 where v1: "fn path name True None a = (r1, a1)" by force
  have P1: "P a1" by (rule keep [OF 2(4) v1])
  obtain r2 a2 where v2: "fn path name True err a1 = (r2, a2)" by force
  have P2: "P a2" by (rule keep [OF P1 v2])
  show ?case
  proof (cases "r1 = Continue")
    case True
    have 1: "err = None \<Longrightarrow> P (snd (walkEntries fn path entries a1))"
      using 2(1) [OF v1 [symmetric] True _ 2(3) P1] by simp
    have 2: "err \<noteq> None \<Longrightarrow> r2 = Continue \<Longrightarrow> P (snd (walkEntries fn path entries a2))"
      using 2(2) [OF v1 [symmetric] True _ v2 [symmetric]] 2(3) P2 by auto
    show ?thesis using 1 2 P2 v1 v2 True by (auto split: walk_act.split option.split)
  next
    case False
    then show ?thesis using P1 v1 by (auto split: walk_act.split)
  qed
next
  case (4 fn path name n es a)
  obtain r a' where v: "walkDir fn (Join [path, name]) name n a = (r, a')" by force
  then have "P a'" using 4 by simp
  then show ?case using 4(2) [OF v [symmetric]] 4(3) v by (auto split: walk_act.split)
qed simp

lemma WalkDir_invariant:
  assumes "visit_keeps P fn" "P a"
  shows "P (snd (WalkDir fs fn rootDir a))"
proof -
  have "P (snd (case os_tree fs rootDir of Inl e \<Rightarrow> fn rootDir [] False (Some e) a | Inr n \<Rightarrow> walkDir fn rootDir (Base rootDir) n a))"
    using assms walk_invariant(1) [OF assms] by (simp add: visit_keeps_def split: sum.split)
  then show ?thesis unfolding WalkDir_def by (auto split: prod.split walk_act.split)
qed

section \<open>Cleaned paths\<close>

lemma strings_Split_Join_elems:
  assumes "es \<noteq> []" "\<forall>e \<in> set es. sep \<notin> set e"
  shows "strings_Split (strings_Join es ''/'') sep = es"
  using strings_Split_Join [of es sep] assms by (simp add: sep_def)

lemma strings_Split_no_sep: "e \<in> set (strings_Split s c) \<Longrightarrow> c \<notin> set e"
proof (induction s arbitrary: e)
  case (Cons a s)
  obtain p ps where ps: "strings_Split s c = p # ps" by (metis list.exhaust strings_Split_nonempty)
  then have "c \<notin> set p" "\<And>q. q \<in> set ps \<Longrightarrow> c \<notin> set q" using Cons.IH by auto
  then show ?case using Cons.prems ps by (auto split: if_splits)
qed simp

text \<open>An element that survives cleaning: not empty, not \<^verbatim>\<open>.\<close>, and separator-free.\<close>

definition plain_elem :: "string \<Rightarrow> bool" where
  "plain_elem e \<longleftrightarrow> e \<noteq> [] \<and> e \<noteq> ''.'' \<and> sep \<notin> set e"

lemma clean_push_plain:
  assumes "\<forall>o' \<in> set out. plain_elem o'" "sep \<notin> set e"
  shows "\<forall>o' \<in> set (clean_push rooted e out). plain_elem o'"
proof (cases "e = [] \<or> e = ''.''")
  case False
  then have "plain_elem e" using assms(2) by (simp add: plain_elem_def)
  then show ?thesis using assms(1) by (cases out) (auto simp: clean_push_def)
qed (use assms in \<open>simp add: clean_push_def\<close>)

lemma clean_fold_plain:
  "\<forall>e \<in> set es. sep \<notin> set e \<Longrightarrow> \<forall>o' \<in> set out. plain_elem o' \<Longrightarrow>
    \<forall>o' \<in> set (fold (clean_push rooted) es out). plain_elem o'"
proof (induction es arbitrary: out)
  case (Cons e es)
  then show ?case using clean_push_plain [of out e rooted] by simp
qed simp

lemma clean_elems_plain: "e \<in> set (clean_elems p) \<Longrightarrow> plain_elem e"
  using clean_fold_plain [of "strings_Split p sep" "[]" "IsAbs p"] strings_Split_no_sep
  by (auto simp: clean_elems_def)

lemma clean_push_rooted: "''..'' \<notin> set out \<Longrightarrow> ''..'' \<notin> set (clean_push True e out)"
  by (cases out) (auto simp: clean_push_def)

lemma clean_elems_rooted:
  assumes "IsAbs p"
  shows "''..'' \<notin> set (clean_elems p)"
proof -
  have "''..'' \<notin> set (fold (clean_push True) es out)" if "''..'' \<notin> set out" for es out
    using that by (induction es arbitrary: out) (simp_all add: clean_push_rooted)
  then show ?thesis using assms by (simp add: clean_elems_def)
qed

lemma fold_clean_push_plain:
  "\<forall>e \<in> set es. plain_elem e \<and> e \<noteq> ''..'' \<Longrightarrow> fold (clean_push r) es out = rev es @ out"
  by (induction es arbitrary: out) (auto simp: clean_push_def plain_elem_def)

lemma IsAbs_Clean [simp]: "IsAbs (Clean p) \<longleftrightarrow> IsAbs p"
proof (cases "IsAbs p")
  case False
  have "\<not> IsAbs (strings_Join es ''/'')" if "\<forall>e \<in> set es. plain_elem e" for es
    using that
    by (cases es; cases "tl es"; cases "hd es") (auto simp: IsAbs_def HasPrefix_def plain_elem_def sep_def)
  then show ?thesis using False clean_elems_plain by (auto simp: Clean_def Let_def IsAbs_def HasPrefix_def)
qed (simp add: Clean_def Let_def IsAbs_def HasPrefix_def)

text \<open>Cleaning an absolute path keeps its elements.\<close>

lemma clean_elems_Clean:
  assumes "IsAbs p"
  shows "clean_elems (Clean p) = clean_elems p"
proof -
  let ?es = "clean_elems p"
  have plain: "\<forall>e \<in> set ?es. plain_elem e \<and> e \<noteq> ''..''"
    using clean_elems_plain clean_elems_rooted [OF assms] by blast
  have c: "Clean p = sep # strings_Join ?es ''/''" using assms by (simp add: Clean_def Let_def sep_def)
  have "fold (clean_push True) (strings_Split (Clean p) sep) [] = rev ?es"
  proof (cases "?es = []")
    case True
    then show ?thesis by (simp add: c clean_push_def)
  next
    case False
    have "strings_Split (strings_Join ?es ''/'') sep = ?es"
      using strings_Split_Join_elems [OF False] plain by (auto simp: plain_elem_def)
    then have "fold (clean_push True) (strings_Split (Clean p) sep) [] = fold (clean_push True) ?es []"
      by (simp add: c clean_push_def)
    then show ?thesis using fold_clean_push_plain [OF plain] by simp
  qed
  then show ?thesis using assms by (simp add: clean_elems_def)
qed

lemma strip_common_prefix:
  "strip_common bs ts = (bs', ts') \<Longrightarrow> \<exists>cs. bs = cs @ bs' \<and> ts = cs @ ts'"
proof (induction bs ts rule: strip_common.induct)
  case (1 b bs t ts)
  then show ?case by (cases "b = t") (auto intro: exI [of _ "b # _"])
qed auto

text \<open>\<open>inside rootDir p\<close>: the elements of \<open>p\<close> continue those of \<open>rootDir\<close>.\<close>

definition inside :: "string \<Rightarrow> string \<Rightarrow> bool" where
  "inside rootDir p \<longleftrightarrow> prefix (clean_elems rootDir) (clean_elems p)"

lemma strings_Join_dots:
  assumes "bs \<noteq> []"
  shows "strings_Join (map (\<lambda>_. ''..'') bs @ ts) ''/'' = ''..'' \<or>
         HasPrefix (strings_Join (map (\<lambda>_. ''..'') bs @ ts) ''/'') ''../''"
  using assms by (cases bs; cases "tl bs"; cases ts) (auto simp: HasPrefix_def)

lemma strings_Join_plain_not_dots:
  assumes "\<forall>t \<in> set ts. plain_elem t \<and> t \<noteq> ''..''"
  shows "strings_Join ts ''/'' \<noteq> ''..'' \<and> \<not> HasPrefix (strings_Join ts ''/'') ''../''"
proof (cases "ts = []")
  case False
  then have sp: "strings_Split (strings_Join ts ''/'') sep = ts"
    using strings_Split_Join_elems assms by (auto simp: plain_elem_def)
  have "strings_Split ''..'' sep = [''..'']" by (simp add: sep_def)
  moreover have "strings_Split (''..'' @ sep # v) sep = ''..'' # strings_Split v sep" for v
    by (rule strings_Split_append) (simp add: sep_def)
  moreover have "HasPrefix s ''../'' \<Longrightarrow> \<exists>v. s = ''..'' @ sep # v" for s
    by (auto simp: HasPrefix_iff_prefix prefix_def sep_def)
  ultimately show ?thesis using sp assms by (metis list.set_intros(1))
qed (simp add: HasPrefix_def)

end
