(* ===== verification/Pathsafe.thy ===== *)
theory Pathsafe
  imports Go_Files
begin

text \<open>
  \<^verbatim>\<open>tools/pathsafe\<close>: validation of a \<^verbatim>\<open><field>_ref\<close> value before the file it names is read. The
  property is that an accepted reference names a file inside the canonical rules root, for every
  answer of the operating system.
\<close>

definition ErrUpwardTraversal :: goerr where
  "ErrUpwardTraversal = errors_New ''pathsafe: reference contains upward-traversal segment''"
definition ErrAbsolutePath :: goerr where
  "ErrAbsolutePath = errors_New ''pathsafe: reference must be a relative path''"
definition ErrOutsideRulesRoot :: goerr where
  "ErrOutsideRulesRoot = errors_New ''pathsafe: reference resolves outside the rules workspace root''"
definition ErrMissingFile :: goerr where
  "ErrMissingFile = errors_New ''pathsafe: referenced file does not exist''"

definition Resolve :: "os \<Rightarrow> string \<Rightarrow> string \<Rightarrow> string \<Rightarrow> string result" where
  "Resolve fs rulesRoot rulePath ref =
    (if IsAbs ref then Inl (Errorf ''%w: %q'' [W ErrAbsolutePath, S ref])
     else if list_ex (\<lambda>seg. seg = ''..'') (strings_Split ref sep)
     then Inl (Errorf ''%w: %q'' [W ErrUpwardTraversal, S ref])
     else case filepath_Abs fs (Join [Dir rulePath, ref]) of
       Inl e \<Rightarrow> Inl (Errorf ''pathsafe: resolve %q: %w'' [S ref, W e])
     | Inr absPath \<Rightarrow>
         (case os_EvalSymlinks fs absPath of
            Inl e \<Rightarrow>
              (if errors_Is e os_ErrNotExist then Inl (Errorf ''%w: %q'' [W ErrMissingFile, S ref])
               else Inl (Errorf ''pathsafe: canonicalize %q: %w'' [S ref, W e]))
          | Inr canonical \<Rightarrow>
              (case filepath_Abs fs rulesRoot of
                 Inl e \<Rightarrow> Inl (Errorf ''pathsafe: absolutize rules root %q: %w'' [S rulesRoot, W e])
               | Inr absRoot \<Rightarrow>
                   (case os_EvalSymlinks fs absRoot of
                      Inl e \<Rightarrow> Inl (Errorf ''pathsafe: canonicalize rules root %q: %w'' [S rulesRoot, W e])
                    | Inr rootCanonical \<Rightarrow>
                        (case Rel rootCanonical canonical of
                           Inl e \<Rightarrow> Inl (Errorf ''pathsafe: relative path %q to %q: %w'' [S canonical, S rootCanonical, W e])
                         | Inr rel \<Rightarrow>
                             (if rel = ''..'' \<or> HasPrefix rel (''..'' @ [sep])
                              then Inl (Errorf ''%w: %q resolved to %q (rules root %q)''
                                          [W ErrOutsideRulesRoot, S ref, S canonical, S rootCanonical])
                              else Inr canonical))))))"

section \<open>Containment\<close>

lemma strip_common_self: "strip_common xs (xs @ vs) = ([], vs)"
  by (induction xs) auto

lemma Rel_absolute:
  assumes "IsAbs b" "IsAbs t"
  shows "\<exists>rel. Rel b t = Inr rel \<and> (inside b t \<longleftrightarrow> \<not> (rel = ''..'' \<or> HasPrefix rel ''../''))"
proof (cases "Clean t = Clean b")
  case True
  then have "clean_elems t = clean_elems b" using assms clean_elems_Clean by metis
  then show ?thesis using True by (simp add: Rel_def inside_def HasPrefix_def)
next
  case False
  obtain bs ts where st: "strip_common (clean_elems b) (clean_elems t) = (bs, ts)" by force
  then obtain cs where cs: "clean_elems b = cs @ bs" "clean_elems t = cs @ ts" using strip_common_prefix by blast
  have plain: "\<forall>e \<in> set ts. plain_elem e \<and> e \<noteq> ''..''"
    using cs clean_elems_plain [of _ t] clean_elems_rooted [OF assms(2)] by auto
  have "bs \<noteq> [] \<Longrightarrow> hd bs \<noteq> ''..''" using cs clean_elems_rooted [OF assms(1)] by (cases bs) auto
  then have rel: "Rel b t = Inr (strings_Join (map (\<lambda>_. ''..'') bs @ ts) ''/'')"
    using False assms st by (auto simp: Rel_def)
  show ?thesis
  proof (cases "bs = []")
    case True
    then have "inside b t" using cs by (simp add: inside_def)
    then show ?thesis using rel strings_Join_plain_not_dots [OF plain] True by simp
  next
    case bs: False
    then have "\<not> inside b t" using st by (auto simp: inside_def prefix_def strip_common_self)
    then show ?thesis using rel strings_Join_dots [OF bs] by auto
  qed
qed

text \<open>What the operating system promises: canonical forms and the working directory are absolute.\<close>

definition absolute_os :: "os \<Rightarrow> bool" where
  "absolute_os fs \<longleftrightarrow>
    (\<forall>p q. IsAbs p \<longrightarrow> os_EvalSymlinks fs p = Inr q \<longrightarrow> IsAbs q) \<and> (\<forall>d. os_Getwd fs = Inr d \<longrightarrow> IsAbs d)"

lemma IsAbs_append: "IsAbs (p @ q) \<longleftrightarrow> IsAbs p \<or> p = [] \<and> IsAbs q"
  by (cases p) (auto simp: IsAbs_def HasPrefix_def)

lemma filepath_Abs_absolute:
  assumes "absolute_os fs" "filepath_Abs fs p = Inr q"
  shows "IsAbs q"
proof (cases "IsAbs p")
  case True
  then show ?thesis using assms(2) by (auto simp: filepath_Abs_def)
next
  case False
  then obtain d where d: "os_Getwd fs = Inr d" "q = Join [d, p]"
    using assms(2) by (auto simp: filepath_Abs_def res_bind_Inr_iff)
  then have "IsAbs d" using assms(1) by (simp add: absolute_os_def)
  moreover from this have "d \<noteq> []" by (auto simp: IsAbs_def HasPrefix_def)
  ultimately show ?thesis using d by (cases p) (auto simp: Join_def IsAbs_append)
qed

lemma Split_sep_dots: "list_ex (\<lambda>seg. seg = d) ss \<longleftrightarrow> d \<in> set ss"
  by (auto simp: list_ex_iff)

text \<open>
  C21. A reference is accepted exactly when it is relative, has no \<^verbatim>\<open>..\<close> element, and its canonical
  form lies inside the canonical rules root; the canonical form is what is returned. So whatever
  symbolic links exist, no accepted reference names a file outside the root, and none inside it is
  refused.
\<close>

theorem Resolve_contained:
  assumes "absolute_os fs"
  shows "Resolve fs rulesRoot rulePath ref = Inr p \<longleftrightarrow>
    \<not> IsAbs ref \<and> ''..'' \<notin> set (strings_Split ref sep) \<and>
    (\<exists>a r rc. filepath_Abs fs (Join [Dir rulePath, ref]) = Inr a \<and> os_EvalSymlinks fs a = Inr p \<and>
       filepath_Abs fs rulesRoot = Inr r \<and> os_EvalSymlinks fs r = Inr rc \<and> inside rc p)"
proof -
  have key: "(case Rel rc q of Inl e \<Rightarrow> Inl (f e)
       | Inr rel \<Rightarrow> if rel = ''..'' \<or> HasPrefix rel (''..'' @ [sep]) then Inl (g rel) else Inr q) = Inr p
     \<longleftrightarrow> q = p \<and> inside rc p"
    if "IsAbs rc" "IsAbs q" for rc q and f :: "goerr \<Rightarrow> goerr" and g
    using Rel_absolute [OF that] by (auto simp: sep_def)
  have abs: "IsAbs q" if "filepath_Abs fs x = Inr a" "os_EvalSymlinks fs a = Inr q" for x a q
    using assms that filepath_Abs_absolute [OF assms that(1)] by (auto simp: absolute_os_def)
  show ?thesis
  proof (cases "IsAbs ref \<or> ''..'' \<in> set (strings_Split ref sep)")
    case False
    then have r: "\<not> IsAbs ref" "''..'' \<notin> set (strings_Split ref sep)" by auto
    show ?thesis
    proof (cases "\<exists>a q r rc. filepath_Abs fs (Join [Dir rulePath, ref]) = Inr a \<and> os_EvalSymlinks fs a = Inr q \<and>
        filepath_Abs fs rulesRoot = Inr r \<and> os_EvalSymlinks fs r = Inr rc")
      case True
      then obtain a q b rc where *: "filepath_Abs fs (Join [Dir rulePath, ref]) = Inr a" "os_EvalSymlinks fs a = Inr q"
        "filepath_Abs fs rulesRoot = Inr b" "os_EvalSymlinks fs b = Inr rc" by blast
      show ?thesis
        using * r key [OF abs [OF *(3,4)] abs [OF *(1,2)]] by (simp add: Resolve_def Split_sep_dots)
    next
      case n: False
      have "\<nexists>p. Resolve fs rulesRoot rulePath ref = Inr p"
        using n r by (auto simp: Resolve_def Split_sep_dots split: sum.splits if_splits)
      then show ?thesis using n by blast
    qed
  qed (auto simp: Resolve_def Split_sep_dots)
qed

text \<open>A tree in which the root and one file under it exist.\<close>

lemmas path_eval = inside_def Clean_def clean_elems_def clean_push_def IsAbs_def HasPrefix_def sep_def Join_def Dir_def
  filepath_Abs_def Let_def

definition demo_os :: os where
  "demo_os = \<lparr>os_Stat = (\<lambda>p. Inr True), os_ReadFile = (\<lambda>p. Inr ''{}''),
     os_EvalSymlinks = (\<lambda>p. Inr (Clean p)), os_Getwd = Inr ''/w'', os_tree = (\<lambda>p. Inr File)\<rparr>"

lemma demo_os_absolute: "absolute_os demo_os"
  by (simp add: absolute_os_def demo_os_def) (simp add: IsAbs_def HasPrefix_def)

theorem Resolve_contained_witness:
  "Resolve demo_os ''r'' ''r/a.yaml'' ''s/t'' = Inr ''/w/r/s/t''"
proof -
  have "inside ''/w/r'' ''/w/r/s/t''" by (simp add: path_eval)
  moreover have "filepath_Abs demo_os (Join [Dir ''r/a.yaml'', ''s/t'']) = Inr ''/w/r/s/t''"
    by (simp add: path_eval demo_os_def)
  moreover have "filepath_Abs demo_os ''r'' = Inr ''/w/r''" by (simp add: path_eval demo_os_def)
  moreover have "os_EvalSymlinks demo_os ''/w/r'' = Inr ''/w/r''" by (simp add: path_eval demo_os_def)
  moreover have "os_EvalSymlinks demo_os ''/w/r/s/t'' = Inr ''/w/r/s/t''" by (simp add: path_eval demo_os_def)
  moreover have "\<not> IsAbs ''s/t''" "''..'' \<notin> set (strings_Split ''s/t'' sep)" by (simp_all add: path_eval)
  ultimately show ?thesis unfolding Resolve_contained [OF demo_os_absolute] by blast
qed

end
