(* ===== verification/Publisher.thy ===== *)
theory Publisher
  imports Loader Pathsafe "HOL-Library.AList"
begin

text \<open>
  The manifest publisher (\<^verbatim>\<open>tools/manifest/publisher.go\<close>, \<^verbatim>\<open>verify.go\<close>, \<^verbatim>\<open>external_refs.go\<close>) and the rollback
  (\<^verbatim>\<open>rollback.go\<close>).

  Several publishers and rollbacks may run against one bucket. Every store call of a process takes
  place at a tick; \<open>pe_env\<close> is what the other processes did to the bucket since the previous one. The
  properties hold for every such interference that keeps the bucket's invariant, and every operation
  here is shown to be such an interference for the others.
\<close>

section \<open>Surroundings of a process\<close>

record 's process_env =
  pe_env :: "nat \<Rightarrow> 's \<Rightarrow> 's"
  pe_clock :: "nat \<Rightarrow> time"

record 's Store =
  st_WriteIfNotExists :: "string \<Rightarrow> string \<Rightarrow> 's \<Rightarrow> goerr option \<times> 's"
  st_ReadObject :: "string \<Rightarrow> 's \<Rightarrow> string result"
  st_ReadPointerGeneration :: "string \<Rightarrow> 's \<Rightarrow> int result"
  st_CASWritePointer :: "string \<Rightarrow> string \<Rightarrow> int \<Rightarrow> 's \<Rightarrow> int result \<times> 's"

definition NewGCSStore :: "'s gcs \<Rightarrow> 's Store" where
  "NewGCSStore g = \<lparr>st_WriteIfNotExists = WriteIfNotExists g, st_ReadObject = ReadObject g,
     st_ReadPointerGeneration = ReadPointerGeneration g, st_CASWritePointer = CASWritePointer g\<rparr>"

type_synonym 's proc = "'s \<times> nat"

text \<open>A call of the store: the others' steps, then the call.\<close>

definition arrive :: "'s process_env \<Rightarrow> 's proc \<Rightarrow> 's" where
  "arrive pe = (\<lambda>(s, t). pe_env pe t s)"

definition call_write :: "'s process_env \<Rightarrow> 's Store \<Rightarrow> string \<Rightarrow> string \<Rightarrow> 's proc \<Rightarrow> goerr option \<times> 's proc" where
  "call_write pe st key body u =
    (case st_WriteIfNotExists st key body (arrive pe u) of (r, s) \<Rightarrow> (r, (s, snd u + 1)))"

definition call_cas :: "'s process_env \<Rightarrow> 's Store \<Rightarrow> string \<Rightarrow> string \<Rightarrow> int \<Rightarrow> 's proc \<Rightarrow> int result \<times> 's proc" where
  "call_cas pe st key body gen u =
    (case st_CASWritePointer st key body gen (arrive pe u) of (r, s) \<Rightarrow> (r, (s, snd u + 1)))"

definition call_read :: "'s process_env \<Rightarrow> 's Store \<Rightarrow> string \<Rightarrow> 's proc \<Rightarrow> string result \<times> 's proc" where
  "call_read pe st key u = (st_ReadObject st key (arrive pe u), (arrive pe u, snd u + 1))"

definition call_gen :: "'s process_env \<Rightarrow> 's Store \<Rightarrow> string \<Rightarrow> 's proc \<Rightarrow> int result \<times> 's proc" where
  "call_gen pe st key u = (st_ReadPointerGeneration st key (arrive pe u), (arrive pe u, snd u + 1))"

definition call_now :: "'s process_env \<Rightarrow> 's proc \<Rightarrow> time \<times> 's proc" where
  "call_now pe u = (pe_clock pe (snd u), (arrive pe u, snd u + 1))"

text \<open>
  The YAML and JSON libraries: the \<^verbatim>\<open>entity\<close> and \<^verbatim>\<open>version\<close> of a rule, the kinds of a catalog with their
  eligible fields, and generic documents. \<open>fmt_v\<close> prints a decoded value.
\<close>

record decoders =
  yaml_header :: "string \<Rightarrow> (string \<times> int) result"
  yaml_catalog :: "string \<Rightarrow> (string \<times> string list) list result"
  yaml_map :: "string \<Rightarrow> go_map result"
  yaml_any :: "string \<Rightarrow> any result"
  json_any :: "string \<Rightarrow> any result"
  yaml_marshal :: "go_map \<Rightarrow> string result"
  fmt_v :: "any \<Rightarrow> string"

section \<open>External references\<close>

text \<open>
  A kind's eligible fields, in the order the map iteration happens to visit them; \<^verbatim>\<open>refs[k]\<close> keeps the
  last declaration of a kind.
\<close>

type_synonym catalogKindRefs = "(string \<times> string list) list"

definition loadCatalogKindRefs :: "os \<Rightarrow> decoders \<Rightarrow> string \<Rightarrow> catalogKindRefs result" where
  "loadCatalogKindRefs fs d catalogPath =
    (case os_ReadFile fs catalogPath of
       Inl e \<Rightarrow> (if errors_Is e os_ErrNotExist then Inr []
                 else Inl (Errorf ''read catalog %s: %w'' [S catalogPath, W e]))
     | Inr raw \<Rightarrow>
         (case yaml_catalog d raw of
            Inl e \<Rightarrow> Inl (Errorf ''parse catalog yaml %s: %w'' [S catalogPath, W e])
          | Inr kinds \<Rightarrow>
              Inr (fold (\<lambda>(name, fieldNames) refs. if fieldNames = [] then refs else AList.update name (remdups fieldNames) refs)
                     kinds [])))"

definition parseExternalArtifact :: "decoders \<Rightarrow> string \<Rightarrow> string \<Rightarrow> any result" where
  "parseExternalArtifact d path raw =
    (let ext = map to_lower (Ext path)
     in if ext = ''.json'' then (case json_any d raw of Inl e \<Rightarrow> Inl (Errorf ''json: %w'' [W e]) | Inr v \<Rightarrow> Inr v)
        else if ext = ''.yaml'' \<or> ext = ''.yml''
        then (case yaml_any d raw of Inl e \<Rightarrow> Inl (Errorf ''yaml: %w'' [W e]) | Inr v \<Rightarrow> Inr v)
        else Inl (Errorf ''unsupported extension %q (want .json, .yaml, or .yml)'' [S ext]))"

text \<open>The second loop of \<^verbatim>\<open>resolveCheckParams\<close>: each eligible field in turn.\<close>

fun resolve_refs ::
  "os \<Rightarrow> decoders \<Rightarrow> string \<Rightarrow> string \<Rightarrow> string \<Rightarrow> string list \<Rightarrow> go_map \<Rightarrow> bool \<Rightarrow> (go_map \<times> bool) result" where
  "resolve_refs fs d rulePath rulesRoot checkIDStr [] params changed = Inr (params, changed)"
| "resolve_refs fs d rulePath rulesRoot checkIDStr (fieldName # fieldNames) params changed =
    (let refKey = fieldName @ ''_ref''
     in case map_of params refKey of
       None \<Rightarrow> resolve_refs fs d rulePath rulesRoot checkIDStr fieldNames params changed
     | Some refRaw \<Rightarrow>
         (if map_of params fieldName \<noteq> None
          then Inl (Errorf ''publisher: check %q has both %q and %q present; exactly one is permitted per ADR-0044 cross-check #12: %w''
                      [S checkIDStr, S fieldName, S refKey, W ErrVerificationFailed])
          else case refRaw of
            AStr ref \<Rightarrow>
              (case Resolve fs rulesRoot rulePath ref of
                 Inl e \<Rightarrow> Inl (Errorf ''publisher: check %q %s %q: %w: %w''
                                [S checkIDStr, S refKey, S ref, W e, W ErrVerificationFailed])
               | Inr resolved \<Rightarrow>
                   (case os_ReadFile fs resolved of
                      Inl e \<Rightarrow> Inl (Errorf ''publisher: check %q %s %q: read %s: %w: %w''
                                     [S checkIDStr, S refKey, S ref, S resolved, W e, W ErrVerificationFailed])
                    | Inr raw \<Rightarrow>
                        (case parseExternalArtifact d resolved raw of
                           Inl e \<Rightarrow> Inl (Errorf ''publisher: check %q %s %q: parse %s: %w: %w''
                                          [S checkIDStr, S refKey, S ref, S resolved, W e, W ErrVerificationFailed])
                         | Inr parsed \<Rightarrow>
                             resolve_refs fs d rulePath rulesRoot checkIDStr fieldNames
                               (AList.delete refKey (AList.update fieldName parsed params)) True)))
          | _ \<Rightarrow> Inl (Errorf ''publisher: check %q %q has non-string value (%T): %w''
                       [S checkIDStr, S refKey, S (fmt_T refRaw), W ErrVerificationFailed])))"

definition resolveCheckParams ::
  "os \<Rightarrow> decoders \<Rightarrow> go_map \<Rightarrow> string list \<Rightarrow> string \<Rightarrow> string \<Rightarrow> any \<Rightarrow> (go_map \<times> bool) result" where
  "resolveCheckParams fs d params eligible rulePath rulesRoot checkID =
    (let checkIDStr = fmt_v d checkID;
         refKeys = filter (\<lambda>k. HasSuffix k ''_ref'') (map fst params)
     in case find (\<lambda>refKey. TrimSuffix refKey ''_ref'' \<notin> set eligible) refKeys of
          Some refKey \<Rightarrow>
            Inl (Errorf ''publisher: check %q uses %q but %q is not declared external-eligible in the catalog: %w''
                   [S checkIDStr, S refKey, S (TrimSuffix refKey ''_ref''), W ErrVerificationFailed])
        | None \<Rightarrow> resolve_refs fs d rulePath rulesRoot checkIDStr eligible params False)"

definition any_field :: "go_map \<Rightarrow> string \<Rightarrow> any" where
  "any_field m k = (case map_of m k of None \<Rightarrow> ANil | Some v \<Rightarrow> v)"

definition as_string :: "any \<Rightarrow> string" where
  "as_string v = (case v of AStr s \<Rightarrow> s | _ \<Rightarrow> [])"

text \<open>The loop over a rule's checks: the checks with their parameters inlined, and whether any changed.\<close>

fun inline_checks ::
  "os \<Rightarrow> decoders \<Rightarrow> string \<Rightarrow> string \<Rightarrow> catalogKindRefs \<Rightarrow> any list \<Rightarrow> (any list \<times> bool) result" where
  "inline_checks fs d rulePath rulesRoot refs [] = Inr ([], False)"
| "inline_checks fs d rulePath rulesRoot refs (ckRaw # cks) =
    (case ckRaw of
       AMap ck \<Rightarrow>
         (case (map_of refs (as_string (any_field ck ''kind'')), any_field ck ''params'') of
            (Some eligible, AMap params) \<Rightarrow>
              (if eligible = []
               then map_sum id (\<lambda>(rest, m). (ckRaw # rest, m)) (inline_checks fs d rulePath rulesRoot refs cks)
               else case resolveCheckParams fs d params eligible rulePath rulesRoot (any_field ck ''check_id'') of
                 Inl e \<Rightarrow> Inl e
               | Inr (newParams, changed) \<Rightarrow>
                   map_sum id
                     (\<lambda>(rest, m). ((if changed then AMap (AList.update ''params'' (AMap newParams) ck) else ckRaw) # rest, changed \<or> m))
                     (inline_checks fs d rulePath rulesRoot refs cks))
          | _ \<Rightarrow> map_sum id (\<lambda>(rest, m). (ckRaw # rest, m)) (inline_checks fs d rulePath rulesRoot refs cks))
     | _ \<Rightarrow> map_sum id (\<lambda>(rest, m). (ckRaw # rest, m)) (inline_checks fs d rulePath rulesRoot refs cks))"

definition inlineExternalRefs ::
  "os \<Rightarrow> decoders \<Rightarrow> string \<Rightarrow> string \<Rightarrow> string \<Rightarrow> catalogKindRefs \<Rightarrow> string result" where
  "inlineExternalRefs fs d body rulePath rulesRoot refs =
    (if refs = [] then Inr body
     else case yaml_map d body of
       Inl e \<Rightarrow> Inl (Errorf ''inlineExternalRefs: parse %s: %w'' [S rulePath, W e])
     | Inr doc \<Rightarrow>
         (case any_field doc ''checks'' of
            AList checksRaw \<Rightarrow>
              (case inline_checks fs d rulePath rulesRoot refs checksRaw of
                 Inl e \<Rightarrow> Inl e
               | Inr (checks, mutated) \<Rightarrow>
                   (if \<not> mutated then Inr body
                    else case yaml_marshal d (AList.update ''checks'' (AList checks) doc) of
                      Inl e \<Rightarrow> Inl (Errorf ''inlineExternalRefs: re-marshal %s: %w'' [S rulePath, W e])
                    | Inr out \<Rightarrow> Inr out))
          | _ \<Rightarrow> Inr body))"

section \<open>Rule discovery\<close>

record rule =
  ru_path :: string
  ru_entity :: string
  ru_version :: int
  ru_bytes :: string
  ru_hashHex :: string

definition sha256Hex :: "string \<Rightarrow> string" where
  "sha256Hex b = sha256_hex b"

text \<open>The callback \<^verbatim>\<open>collectRules\<close> hands to \<^verbatim>\<open>filepath.WalkDir\<close>.\<close>

definition collect_visit :: "os \<Rightarrow> decoders \<Rightarrow> string \<Rightarrow> catalogKindRefs \<Rightarrow> rule list walk_fn" where
  "collect_visit fs d absRulesDir refs path name isDir err out =
    (case err of
       Some e \<Rightarrow> (Fail e, out)
     | None \<Rightarrow>
         if isDir then (if Base path = ''_schema'' then (SkipDir, out) else (Continue, out))
         else if \<not> HasSuffix name ''.yaml'' \<and> \<not> HasSuffix name ''.yml'' then (Continue, out)
         else if HasPrefix name ''_'' then (Continue, out)
         else case os_ReadFile fs path of
           Inl e \<Rightarrow> (Fail (Errorf ''read %s: %w'' [S path, W e]), out)
         | Inr body \<Rightarrow>
             (case yaml_header d body of
                Inl e \<Rightarrow> (Fail (Errorf ''parse %s: %w'' [S path, W e]), out)
              | Inr (entity, version) \<Rightarrow>
                  (if entity = []
                   then (Fail (Errorf ''%s: rule has empty `entity` field: %w'' [S path, W ErrVerificationFailed]), out)
                   else if version = 0
                   then (Fail (Errorf ''%s: rule has missing or zero `version` field: %w'' [S path, W ErrVerificationFailed]), out)
                   else case inlineExternalRefs fs d body path absRulesDir refs of
                     Inl e \<Rightarrow> (Fail e, out)
                   | Inr inlined \<Rightarrow>
                       (Continue, out @ [\<lparr>ru_path = path, ru_entity = entity, ru_version = version,
                                          ru_bytes = inlined, ru_hashHex = sha256Hex inlined\<rparr>]))))"

definition collectRules :: "os \<Rightarrow> decoders \<Rightarrow> string \<Rightarrow> catalogKindRefs \<Rightarrow> rule list result" where
  "collectRules fs d rulesDir refs =
    (case os_Stat fs rulesDir of
       Inl e \<Rightarrow> Inl (Errorf ''stat rules dir %s: %w'' [S rulesDir, W e])
     | Inr _ \<Rightarrow>
         (case filepath_Abs fs rulesDir of
            Inl e \<Rightarrow> Inl (Errorf ''absolutize rules dir %s: %w'' [S rulesDir, W e])
          | Inr absRulesDir \<Rightarrow>
              (case WalkDir fs (collect_visit fs d absRulesDir refs) rulesDir [] of
                 (Some e, _) \<Rightarrow> Inl e
               | (None, out) \<Rightarrow> Inr out)))"

text \<open>The messages of the rules whose entity was already declared, with the path that declared it.\<close>

fun duplicate_entities :: "(string \<times> string) list \<Rightarrow> rule list \<Rightarrow> string list" where
  "duplicate_entities seen [] = []"
| "duplicate_entities seen (r # rs) =
    (case map_of seen (ru_entity r) of
       Some prior \<Rightarrow> (ru_path r @ '' (also in '' @ prior @ '')'') # duplicate_entities seen rs
     | None \<Rightarrow> duplicate_entities ((ru_entity r, ru_path r) # seen) rs)"

definition rejectDuplicateEntities :: "rule list \<Rightarrow> goerr option" where
  "rejectDuplicateEntities rules =
    (let dupes = duplicate_entities [] rules
     in if dupes = [] then None
        else Some (Errorf ''duplicate entity declarations: %v: %w'' [S (show_strings (sort dupes)), W ErrVerificationFailed]))"

definition observedSchemaVersions :: "rule list \<Rightarrow> int list" where
  "observedSchemaVersions rules = sort (remdups (map ru_version rules))"

definition verifySupportedSchemaVersions :: "int list \<Rightarrow> int list \<Rightarrow> goerr option" where
  "verifySupportedSchemaVersions observed supported =
    (let unsupported = filter (\<lambda>v. v \<notin> set supported) observed
     in if unsupported = [] then None
        else Some (Errorf ''rule declares unsupported schema version(s) %v (engine supports %v): %w''
                     [S (show_ints (sort unsupported)), S (show_ints supported), W ErrVerificationFailed]))"

text \<open>The loop of \<^verbatim>\<open>verifySchemaMirrorPresent\<close>: the missing mirror files, or the error that stops it.\<close>

fun missing_mirrors :: "os \<Rightarrow> string \<Rightarrow> int list \<Rightarrow> string list result" where
  "missing_mirrors fs schemaMirrorDir [] = Inr []"
| "missing_mirrors fs schemaMirrorDir (v # vs) =
    (let path = Join [schemaMirrorDir, ''v'' @ show_int v @ ''.schema.json'']
     in case os_Stat fs path of
          Inr _ \<Rightarrow> missing_mirrors fs schemaMirrorDir vs
        | Inl e \<Rightarrow>
            (if errors_Is e os_ErrNotExist then map_sum id (\<lambda>ps. path # ps) (missing_mirrors fs schemaMirrorDir vs)
             else Inl (Errorf ''stat schema mirror %s: %w'' [S path, W e])))"

definition verifySchemaMirrorPresent :: "os \<Rightarrow> int list \<Rightarrow> string \<Rightarrow> goerr option" where
  "verifySchemaMirrorPresent fs observed schemaMirrorDir =
    (case missing_mirrors fs schemaMirrorDir observed of
       Inl e \<Rightarrow> Some e
     | Inr missing \<Rightarrow>
         (if missing = [] then None
          else Some (Errorf ''schema mirror file(s) missing: %v: %w'' [S (show_strings missing), W ErrVerificationFailed])))"

section \<open>Publication\<close>

record 's Publisher =
  pu_store :: "'s Store"
  pu_rulesetVersion :: string
  pu_engineCompatibility :: string
  pu_linterUsed :: string
  pu_schemaMirrorDir :: string
  pu_supportedSchemaVersions :: "int list"

record 's PublisherConfig =
  pc_Store :: "'s Store option"
  pc_RulesetVersion :: string
  pc_EngineCompatibility :: string
  pc_LinterUsed :: string
  pc_SchemaMirrorDir :: string
  pc_SupportedSchemaVersions :: "int list"

record Options =
  op_RulesDir :: string
  op_DryRun :: bool

record Result =
  rs_ManifestHash :: string
  rs_RulesetVersion :: string
  rs_RulesPublished :: nat
  rs_PointerGen :: int

definition New :: "os \<Rightarrow> 's PublisherConfig \<Rightarrow> 's Publisher result" where
  "New fs cfg =
    (case pc_Store cfg of
       None \<Rightarrow> Inl (errors_New ''publisher: Store is required'')
     | Some st \<Rightarrow>
         if pc_RulesetVersion cfg = [] then Inl (errors_New ''publisher: RulesetVersion is required'')
         else if ContainsRune (pc_RulesetVersion cfg) (CHR ''|'')
         then Inl (errors_New ''publisher: RulesetVersion contains pipe character; forbidden by ADR-0002 input-safety'')
         else if pc_EngineCompatibility cfg = [] then Inl (errors_New ''publisher: EngineCompatibility is required'')
         else if pc_LinterUsed cfg = [] then Inl (errors_New ''publisher: LinterUsed is required'')
         else if pc_SchemaMirrorDir cfg = [] then Inl (errors_New ''publisher: SchemaMirrorDir is required'')
         else case os_Stat fs (pc_SchemaMirrorDir cfg) of
           Inl e \<Rightarrow> Inl (Errorf ''publisher: SchemaMirrorDir %q: %w'' [S (pc_SchemaMirrorDir cfg), W e])
         | Inr isDir \<Rightarrow>
             if \<not> isDir then Inl (Errorf ''publisher: SchemaMirrorDir %q is not a directory'' [S (pc_SchemaMirrorDir cfg)])
             else if pc_SupportedSchemaVersions cfg = []
             then Inl (errors_New ''publisher: SupportedSchemaVersions must be non-empty'')
             else Inr \<lparr>pu_store = st, pu_rulesetVersion = pc_RulesetVersion cfg,
               pu_engineCompatibility = pc_EngineCompatibility cfg, pu_linterUsed = pc_LinterUsed cfg,
               pu_schemaMirrorDir = pc_SchemaMirrorDir cfg,
               pu_supportedSchemaVersions = sort (pc_SupportedSchemaVersions cfg)\<rparr>)"

text \<open>Step 1: collection and the pre-publish verifications, none of which touches the store.\<close>

definition verify_ruleset :: "os \<Rightarrow> decoders \<Rightarrow> 's Publisher \<Rightarrow> Options \<Rightarrow> rule list result" where
  "verify_ruleset fs d p opts =
    (if op_RulesDir opts = [] then Inl (errors_New ''publish: Options.RulesDir is required'')
     else (let catalogPath = Join [pu_schemaMirrorDir p, ''catalog.v1.yaml'']
           in case loadCatalogKindRefs fs d catalogPath of
             Inl e \<Rightarrow> Inl (Errorf ''load catalog %s: %w'' [S catalogPath, W e])
           | Inr refs \<Rightarrow>
               (case collectRules fs d (op_RulesDir opts) refs of
                  Inl e \<Rightarrow> Inl (Errorf ''collect rules from %s: %w'' [S (op_RulesDir opts), W e])
                | Inr rules \<Rightarrow>
                    if rules = []
                    then Inl (Errorf ''no rule YAMLs found under %s: %w'' [S (op_RulesDir opts), W ErrVerificationFailed])
                    else case first_err
                           [rejectDuplicateEntities rules,
                            verifySupportedSchemaVersions (observedSchemaVersions rules) (pu_supportedSchemaVersions p),
                            verifySchemaMirrorPresent fs (observedSchemaVersions rules) (pu_schemaMirrorDir p)] of
                      Some e \<Rightarrow> Inl e
                    | None \<Rightarrow> Inr rules)))"

definition build_manifest :: "'s Publisher \<Rightarrow> rule list \<Rightarrow> time \<Rightarrow> Manifest" where
  "build_manifest p rules t =
    \<lparr>mf_manifest_version = manifestSchemaVersion, mf_ruleset_version = pu_rulesetVersion p,
     mf_schema_versions_present = observedSchemaVersions rules,
     mf_engine_compatibility = pu_engineCompatibility p, mf_linter_used = pu_linterUsed p,
     mf_generated_at = UTC t,
     mf_rules = map (\<lambda>r. \<lparr>mr_entity = ru_entity r, mr_yaml_path = yamlByHashPath (ru_hashHex r),
                          mr_yaml_hash = ru_hashHex r\<rparr>) (sort_key ru_entity rules)\<rparr>"

text \<open>Step 2: the rule bodies, tolerating those already present.\<close>

fun write_rules :: "'s process_env \<Rightarrow> 's Store \<Rightarrow> rule list \<Rightarrow> 's proc \<Rightarrow> goerr option \<times> 's proc" where
  "write_rules pe st [] u = (None, u)"
| "write_rules pe st (r # rs) u =
    (case call_write pe st (yamlByHashPath (ru_hashHex r)) (ru_bytes r) u of
       (None, u) \<Rightarrow> write_rules pe st rs u
     | (Some e, u) \<Rightarrow>
         (if errors_Is e ErrAlreadyExists then write_rules pe st rs u
          else (Some (Errorf ''write rule body %s: %w'' [S (yamlByHashPath (ru_hashHex r)), W e]), u)))"

text \<open>Step 4: the pointer, conditional on the generation just read.\<close>

definition write_pointer ::
  "'s process_env \<Rightarrow> codec \<Rightarrow> 's Publisher \<Rightarrow> string \<Rightarrow> nat \<Rightarrow> 's proc \<Rightarrow> Result result \<times> 's proc" where
  "write_pointer pe c p manifestHash n u =
    (case call_gen pe (pu_store p) pointerPath u of
       (Inl e, u) \<Rightarrow> (Inl (Errorf ''read pointer generation: %w'' [W e]), u)
     | (Inr expectedGen, u) \<Rightarrow>
         (case call_now pe u of (t, u) \<Rightarrow>
            (case marshal_pointer c \<lparr>po_pointer_version = pointerSchemaVersion, po_manifest_hash = ''sha256:'' @ manifestHash,
                    po_ruleset_version = pu_rulesetVersion p, po_published_at = UTC t\<rparr> of
               Inl e \<Rightarrow> (Inl (Errorf ''marshal pointer: %w'' [W e]), u)
             | Inr pointerBytes \<Rightarrow>
                 (case call_cas pe (pu_store p) pointerPath pointerBytes expectedGen u of
                    (Inl e, u) \<Rightarrow> (Inl (Errorf ''CAS write pointer (expectedGen=%d): %w'' [S (show_int expectedGen), W e]), u)
                  | (Inr postGen, u) \<Rightarrow>
                      (Inr \<lparr>rs_ManifestHash = manifestHash, rs_RulesetVersion = pu_rulesetVersion p,
                            rs_RulesPublished = n, rs_PointerGen = postGen\<rparr>, u)))))"

text \<open>Steps 2 to 4, on the rules in manifest order and the manifest's bytes.\<close>

definition write_all ::
  "'s process_env \<Rightarrow> codec \<Rightarrow> 's Publisher \<Rightarrow> rule list \<Rightarrow> string \<Rightarrow> 's proc \<Rightarrow> Result result \<times> 's proc" where
  "write_all pe c p rules manifestBytes u =
    (let manifestHash = sha256Hex manifestBytes; manifestKey = manifestByHashPath manifestHash
     in case write_rules pe (pu_store p) rules u of
          (Some e, u) \<Rightarrow> (Inl e, u)
        | (None, u) \<Rightarrow>
            (case call_write pe (pu_store p) manifestKey manifestBytes u of
               (None, u) \<Rightarrow> write_pointer pe c p manifestHash (length rules) u
             | (Some e, u) \<Rightarrow>
                 (if errors_Is e ErrAlreadyExists then write_pointer pe c p manifestHash (length rules) u
                  else (Inl (Errorf ''write manifest body %s: %w'' [S manifestKey, W e]), u))))"

definition Publish ::
  "'s process_env \<Rightarrow> os \<Rightarrow> decoders \<Rightarrow> codec \<Rightarrow> 's Publisher \<Rightarrow> Options \<Rightarrow> 's proc \<Rightarrow> Result result \<times> 's proc" where
  "Publish pe fs d c p opts u =
    (case verify_ruleset fs d p opts of
       Inl e \<Rightarrow> (Inl e, u)
     | Inr rules \<Rightarrow>
         (case call_now pe u of (t, u) \<Rightarrow>
            (case marshal_manifest c (build_manifest p rules t) of
               Inl e \<Rightarrow> (Inl (Errorf ''marshal manifest: %w'' [W e]), u)
             | Inr manifestBytes \<Rightarrow>
                 (if op_DryRun opts
                  then (Inr \<lparr>rs_ManifestHash = sha256Hex manifestBytes, rs_RulesetVersion = pu_rulesetVersion p,
                             rs_RulesPublished = length rules, rs_PointerGen = 0\<rparr>, u)
                  else write_all pe c p (sort_key ru_entity rules) manifestBytes u))))"

section \<open>Rollback\<close>

record 's RollbackConfig = rc_Store :: "'s Store option"

record 's Rollback = rb_store :: "'s Store"

record RollbackOptions =
  ro_TargetHashHex :: string
  ro_DryRun :: bool

record RollbackResult =
  rr_TargetHash :: string
  rr_TargetRulesetVer :: string
  rr_PriorHash :: string
  rr_PriorRulesetVer :: string
  rr_PriorPointerGen :: int
  rr_PostPointerGen :: int

definition NewRollback :: "'s RollbackConfig \<Rightarrow> 's Rollback result" where
  "NewRollback cfg =
    (case rc_Store cfg of
       None \<Rightarrow> Inl (errors_New ''rollback: Store is required'')
     | Some st \<Rightarrow> Inr \<lparr>rb_store = st\<rparr>)"

text \<open>The zero \<^verbatim>\<open>Pointer{}\<close>; the zero \<^verbatim>\<open>time.Time\<close> is the year 1.\<close>

definition zero_pointer :: Pointer where
  "zero_pointer = \<lparr>po_pointer_version = 0, po_manifest_hash = [], po_ruleset_version = [], po_published_at = instant (1, 1, 1, 0, 0, 0, 0)\<rparr>"

definition readPriorPointer :: "'s process_env \<Rightarrow> codec \<Rightarrow> 's Rollback \<Rightarrow> 's proc \<Rightarrow> (Pointer \<times> int) result \<times> 's proc" where
  "readPriorPointer pe c r u =
    (case call_gen pe (rb_store r) pointerPath u of
       (Inl e, u) \<Rightarrow> (Inl (Errorf ''read pointer generation: %w'' [W e]), u)
     | (Inr priorGen, u) \<Rightarrow>
         (if priorGen = 0 then (Inr (zero_pointer, 0), u)
          else case call_read pe (rb_store r) pointerPath u of
            (Inl e, u) \<Rightarrow> (Inl (Errorf ''read pointer body: %w'' [W e]), u)
          | (Inr body, u) \<Rightarrow>
              (case unmarshal_pointer c body of
                 Inl e \<Rightarrow> (Inl (Errorf ''parse prior pointer: %w'' [W e]), u)
               | Inr prior \<Rightarrow> (Inr (prior, priorGen), u))))"

text \<open>Steps 4 to 7, once the target body has been read and decoded.\<close>

definition repoint ::
  "'s process_env \<Rightarrow> codec \<Rightarrow> 's Rollback \<Rightarrow> RollbackOptions \<Rightarrow> Manifest \<Rightarrow> 's proc \<Rightarrow> RollbackResult result \<times> 's proc" where
  "repoint pe c r opts targetManifest u =
    (case readPriorPointer pe c r u of
       (Inl e, u) \<Rightarrow> (Inl (Errorf ''rollback: read prior pointer: %w'' [W e]), u)
     | (Inr (priorPointer, priorGen), u) \<Rightarrow>
         (let result = \<lparr>rr_TargetHash = ro_TargetHashHex opts, rr_TargetRulesetVer = mf_ruleset_version targetManifest,
                rr_PriorHash = po_manifest_hash priorPointer, rr_PriorRulesetVer = po_ruleset_version priorPointer,
                rr_PriorPointerGen = priorGen, rr_PostPointerGen = 0\<rparr>
          in case call_now pe u of (t, u) \<Rightarrow>
               (case marshal_pointer c \<lparr>po_pointer_version = pointerSchemaVersion,
                       po_manifest_hash = ''sha256:'' @ ro_TargetHashHex opts,
                       po_ruleset_version = mf_ruleset_version targetManifest, po_published_at = UTC t\<rparr> of
                  Inl e \<Rightarrow> (Inl (Errorf ''rollback: marshal pointer: %w'' [W e]), u)
                | Inr plannedBytes \<Rightarrow>
                    (if ro_DryRun opts then (Inr result, u)
                     else case call_cas pe (rb_store r) pointerPath plannedBytes priorGen u of
                       (Inl e, u) \<Rightarrow> (Inl (Errorf ''rollback: CAS write pointer (expectedGen=%d): %w'' [S (show_int priorGen), W e]), u)
                     | (Inr postGen, u) \<Rightarrow> (Inr (result\<lparr>rr_PostPointerGen := postGen\<rparr>), u)))))"

definition Execute ::
  "'s process_env \<Rightarrow> codec \<Rightarrow> 's Rollback \<Rightarrow> RollbackOptions \<Rightarrow> 's proc \<Rightarrow> RollbackResult result \<times> 's proc" where
  "Execute pe c r opts u =
    (if \<not> is_hash_hex (ro_TargetHashHex opts)
     then (Inl (Errorf ''rollback: target hash %q is not a 64-char lowercase hex sha256: %w''
                  [S (ro_TargetHashHex opts), W ErrVerificationFailed]), u)
     else (let targetKey = manifestByHashPath (ro_TargetHashHex opts)
           in case call_read pe (rb_store r) targetKey u of
             (Inl e, u) \<Rightarrow>
               (if errors_Is e ErrObjectNotFound
                then (Inl (Errorf ''rollback: target manifest body %s does not exist (rolling back to a non-existent hash would produce a dangling pointer the engine fails closed on): %w''
                             [S targetKey, W ErrVerificationFailed]), u)
                else (Inl (Errorf ''rollback: read target body %s: %w'' [S targetKey, W e]), u))
           | (Inr targetBody, u) \<Rightarrow>
               (case unmarshal_manifest c targetBody of
                  Inl e \<Rightarrow> (Inl (Errorf ''rollback: parse target body %s: %w: %w'' [S targetKey, W e, W ErrVerificationFailed]), u)
                | Inr targetManifest \<Rightarrow>
                    (if mf_ruleset_version targetManifest = []
                     then (Inl (Errorf ''rollback: target body %s has empty ruleset_version: %w'' [S targetKey, W ErrVerificationFailed]), u)
                     else repoint pe c r opts targetManifest u))))"

section \<open>What a verified ruleset is\<close>

text \<open>A collected rule: named, versioned, and hashed over the bytes that will be published.\<close>

definition rule_ok :: "rule \<Rightarrow> bool" where
  "rule_ok r \<longleftrightarrow> ru_entity r \<noteq> [] \<and> ru_version r \<noteq> 0 \<and> ru_hashHex r = sha256_hex (ru_bytes r)"

lemma collect_visit_keeps: "visit_keeps (list_all rule_ok) (collect_visit fs d absDir refs)"
  unfolding visit_keeps_def collect_visit_def
  by (auto simp: rule_ok_def sha256Hex_def split: option.split sum.split)

lemma collectRules_ok: "collectRules fs d dir refs = Inr rules \<Longrightarrow> list_all rule_ok rules"
  using WalkDir_invariant [OF collect_visit_keeps, where a = "[]" and rootDir = dir]
  by (auto simp: collectRules_def split: sum.splits prod.splits option.splits) (metis snd_conv)

lemma duplicate_entities_Nil:
  "duplicate_entities seen rs = [] \<longleftrightarrow> distinct (map ru_entity rs) \<and> set (map ru_entity rs) \<inter> fst ` set seen = {}"
proof (induction rs arbitrary: seen)
  case (Cons r rs)
  have "map_of seen (ru_entity r) = None \<longleftrightarrow> ru_entity r \<notin> fst ` set seen" by (rule map_of_eq_None_iff)
  then show ?case using Cons.IH by (auto split: option.split)
qed simp

lemma set_observedSchemaVersions [simp]: "set (observedSchemaVersions rules) = ru_version ` set rules"
  by (simp add: observedSchemaVersions_def)

lemma observed_sorted: "sorted (observedSchemaVersions rules)" "distinct (observedSchemaVersions rules)"
  by (simp_all add: observedSchemaVersions_def)

lemma verifySupportedSchemaVersions_None:
  "verifySupportedSchemaVersions obs sup' = None \<longleftrightarrow> set obs \<subseteq> set sup'"
  by (auto simp: verifySupportedSchemaVersions_def Let_def filter_empty_conv)

lemma missing_mirrors_Nil:
  "missing_mirrors fs dir vs = Inr [] \<longleftrightarrow>
    (\<forall>v \<in> set vs. \<not> isl (os_Stat fs (Join [dir, ''v'' @ show_int v @ ''.schema.json''])))"
  by (induction vs) (auto simp: Let_def map_sum_def split: sum.split)

lemma verify_ruleset_ok:
  assumes "verify_ruleset fs d p opts = Inr rules"
  shows "rules \<noteq> [] \<and> list_all rule_ok rules \<and> distinct (map ru_entity rules) \<and>
    ru_version ` set rules \<subseteq> set (pu_supportedSchemaVersions p)"
proof -
  obtain refs where refs: "collectRules fs d (op_RulesDir opts) refs = Inr rules" "rules \<noteq> []"
    "rejectDuplicateEntities rules = None"
    "verifySupportedSchemaVersions (observedSchemaVersions rules) (pu_supportedSchemaVersions p) = None"
    using assms by (auto simp: verify_ruleset_def Let_def split: sum.splits if_splits option.splits)
  moreover have "distinct (map ru_entity rules)"
    using refs(3) duplicate_entities_Nil [of "[]" rules] by (auto simp: rejectDuplicateEntities_def Let_def split: if_splits)
  ultimately show ?thesis using collectRules_ok verifySupportedSchemaVersions_None by auto
qed

text \<open>With one rule per entity, the order in which the directory walk found the rules does not matter.\<close>

lemma sort_key_distinct_unique:
  fixes xs ys :: "'a list" and f :: "'a \<Rightarrow> 'b::linorder"
  assumes "mset xs = mset ys" "distinct (map f xs)"
  shows "sort_key f xs = sort_key f ys"
proof (rule map_sorted_distinct_set_unique [where f = f])
  have d: "distinct (map f ys)" using mset_eq_imp_distinct_iff [of "map f xs" "map f ys"] assms by simp
  show "inj_on f (set (sort_key f xs) \<union> set (sort_key f ys))"
    using assms by (metis Un_absorb distinct_map mset_eq_setD set_sort)
  show "sorted (map f (sort_key f xs))" "sorted (map f (sort_key f ys))" by simp_all
  show "distinct (map f (sort_key f xs))" "distinct (map f (sort_key f ys))"
    using assms(2) d by (metis distinct_map distinct_sort set_sort)+
  show "set (sort_key f xs) = set (sort_key f ys)" using assms(1) by (metis mset_eq_setD set_sort)
qed

text \<open>
  C22. The manifest is a function of the set of rules: two walks that find the same rules in different
  orders build the same manifest, whose rules are strictly increasing by entity and list each rule
  with the digest of its published bytes.
\<close>

theorem build_manifest_deterministic:
  assumes "verify_ruleset fs d p opts = Inr rules" "mset rules' = mset rules"
  shows "build_manifest p rules' t = build_manifest p rules t \<and>
    sorted_wrt (<) (map mr_entity (mf_rules (build_manifest p rules t))) \<and>
    mset (map (\<lambda>m. (mr_entity m, mr_yaml_hash m)) (mf_rules (build_manifest p rules t))) =
      mset (map (\<lambda>r. (ru_entity r, sha256_hex (ru_bytes r))) rules)"
proof -
  have ok: "list_all rule_ok rules" "distinct (map ru_entity rules)" using verify_ruleset_ok [OF assms(1)] by auto
  have "sort_key ru_entity rules' = sort_key ru_entity rules"
    by (rule sort_key_distinct_unique [symmetric]) (use assms(2) ok in auto)
  moreover have "observedSchemaVersions rules' = observedSchemaVersions rules"
    unfolding observedSchemaVersions_def using assms(2)
    by (metis list.set_map mset_eq_setD sorted_list_of_set_sort_remdups)
  ultimately have 1: "build_manifest p rules' t = build_manifest p rules t" by (simp add: build_manifest_def)
  have "map mr_entity (mf_rules (build_manifest p rules t)) = map ru_entity (sort_key ru_entity rules)"
    by (simp add: build_manifest_def)
  moreover have "distinct (map ru_entity (sort_key ru_entity rules))"
    using ok(2) by (metis distinct_map distinct_sort set_sort)
  ultimately have 2: "sorted_wrt (<) (map mr_entity (mf_rules (build_manifest p rules t)))"
    by (simp add: strict_sorted_iff)
  have "mset (map (\<lambda>r. (ru_entity r, ru_hashHex r)) (sort_key ru_entity rules)) =
      mset (map (\<lambda>r. (ru_entity r, sha256_hex (ru_bytes r))) rules)"
  proof -
    have "map (\<lambda>r. (ru_entity r, ru_hashHex r)) (sort_key ru_entity rules) =
        map (\<lambda>r. (ru_entity r, sha256_hex (ru_bytes r))) (sort_key ru_entity rules)"
      using ok(1) by (simp add: list_all_iff rule_ok_def)
    then show ?thesis by (simp del: map_eq_conv)
  qed
  then have 3: "mset (map (\<lambda>m. (mr_entity m, mr_yaml_hash m)) (mf_rules (build_manifest p rules t))) =
      mset (map (\<lambda>r. (ru_entity r, sha256_hex (ru_bytes r))) rules)"
    by (simp add: build_manifest_def comp_def flip: mset_map)
  show ?thesis using 1 2 3 by blast
qed

section \<open>Published rules are self-contained\<close>

text \<open>The value a reference is replaced by: the parsed file it names, if the path is accepted.\<close>

definition artifact :: "os \<Rightarrow> decoders \<Rightarrow> string \<Rightarrow> string \<Rightarrow> any \<Rightarrow> any option" where
  "artifact fs d rulesRoot rulePath ref =
    (case ref of
       AStr r \<Rightarrow>
         (case Resolve fs rulesRoot rulePath r of
            Inl _ \<Rightarrow> None
          | Inr p \<Rightarrow> (case os_ReadFile fs p of
              Inl _ \<Rightarrow> None
            | Inr raw \<Rightarrow> (case parseExternalArtifact d p raw of Inl _ \<Rightarrow> None | Inr v \<Rightarrow> Some v)))
     | _ \<Rightarrow> None)"

abbreviation ref_key :: "string \<Rightarrow> string" where
  "ref_key f \<equiv> f @ ''_ref''"

lemma resolve_refs_Cons:
  assumes "resolve_refs fs d rp root' ck (f # fns) ps mu = Inr (ps', mu')"
  obtains (absent) "map_of ps (ref_key f) = None" "resolve_refs fs d rp root' ck fns ps mu = Inr (ps', mu')"
  | (present) r v where "map_of ps (ref_key f) = Some r" "artifact fs d root' rp r = Some v" "map_of ps f = None"
      "resolve_refs fs d rp root' ck fns (AList.delete (ref_key f) (AList.update f v ps)) True = Inr (ps', mu')"
proof (cases "map_of ps (ref_key f)")
  case None
  then show ?thesis using assms absent by simp
next
  case (Some r)
  then show ?thesis
    using assms present [OF Some]
    by (auto simp: artifact_def Let_def split: any.splits sum.splits if_splits)
qed

lemma resolve_refs_map:
  assumes "resolve_refs fs d rp root' ck fns ps mu = Inr (ps', mu')" "\<forall>f \<in> set fns. \<not> HasSuffix f ''_ref''"
  shows "map_of ps' k =
    (if \<exists>f \<in> set fns. k = ref_key f then None
     else if k \<in> set fns \<and> map_of ps (ref_key k) \<noteq> None then artifact fs d root' rp (the (map_of ps (ref_key k)))
     else map_of ps k) \<and> (mu' \<longleftrightarrow> mu \<or> (\<exists>f \<in> set fns. map_of ps (ref_key f) \<noteq> None))"
  using assms
proof (induction fns arbitrary: ps mu)
  case (Cons f fns)
  have nr: "f \<noteq> ref_key x" for x using Cons.prems(2) HasSuffix_append by fastforce
  from Cons.prems(1) show ?case
  proof (cases rule: resolve_refs_Cons)
    case absent
    then show ?thesis using Cons.IH [OF absent(2)] Cons.prems(2) by auto
  next
    case (present r v)
    let ?ps = "AList.delete (ref_key f) (AList.update f v ps)"
    have m: "map_of ?ps x = (if x = ref_key f then None else if x = f then Some v else map_of ps x)" for x
      by (simp add: delete_conv' update_conv')
    show ?thesis
      using Cons.IH [OF present(4)] Cons.prems(2) present nr m by (auto split: if_splits)
  qed
qed auto

text \<open>
  A rule that passes publication carries no reference: after \<^verbatim>\<open>resolveCheckParams\<close> no parameter key
  ends in \<^verbatim>\<open>_ref\<close>, each eligible field that was referenced holds the parsed content of the file its
  reference resolves to inside the rules root, and every other parameter is unchanged.
\<close>

theorem resolveCheckParams_self_contained:
  assumes "resolveCheckParams fs d params eligible rulePath rulesRoot ck = Inr (params', changed)"
    and "list_all (\<lambda>f. \<not> HasSuffix f ''_ref'') eligible"
  shows "map_of params' k =
    (if HasSuffix k ''_ref'' then None
     else if k \<in> set eligible \<and> map_of params (ref_key k) \<noteq> None
     then artifact fs d rulesRoot rulePath (the (map_of params (ref_key k)))
     else map_of params k) \<and>
    (changed \<longleftrightarrow> list_ex (\<lambda>k. HasSuffix k ''_ref'') (map fst params))"
proof -
  have none: "find (\<lambda>refKey. TrimSuffix refKey ''_ref'' \<notin> set eligible) (filter (\<lambda>k. HasSuffix k ''_ref'') (map fst params)) = None"
    and r: "resolve_refs fs d rulePath rulesRoot (fmt_v d ck) eligible params False = Inr (params', changed)"
    using assms(1) by (auto simp: resolveCheckParams_def Let_def split: option.splits)
  have all: "x \<in> set eligible" if "ref_key x \<in> fst ` set params" for x
  proof -
    have "ref_key x \<in> set (filter (\<lambda>k. HasSuffix k ''_ref'') (map fst params))" using that by simp
    then show ?thesis using none unfolding find_None_iff by (metis TrimSuffix_append)
  qed
  have key: "map_of params (ref_key x) \<noteq> None \<longleftrightarrow> ref_key x \<in> fst ` set params" for x
    by (simp add: map_of_eq_None_iff)
  have refs: "map_of params k = None" if "HasSuffix k ''_ref''" "\<not> (\<exists>f \<in> set eligible. k = ref_key f)"
    using that all key by (metis HasSuffix_iff)
  have "(\<exists>f \<in> set eligible. k = ref_key f) \<Longrightarrow> HasSuffix k ''_ref''" by auto
  moreover have "(\<exists>f \<in> set eligible. map_of params (ref_key f) \<noteq> None) \<longleftrightarrow> list_ex (\<lambda>k. HasSuffix k ''_ref'') (map fst params)"
  proof
    assume "\<exists>f \<in> set eligible. map_of params (ref_key f) \<noteq> None"
    then obtain f where "ref_key f \<in> set (map fst params)" using key by auto
    then show "list_ex (\<lambda>k. HasSuffix k ''_ref'') (map fst params)" unfolding list_ex_iff using HasSuffix_append by blast
  next
    assume "list_ex (\<lambda>k. HasSuffix k ''_ref'') (map fst params)"
    then obtain y where y: "y \<in> set (map fst params)" "HasSuffix y ''_ref''" unfolding list_ex_iff by blast
    then obtain x where "y = ref_key x" unfolding HasSuffix_iff by blast
    then show "\<exists>f \<in> set eligible. map_of params (ref_key f) \<noteq> None" using y(1) all [of x] key [of x] by auto
  qed
  moreover have "k \<in> set eligible \<Longrightarrow> \<not> HasSuffix k ''_ref''" using assms(2) by (auto simp: list_all_iff)
  ultimately show ?thesis
    using resolve_refs_map [OF r, of k] assms(2) refs by (auto simp: list_all_iff)
qed

definition json_decoders :: decoders where
  "json_decoders = \<lparr>yaml_header = (\<lambda>b. Inr (''orders'', 2)), yaml_catalog = (\<lambda>b. Inr []), yaml_map = (\<lambda>b. Inr []),
     yaml_any = (\<lambda>b. Inr ANil), json_any = (\<lambda>b. Inr (AStr b)), yaml_marshal = (\<lambda>m. Inr []), fmt_v = (\<lambda>v. ''c'')\<rparr>"

lemma demo_resolve: "Resolve demo_os ''/r'' ''/r/a'' ''s.json'' = Inr ''/r/s.json''"
  by (simp add: Resolve_def Rel_def path_eval demo_os_def)

theorem resolveCheckParams_self_contained_witness:
  "map_of (fst (projr (resolveCheckParams demo_os json_decoders [(''schema_ref'', AStr ''s.json''), (''mode'', AStr ''m'')]
      [''schema''] ''/r/a'' ''/r'' ANil))) ''schema'' = Some (AStr ''{}'')"
proof -
  let ?ps = "[(''schema_ref'', AStr ''s.json''), (''mode'', AStr ''m'')]"
  have parse: "parseExternalArtifact json_decoders ''/r/s.json'' ''{}'' = Inr (AStr ''{}'')"
    by (simp add: parseExternalArtifact_def json_decoders_def Ext_def sep_def to_lower_def is_upper_def)
  have ok: "resolveCheckParams demo_os json_decoders ?ps [''schema''] ''/r/a'' ''/r'' ANil =
      Inr ([(''mode'', AStr ''m''), (''schema'', AStr ''{}'')], True)"
    using parse demo_resolve
    by (simp add: resolveCheckParams_def HasSuffix_def TrimSuffix_def HasPrefix_def demo_os_def Let_def)
  have "artifact demo_os json_decoders ''/r'' ''/r/a'' (AStr ''s.json'') = Some (AStr ''{}'')"
    using parse demo_resolve by (simp add: artifact_def demo_os_def)
  then show ?thesis
    using resolveCheckParams_self_contained [OF ok, of "''schema''"] ok by (simp add: HasSuffix_def HasPrefix_def)
qed

end
