(* ===== verification/Control_Plane.thy ===== *)
theory Control_Plane
  imports Publisher
begin

text \<open>
  The manifest control plane as a whole: what every publication and rollback keeps of the bucket,
  whatever the other processes do in between, and what the loader then reads.

  \<open>bucket_ok\<close> is the bucket's invariant (by-hash objects are addressed by their digest, the pointer
  names an existing body); \<open>bucket_grows\<close> is the step every process may take (by-hash objects are
  immutable, the pointer's generation does not go back). The locale \<open>control_plane\<close> adds to the \<^verbatim>\<open>Store\<close>
  contract that the other processes take only such steps; the lemmas show that publisher and
  rollback do too.
\<close>

section \<open>Invariant and permitted steps\<close>

definition content_addressed :: "objects \<Rightarrow> bool" where
  "content_addressed ob \<longleftrightarrow>
    (\<forall>h b n. ob (manifestByHashPath h) = Some (b, n) \<longrightarrow> sha256_hex b = h) \<and>
    (\<forall>h b n. ob (yamlByHashPath h) = Some (b, n) \<longrightarrow> sha256_hex b = h)"

definition pointer_resolves :: "codec \<Rightarrow> objects \<Rightarrow> bool" where
  "pointer_resolves c ob \<longleftrightarrow>
    (\<forall>b n. ob pointerPath = Some (b, n) \<longrightarrow>
       (\<exists>p h. unmarshal_pointer c b = Inr p \<and> po_pointer_version p = 1 \<and> po_manifest_hash p = ''sha256:'' @ h \<and>
          is_hash_hex h \<and> ob (manifestByHashPath h) \<noteq> None))"

definition bucket_ok :: "codec \<Rightarrow> objects \<Rightarrow> bool" where
  "bucket_ok c ob \<longleftrightarrow> content_addressed ob \<and> pointer_resolves c ob"

definition bucket_grows :: "objects \<Rightarrow> objects \<Rightarrow> bool" where
  "bucket_grows ob ob' \<longleftrightarrow>
    (\<forall>h. ob (manifestByHashPath h) \<noteq> None \<longrightarrow> ob' (manifestByHashPath h) = ob (manifestByHashPath h)) \<and>
    (\<forall>h. ob (yamlByHashPath h) \<noteq> None \<longrightarrow> ob' (yamlByHashPath h) = ob (yamlByHashPath h)) \<and>
    gen_of (ob pointerPath) \<le> gen_of (ob' pointerPath)"

definition safe :: "codec \<Rightarrow> objects \<Rightarrow> objects \<Rightarrow> bool" where
  "safe c ob ob' \<longleftrightarrow> (bucket_ok c ob \<longrightarrow> bucket_ok c ob' \<and> bucket_grows ob ob')"

lemma bucket_grows_refl [simp]: "bucket_grows ob ob"
  by (simp add: bucket_grows_def)

lemma bucket_grows_trans: "bucket_grows a b \<Longrightarrow> bucket_grows b c \<Longrightarrow> bucket_grows a c"
  unfolding bucket_grows_def by (metis order_trans)

lemma safe_refl [simp]: "safe c ob ob"
  by (simp add: safe_def)

lemma safe_trans [trans]: "safe k a b \<Longrightarrow> safe k b c \<Longrightarrow> safe k a c"
  unfolding safe_def by (blast intro: bucket_grows_trans)

lemma grows_manifest: "bucket_grows ob ob' \<Longrightarrow> ob (manifestByHashPath h) \<noteq> None \<Longrightarrow> ob' (manifestByHashPath h) \<noteq> None"
  by (simp add: bucket_grows_def)

lemma grows_yaml: "bucket_grows ob ob' \<Longrightarrow> ob (yamlByHashPath h) \<noteq> None \<Longrightarrow> ob' (yamlByHashPath h) \<noteq> None"
  by (simp add: bucket_grows_def)

text \<open>The three writes of the control plane: a rule body, a manifest body, the pointer.\<close>

lemma safe_put_yaml:
  assumes "ob (yamlByHashPath (sha256_hex b)) = None"
  shows "safe c ob (ob(yamlByHashPath (sha256_hex b) \<mapsto> (b, n)))"
  using assms by (auto simp: safe_def bucket_ok_def bucket_grows_def content_addressed_def pointer_resolves_def)

lemma safe_put_manifest:
  assumes "ob (manifestByHashPath (sha256_hex b)) = None"
  shows "safe c ob (ob(manifestByHashPath (sha256_hex b) \<mapsto> (b, n)))"
  using assms
  by (auto simp: safe_def bucket_ok_def bucket_grows_def content_addressed_def pointer_resolves_def) metis

lemma safe_put_pointer:
  assumes "gen_of (ob pointerPath) \<le> n" "unmarshal_pointer c b = Inr p" "po_pointer_version p = 1"
    and "po_manifest_hash p = ''sha256:'' @ h" "is_hash_hex h" "ob (manifestByHashPath h) \<noteq> None"
  shows "safe c ob (ob(pointerPath \<mapsto> (b, n)))"
proof -
  have "pointer_resolves c (ob(pointerPath \<mapsto> (b, n)))"
    unfolding pointer_resolves_def using assms(2-) by simp
  then show ?thesis
    using assms(1) by (auto simp: safe_def bucket_ok_def bucket_grows_def content_addressed_def gen_of_def)
qed

text \<open>The pointer names the body with digest \<open>h\<close>, for ruleset \<open>v\<close>, at generation \<open>n\<close>.\<close>

definition repointed :: "codec \<Rightarrow> string \<Rightarrow> string \<Rightarrow> int \<Rightarrow> objects \<Rightarrow> bool" where
  "repointed c h v n ob \<longleftrightarrow>
    (\<exists>b p. ob pointerPath = Some (b, n) \<and> unmarshal_pointer c b = Inr p \<and> po_pointer_version p = 1 \<and>
       po_manifest_hash p = ''sha256:'' @ h \<and> po_ruleset_version p = v)"

section \<open>A process among others\<close>

locale control_plane = manifest_store write_new read_obj read_gen cas objs
  for write_new :: "string \<Rightarrow> string \<Rightarrow> 's \<Rightarrow> goerr option \<times> 's" and read_obj read_gen cas objs +
  fixes c :: codec and pe :: "'s process_env"
  assumes roundtrip: "codec_roundtrip c"
    and foreign: "codec_errors c"
    and rely: "safe c (objs s) (objs (pe_env pe t s))"
begin

abbreviation st :: "'s Store" where
  "st \<equiv> \<lparr>st_WriteIfNotExists = write_new, st_ReadObject = read_obj, st_ReadPointerGeneration = read_gen, st_CASWritePointer = cas\<rparr>"

abbreviation ob :: "'s proc \<Rightarrow> objects" where
  "ob u \<equiv> objs (fst u)"

lemma safe_arrive: "safe c (ob u) (objs (arrive pe u))"
  using rely by (cases u) (simp add: arrive_def)

text \<open>Reads and the clock only let the others run.\<close>

lemma reads_safe:
  "safe c (ob u) (ob (snd (call_gen pe st k u)))" "safe c (ob u) (ob (snd (call_read pe st k u)))"
  "safe c (ob u) (ob (snd (call_now pe u)))"
  using safe_arrive by (simp_all add: call_gen_def call_read_def call_now_def)

text \<open>A conditional creation either finds the key taken, or fails, or creates it.\<close>

lemma call_write_effect:
  assumes "call_write pe st k b u = (r, u')"
  shows "(ob u' = objs (arrive pe u) \<or>
      (objs (arrive pe u) k = None \<and> (\<exists>n. ob u' = (objs (arrive pe u))(k \<mapsto> (b, n))))) \<and>
    (case r of None \<Rightarrow> ob u' k \<noteq> None | Some e \<Rightarrow> errors_Is e ErrAlreadyExists \<longrightarrow> ob u' k \<noteq> None)"
proof -
  obtain s' where s': "write_new k b (arrive pe u) = (r, s')" "u' = (s', snd u + 1)"
    using assms by (auto simp: call_write_def split: prod.splits)
  show ?thesis
  proof (cases r)
    case None
    then show ?thesis using write_new_ok [of k b "arrive pe u" s'] s' by auto
  next
    case (Some e)
    then show ?thesis using write_new_failed [of k b "arrive pe u" e s'] write_new_exists [of k b "arrive pe u" e s'] s' by auto
  qed
qed

lemma call_write_safe:
  assumes "call_write pe st k b u = (r, u')" "k = yamlByHashPath (sha256_hex b) \<or> k = manifestByHashPath (sha256_hex b)"
  shows "safe c (ob u) (ob u')"
proof -
  have "safe c (objs (arrive pe u)) (ob u')"
    using call_write_effect [OF assms(1)] assms(2) safe_put_yaml [of "objs (arrive pe u)" b c]
      safe_put_manifest [of "objs (arrive pe u)" b c] by auto
  then show ?thesis using safe_arrive safe_trans by blast
qed

lemma call_cas_effect:
  assumes "call_cas pe st k b n u = (r, u')"
  shows "(ob u' = objs (arrive pe u) \<and> isl r \<or>
      (gen_of (objs (arrive pe u) k) = n \<and> (\<exists>m. n < m \<and> ob u' = (objs (arrive pe u))(k \<mapsto> (b, m)) \<and> (isl r \<or> r = Inr m)))) \<and>
    (case r of Inl e \<Rightarrow> errors_Is e ErrPreconditionFailed \<longrightarrow> ob u' = objs (arrive pe u) \<and> gen_of (ob u' k) \<noteq> n | Inr _ \<Rightarrow> True)"
proof -
  obtain s' where s': "cas k b n (arrive pe u) = (r, s')" "u' = (s', snd u + 1)"
    using assms by (auto simp: call_cas_def split: prod.splits)
  show ?thesis
  proof (cases r)
    case (Inr m)
    then show ?thesis using cas_ok [of k b n "arrive pe u" m s'] s' by auto
  next
    case (Inl e)
    then show ?thesis using cas_failed [of k b n "arrive pe u" e s'] cas_lost [of k b n "arrive pe u" e s'] s' by auto
  qed
qed

lemma call_cas_safe:
  assumes "call_cas pe st pointerPath b n u = (r, u')" "marshal_pointer c p = Inr b" "po_pointer_version p = 1"
    and "po_manifest_hash p = ''sha256:'' @ h" "is_hash_hex h" "bucket_ok c (ob u)" "ob u (manifestByHashPath h) \<noteq> None"
  shows "safe c (ob u) (ob u')"
proof -
  let ?a = "objs (arrive pe u)"
  have a: "bucket_grows (ob u) ?a" using safe_arrive [of u] assms(6) by (simp add: safe_def)
  have "unmarshal_pointer c b = Inr p" using roundtrip assms(2) by (simp add: codec_roundtrip_def)
  then have put: "safe c ?a (?a(pointerPath \<mapsto> (b, m)))" if "gen_of (?a pointerPath) \<le> m" for m
    using safe_put_pointer [OF that _ assms(3-5) grows_manifest [OF a assms(7)]] by blast
  have "safe c ?a (ob u')" using call_cas_effect [OF assms(1)] put by auto
  then show ?thesis using safe_arrive safe_trans by blast
qed

lemma write_rules_effect:
  assumes "write_rules pe st rs u = (r, u')" "list_all rule_ok rs" "bucket_ok c (ob u)"
  shows "safe c (ob u) (ob u') \<and>
    (case r of
       None \<Rightarrow> list_all (\<lambda>x. ob u' (yamlByHashPath (ru_hashHex x)) \<noteq> None) rs
     | Some e \<Rightarrow> \<not> errors_Is e ErrVerificationFailed \<and> \<not> errors_Is e ErrPreconditionFailed)"
  using assms
proof (induction rs arbitrary: u)
  case (Cons x rs)
  let ?k = "yamlByHashPath (ru_hashHex x)"
  obtain q u1 where w: "call_write pe st ?k (ru_bytes x) u = (q, u1)" by (rule prod.exhaust)
  have safe1: "safe c (ob u) (ob u1)" using call_write_safe [OF w] Cons.prems(2) by (simp add: rule_ok_def)
  then have ok1: "bucket_ok c (ob u1)" using Cons.prems(3) by (simp add: safe_def)
  show ?case
  proof (cases "q = None \<or> errors_Is (the q) ErrAlreadyExists")
    case True
    have here: "ob u1 ?k \<noteq> None" using call_write_effect [OF w] True by (auto split: option.splits)
    have rest: "write_rules pe st rs u1 = (r, u')" using Cons.prems(1) w True by (auto split: option.splits)
    have ih: "safe c (ob u1) (ob u') \<and> (case r of None \<Rightarrow> list_all (\<lambda>x. ob u' (yamlByHashPath (ru_hashHex x)) \<noteq> None) rs
        | Some e \<Rightarrow> \<not> errors_Is e ErrVerificationFailed \<and> \<not> errors_Is e ErrPreconditionFailed)"
      using Cons.IH [OF rest _ ok1] Cons.prems(2) by simp
    then have "bucket_grows (ob u1) (ob u')" using ok1 by (simp add: safe_def)
    then have "ob u' ?k \<noteq> None" using here by (rule grows_yaml)
    then show ?thesis using ih safe_trans [OF safe1] by (auto split: option.splits)
  next
    case False
    then obtain e where e: "q = Some e" "r = Some (Errorf ''write rule body %s: %w'' [S ?k, W e])" "u' = u1"
      using Cons.prems(1) w by auto
    then have "\<not> errors_Is e ErrVerificationFailed \<and> \<not> errors_Is e ErrPreconditionFailed"
      using w write_new_error [of ?k "ru_bytes x" "arrive pe u" e] by (auto simp: call_write_def split: prod.splits)
    then show ?thesis using e safe1 by (auto simp: store_error_defs)
  qed
qed simp

lemma cas_sequence:
  assumes cas: "call_cas pe st pointerPath b n u1 = (r, u')" and m: "marshal_pointer c p = Inr b"
    and p: "po_pointer_version p = 1" "po_manifest_hash p = ''sha256:'' @ h" "is_hash_hex h"
    and u: "safe c (ob u) (ob u1)" "bucket_ok c (ob u)" "ob u (manifestByHashPath h) \<noteq> None"
      "gen_of (ob u pointerPath) \<le> n" "n \<le> gen_of (ob u1 pointerPath)"
  shows "safe c (ob u) (ob u') \<and>
    (case r of
       Inl e \<Rightarrow> \<not> errors_Is e ErrVerificationFailed \<and>
         (errors_Is e ErrPreconditionFailed \<longrightarrow> gen_of (ob u pointerPath) < gen_of (ob u' pointerPath))
     | Inr k \<Rightarrow> repointed c h (po_ruleset_version p) k (ob u') \<and> ob u' (manifestByHashPath h) \<noteq> None)"
proof -
  let ?a = "objs (arrive pe u1)"
  have ok1: "bucket_ok c (ob u1)" "ob u1 (manifestByHashPath h) \<noteq> None"
    using u grows_manifest by (auto simp: safe_def)
  have safe: "safe c (ob u1) (ob u')" by (rule call_cas_safe [OF cas m p ok1])
  have grow: "bucket_grows (ob u1) ?a" using safe_arrive [of u1] ok1(1) by (simp add: safe_def)
  have "unmarshal_pointer c b = Inr p" using roundtrip m by (simp add: codec_roundtrip_def)
  then have "r = Inr k \<Longrightarrow> repointed c h (po_ruleset_version p) k (ob u')" for k
    using call_cas_effect [OF cas] p by (auto simp: repointed_def)
  moreover have "ob u' (manifestByHashPath h) \<noteq> None" using safe ok1 grows_manifest by (auto simp: safe_def)
  moreover have "\<not> errors_Is e ErrVerificationFailed" if "r = Inl e" for e
    using cas cas_error that by (auto simp: call_cas_def split: prod.splits)
  moreover have "gen_of (ob u pointerPath) < gen_of (ob u' pointerPath)" if "r = Inl e" "errors_Is e ErrPreconditionFailed" for e
  proof -
    have "ob u' = ?a" "gen_of (ob u' pointerPath) \<noteq> n" using call_cas_effect [OF cas] that by auto
    moreover have "n \<le> gen_of (?a pointerPath)" using grow u(5) by (simp add: bucket_grows_def)
    ultimately show ?thesis using u(4) by simp
  qed
  ultimately show ?thesis using safe_trans [OF u(1) safe] by (auto split: sum.split)
qed

lemma call_gen_effect:
  assumes "call_gen pe st pointerPath u = (r, u1)"
  shows "safe c (ob u) (ob u1) \<and>
    (case r of
       Inl e \<Rightarrow> \<not> errors_Is e ErrVerificationFailed \<and> \<not> errors_Is e ErrPreconditionFailed
     | Inr n \<Rightarrow> gen_of (ob u1 pointerPath) = n)"
  using assms safe_arrive [of u] read_gen_ok [of pointerPath "arrive pe u"] read_gen_error [of pointerPath "arrive pe u"]
  by (auto simp: call_gen_def split: sum.split)

lemma marshal_pointer_error: "marshal_pointer c p = Inl e \<Longrightarrow> sdk_error e"
  using foreign by (simp add: codec_errors_def)

lemma write_pointer_effect:
  assumes "write_pointer pe c p h n u = (r, u')" "pu_store p = st" "is_hash_hex h" "bucket_ok c (ob u)"
    "ob u (manifestByHashPath h) \<noteq> None"
  shows "safe c (ob u) (ob u') \<and>
    (case r of
       Inl e \<Rightarrow> \<not> errors_Is e ErrVerificationFailed \<and>
         (errors_Is e ErrPreconditionFailed \<longrightarrow> gen_of (ob u pointerPath) < gen_of (ob u' pointerPath))
     | Inr res \<Rightarrow> res = \<lparr>rs_ManifestHash = h, rs_RulesetVersion = pu_rulesetVersion p, rs_RulesPublished = n, rs_PointerGen = rs_PointerGen res\<rparr>
         \<and> repointed c h (pu_rulesetVersion p) (rs_PointerGen res) (ob u') \<and> ob u' (manifestByHashPath h) \<noteq> None)"
proof -
  obtain g u1 where g: "call_gen pe st pointerPath u = (g, u1)" by (rule prod.exhaust)
  note e1 = call_gen_effect [OF g]
  show ?thesis
  proof (cases g)
    case (Inl e)
    then have r: "r = Inl (Errorf ''read pointer generation: %w'' [W e])" "u' = u1"
      using assms(1,2) g by (auto simp: write_pointer_def)
    then show ?thesis using e1 Inl by (auto simp: store_error_defs)
  next
    case (Inr n1)
    obtain t u2 where t: "call_now pe u1 = (t, u2)" by (rule prod.exhaust)
    let ?pt = "\<lparr>po_pointer_version = pointerSchemaVersion, po_manifest_hash = ''sha256:'' @ h,
                 po_ruleset_version = pu_rulesetVersion p, po_published_at = UTC t\<rparr>"
    have s12: "safe c (ob u1) (ob u2)" using reads_safe(3) [of u1] t by simp
    have s02: "safe c (ob u) (ob u2)" using safe_trans e1 s12 by blast
    show ?thesis
    proof (cases "marshal_pointer c ?pt")
      case (Inl e)
      then have "r = Inl (Errorf ''marshal pointer: %w'' [W e])" "u' = u2"
        using assms(1,2) g t Inr by (auto simp: write_pointer_def)
      then show ?thesis using s02 marshal_pointer_error [OF Inl] by (auto simp: sdk_error_def store_error_defs)
    next
      case b: (Inr b)
      obtain q u3 where q: "call_cas pe st pointerPath b n1 u2 = (q, u3)" by (rule prod.exhaust)
      have ok1: "bucket_ok c (ob u1)" "bucket_grows (ob u) (ob u1)" "bucket_grows (ob u1) (ob u2)"
        using e1 assms(4) s12 by (auto simp: safe_def)
      have gen: "gen_of (ob u1 pointerPath) = n1" using e1 Inr by simp
      have "gen_of (ob u pointerPath) \<le> n1" "n1 \<le> gen_of (ob u2 pointerPath)"
        using ok1 gen by (auto simp: bucket_grows_def)
      from cas_sequence [OF q b _ _ assms(3) s02 assms(4,5) this, simplified]
      have s: "safe c (ob u) (ob u3)" "case q of
           Inl e \<Rightarrow> \<not> errors_Is e ErrVerificationFailed \<and>
             (errors_Is e ErrPreconditionFailed \<longrightarrow> gen_of (ob u pointerPath) < gen_of (ob u3 pointerPath))
         | Inr k \<Rightarrow> repointed c h (pu_rulesetVersion p) k (ob u3) \<and> ob u3 (manifestByHashPath h) \<noteq> None"
        by (simp_all add: pointerSchemaVersion_def split: sum.splits)
      show ?thesis using s assms(1,2) g t Inr b q
        by (cases q) (auto simp: write_pointer_def store_error_defs)
    qed
  qed
qed

lemma write_all_effect:
  assumes "write_all pe c p rules b u = (r, u')" "pu_store p = st" "list_all rule_ok rules" "bucket_ok c (ob u)"
  shows "safe c (ob u) (ob u') \<and>
    (case r of
       Inl e \<Rightarrow> \<not> errors_Is e ErrVerificationFailed \<and>
         (errors_Is e ErrPreconditionFailed \<longrightarrow> gen_of (ob u pointerPath) < gen_of (ob u' pointerPath))
     | Inr res \<Rightarrow> rs_ManifestHash res = sha256_hex b \<and> rs_RulesetVersion res = pu_rulesetVersion p \<and>
         rs_RulesPublished res = length rules \<and>
         repointed c (sha256_hex b) (pu_rulesetVersion p) (rs_PointerGen res) (ob u') \<and>
         ob u' (manifestByHashPath (sha256_hex b)) \<noteq> None \<and>
         list_all (\<lambda>x. ob u' (yamlByHashPath (ru_hashHex x)) \<noteq> None) rules)"
proof -
  let ?h = "sha256_hex b"
  obtain q1 u1 where q1: "write_rules pe st rules u = (q1, u1)" by (rule prod.exhaust)
  note e1 = write_rules_effect [OF q1 assms(3,4)]
  show ?thesis
  proof (cases q1)
    case (Some e)
    then show ?thesis using assms(1,2) q1 e1 by (auto simp: write_all_def Let_def)
  next
    case None
    then have rules: "safe c (ob u) (ob u1)" "list_all (\<lambda>x. ob u1 (yamlByHashPath (ru_hashHex x)) \<noteq> None) rules"
      "bucket_ok c (ob u1)" using e1 assms(4) by (auto simp: safe_def)
    obtain q2 u2 where q2: "call_write pe st (manifestByHashPath ?h) b u1 = (q2, u2)" by (rule prod.exhaust)
    have s2: "safe c (ob u1) (ob u2)" by (rule call_write_safe [OF q2]) simp
    have s02: "safe c (ob u) (ob u2)" by (rule safe_trans [OF rules(1) s2])
    have ok2: "bucket_ok c (ob u2)" using s2 rules(3) by (simp add: safe_def)
    show ?thesis
    proof (cases "q2 = None \<or> errors_Is (the q2) ErrAlreadyExists")
      case True
      have here: "ob u2 (manifestByHashPath ?h) \<noteq> None" using call_write_effect [OF q2] True by (auto split: option.splits)
      have rest: "write_pointer pe c p ?h (length rules) u2 = (r, u')"
        using assms(1,2) q1 None q2 True by (auto simp: write_all_def Let_def sha256Hex_def split: option.splits)
      note e3 = write_pointer_effect [OF rest assms(2) sha256_hex_shape ok2 here]
      have g: "bucket_grows (ob u1) (ob u2)" "bucket_grows (ob u2) (ob u')" "bucket_grows (ob u) (ob u2)"
        using s2 s02 e3 rules(3) ok2 assms(4) by (auto simp: safe_def)
      then have "list_all (\<lambda>x. ob u' (yamlByHashPath (ru_hashHex x)) \<noteq> None) rules"
        using rules(2) by (auto simp: list_all_iff bucket_grows_def)
      moreover have "gen_of (ob u pointerPath) \<le> gen_of (ob u2 pointerPath)" using g by (simp add: bucket_grows_def)
      ultimately show ?thesis
        using e3 safe_trans [OF s02] by (cases r) (auto dest: arg_cong [of _ _ rs_ManifestHash] arg_cong [of _ _ rs_RulesetVersion] arg_cong [of _ _ rs_RulesPublished])
    next
      case False
      then obtain e where e: "q2 = Some e" by auto
      then have "\<not> errors_Is e ErrVerificationFailed \<and> \<not> errors_Is e ErrPreconditionFailed"
        using q2 write_new_error [of _ b "arrive pe u1" e] by (auto simp: call_write_def split: prod.splits)
      then show ?thesis
        using assms(1,2) q1 None q2 False e s02 by (auto simp: write_all_def Let_def sha256Hex_def store_error_defs)
    qed
  qed
qed

lemma Publish_effect:
  assumes "Publish pe fs d c p opts u = (r, u')" "pu_store p = st" "bucket_ok c (ob u)"
  shows "safe c (ob u) (ob u') \<and>
    (case r of
       Inl e \<Rightarrow> (errors_Is e ErrVerificationFailed \<longrightarrow> u' = u) \<and>
         (errors_Is e ErrPreconditionFailed \<longrightarrow> u' = u \<or> gen_of (ob u pointerPath) < gen_of (ob u' pointerPath))
     | Inr res \<Rightarrow> if op_DryRun opts then ob u' = objs (arrive pe u)
         else (\<exists>rules t b. verify_ruleset fs d p opts = Inr rules \<and> marshal_manifest c (build_manifest p rules t) = Inr b \<and>
           rs_ManifestHash res = sha256_hex b \<and> rs_RulesPublished res = length rules \<and>
           repointed c (sha256_hex b) (pu_rulesetVersion p) (rs_PointerGen res) (ob u') \<and>
           ob u' (manifestByHashPath (sha256_hex b)) \<noteq> None \<and>
           list_all (\<lambda>x. ob u' (yamlByHashPath (sha256_hex (ru_bytes x))) \<noteq> None) rules))"
proof (cases "verify_ruleset fs d p opts")
  case (Inl e)
  then show ?thesis using assms(1) by (auto simp: Publish_def)
next
  case (Inr rules)
  have ok: "list_all rule_ok rules" using verify_ruleset_ok [OF Inr] by simp
  obtain t u1 where t: "call_now pe u = (t, u1)" by (rule prod.exhaust)
  have s1: "safe c (ob u) (ob u1)" "ob u1 = objs (arrive pe u)" using reads_safe(3) [of u] t by (auto simp: call_now_def)
  then have ok1: "bucket_ok c (ob u1)" "bucket_grows (ob u) (ob u1)" using assms(3) by (auto simp: safe_def)
  show ?thesis
  proof (cases "marshal_manifest c (build_manifest p rules t)")
    case (Inl e)
    then have "sdk_error e" using foreign by (simp add: codec_errors_def)
    then show ?thesis using assms(1) Inr t Inl s1 by (auto simp: Publish_def sdk_error_def store_error_defs)
  next
    case b: (Inr b)
    show ?thesis
    proof (cases "op_DryRun opts")
      case True
      then show ?thesis using assms(1) Inr t b s1 by (auto simp: Publish_def)
    next
      case False
      then have w: "write_all pe c p (sort_key ru_entity rules) b u1 = (r, u')" using assms(1) Inr t b by (simp add: Publish_def)
      have "list_all rule_ok (sort_key ru_entity rules)" using ok by (simp add: list_all_iff)
      note e = write_all_effect [OF w assms(2) this ok1(1)]
      have h: "list_all (\<lambda>x. ob u' (yamlByHashPath (ru_hashHex x)) \<noteq> None) (sort_key ru_entity rules) \<longleftrightarrow>
          list_all (\<lambda>x. ob u' (yamlByHashPath (sha256_hex (ru_bytes x))) \<noteq> None) rules"
        using ok by (auto simp: list_all_iff rule_ok_def)
      have g: "gen_of (ob u pointerPath) \<le> gen_of (ob u1 pointerPath)" using ok1 by (simp add: bucket_grows_def)
      have s: "safe c (ob u) (ob u')" using safe_trans [OF s1(1)] e by blast
      show ?thesis
      proof (cases r)
        case (Inl er)
        then show ?thesis using e s g by auto
      next
        case res: (Inr res)
        then show ?thesis using e s h False Inr b by auto
      qed
    qed
  qed
qed

lemma readPriorPointer_effect:
  assumes "readPriorPointer pe c r u = (q, u')" "rb_store r = st" "bucket_ok c (ob u)"
  shows "safe c (ob u) (ob u') \<and>
    (case q of
       Inl e \<Rightarrow> \<not> errors_Is e ErrVerificationFailed \<and> \<not> errors_Is e ErrPreconditionFailed
     | Inr (p, n) \<Rightarrow> gen_of (ob u pointerPath) \<le> n \<and> n \<le> gen_of (ob u' pointerPath))"
proof -
  obtain g u1 where g: "call_gen pe st pointerPath u = (g, u1)" by (rule prod.exhaust)
  note e1 = call_gen_effect [OF g]
  then have g1: "bucket_ok c (ob u1)" "gen_of (ob u pointerPath) \<le> gen_of (ob u1 pointerPath)"
    using assms(3) by (auto simp: safe_def bucket_grows_def)
  show ?thesis
  proof (cases g)
    case (Inl e)
    then show ?thesis using assms(1,2) g e1 by (auto simp: readPriorPointer_def store_error_defs)
  next
    case (Inr n)
    show ?thesis
    proof (cases "n = 0")
      case True
      then show ?thesis using assms(1,2) g Inr e1 g1 by (auto simp: readPriorPointer_def)
    next
      case False
      obtain b u2 where b: "call_read pe st pointerPath u1 = (b, u2)" by (rule prod.exhaust)
      have s12: "safe c (ob u1) (ob u2)" using reads_safe(2) [of u1 pointerPath] b by simp
      have s02: "safe c (ob u) (ob u2)" using safe_trans e1 s12 by blast
      have "gen_of (ob u1 pointerPath) \<le> gen_of (ob u2 pointerPath)" using s12 g1 by (simp add: safe_def bucket_grows_def)
      moreover have "b = Inl e \<Longrightarrow> \<not> errors_Is e ErrVerificationFailed \<and> \<not> errors_Is e ErrPreconditionFailed" for e
        using b read_obj_error by (auto simp: call_read_def)
      moreover have "unmarshal_pointer c x = Inl e \<Longrightarrow> sdk_error e" for x e using foreign by (simp add: codec_errors_def)
      ultimately show ?thesis
        using assms(1,2) g Inr False b s02 e1 g1
        by (cases b) (auto simp: readPriorPointer_def store_error_defs sdk_error_def split: sum.splits)
    qed
  qed
qed

lemma repoint_effect:
  assumes "repoint pe c r opts m u = (q, u')" "rb_store r = st" "bucket_ok c (ob u)"
    and h: "is_hash_hex (ro_TargetHashHex opts)" "ob u (manifestByHashPath (ro_TargetHashHex opts)) \<noteq> None"
  shows "safe c (ob u) (ob u') \<and>
    (case q of
       Inl e \<Rightarrow> \<not> errors_Is e ErrVerificationFailed \<and>
         (errors_Is e ErrPreconditionFailed \<longrightarrow> gen_of (ob u pointerPath) < gen_of (ob u' pointerPath))
     | Inr res \<Rightarrow> rr_TargetHash res = ro_TargetHashHex opts \<and> rr_TargetRulesetVer res = mf_ruleset_version m \<and>
         (ro_DryRun opts \<or> repointed c (ro_TargetHashHex opts) (mf_ruleset_version m) (rr_PostPointerGen res) (ob u')))"
proof -
  obtain g u1 where g: "readPriorPointer pe c r u = (g, u1)" by (rule prod.exhaust)
  note e1 = readPriorPointer_effect [OF g assms(2,3)]
  show ?thesis
  proof (cases g)
    case (Inl e)
    then show ?thesis using assms(1) g e1 by (auto simp: repoint_def store_error_defs)
  next
    case (Inr pn)
    obtain prior n where pn: "pn = (prior, n)" by (rule prod.exhaust)
    obtain t u2 where t: "call_now pe u1 = (t, u2)" by (rule prod.exhaust)
    let ?pt = "\<lparr>po_pointer_version = pointerSchemaVersion, po_manifest_hash = ''sha256:'' @ ro_TargetHashHex opts,
                 po_ruleset_version = mf_ruleset_version m, po_published_at = UTC t\<rparr>"
    have s12: "safe c (ob u1) (ob u2)" using reads_safe(3) [of u1] t by simp
    have s02: "safe c (ob u) (ob u2)" using safe_trans e1 s12 by blast
    have ok1: "bucket_ok c (ob u1)" using e1 assms(3) by (simp add: safe_def)
    then have gens: "gen_of (ob u pointerPath) \<le> n" "n \<le> gen_of (ob u2 pointerPath)"
      using e1 Inr pn s12 by (auto simp: safe_def bucket_grows_def)
    show ?thesis
    proof (cases "marshal_pointer c ?pt")
      case (Inl e)
      then show ?thesis
        using assms(1) g Inr pn t s02 marshal_pointer_error [OF Inl]
        by (auto simp: repoint_def Let_def sdk_error_def store_error_defs)
    next
      case b: (Inr b)
      show ?thesis
      proof (cases "ro_DryRun opts")
        case True
        then show ?thesis using assms(1) g Inr pn t s02 b by (auto simp: repoint_def Let_def)
      next
        case False
        obtain k u3 where k: "call_cas pe st pointerPath b n u2 = (k, u3)" by (rule prod.exhaust)
        from cas_sequence [OF k b _ _ h(1) s02 assms(3) h(2) gens]
        have s: "safe c (ob u) (ob u3)" "case k of
             Inl e \<Rightarrow> \<not> errors_Is e ErrVerificationFailed \<and>
               (errors_Is e ErrPreconditionFailed \<longrightarrow> gen_of (ob u pointerPath) < gen_of (ob u3 pointerPath))
           | Inr j \<Rightarrow> repointed c (ro_TargetHashHex opts) (mf_ruleset_version m) j (ob u3)"
          by (simp_all add: pointerSchemaVersion_def split: sum.splits)
        show ?thesis
          using s assms(1,2) g Inr pn t b False k by (cases k) (auto simp: repoint_def Let_def store_error_defs)
      qed
    qed
  qed
qed

lemma Execute_effect:
  assumes "Execute pe c r opts u = (q, u')" "rb_store r = st" "bucket_ok c (ob u)"
  shows "safe c (ob u) (ob u') \<and>
    (case q of
       Inl e \<Rightarrow> (errors_Is e ErrVerificationFailed \<longrightarrow> u' = u \<or> ob u' = objs (arrive pe u)) \<and>
         (errors_Is e ErrPreconditionFailed \<longrightarrow> gen_of (ob u pointerPath) < gen_of (ob u' pointerPath))
     | Inr res \<Rightarrow> rr_TargetHash res = ro_TargetHashHex opts \<and>
         (\<exists>body n m. ob u' (manifestByHashPath (ro_TargetHashHex opts)) = Some (body, n) \<and>
            sha256_hex body = ro_TargetHashHex opts \<and> unmarshal_manifest c body = Inr m \<and>
            mf_ruleset_version m \<noteq> [] \<and> rr_TargetRulesetVer res = mf_ruleset_version m \<and>
            (ro_DryRun opts \<or> repointed c (ro_TargetHashHex opts) (mf_ruleset_version m) (rr_PostPointerGen res) (ob u'))))"
proof (cases "is_hash_hex (ro_TargetHashHex opts)")
  case False
  then show ?thesis using assms(1) by (auto simp: Execute_def store_error_defs)
next
  case hex: True
  let ?k = "manifestByHashPath (ro_TargetHashHex opts)"
  obtain b u1 where b: "call_read pe st ?k u = (b, u1)" by (rule prod.exhaust)
  have s1: "safe c (ob u) (ob u1)" "ob u1 = objs (arrive pe u)" using reads_safe(2) [of u ?k] b by (auto simp: call_read_def)
  then have ok1: "bucket_ok c (ob u1)" "bucket_grows (ob u) (ob u1)" using assms(3) by (auto simp: safe_def)
  show ?thesis
  proof (cases b)
    case (Inl e)
    then have "\<not> errors_Is e ErrVerificationFailed \<and> \<not> errors_Is e ErrPreconditionFailed"
      using b read_obj_error by (auto simp: call_read_def)
    then show ?thesis
      using assms(1,2) hex b Inl s1 by (auto simp: Execute_def Let_def store_error_defs split: if_splits)
  next
    case (Inr body)
    obtain n where n: "ob u1 ?k = Some (body, n)" using b Inr read_obj_ok [of ?k "arrive pe u" body] by (auto simp: call_read_def)
    have sha: "sha256_hex body = ro_TargetHashHex opts"
      using ok1(1) n by (auto simp: bucket_ok_def content_addressed_def)
    show ?thesis
    proof (cases "unmarshal_manifest c body")
      case (Inl e)
      then have "sdk_error e" using foreign by (simp add: codec_errors_def)
      then show ?thesis using assms(1,2) hex b Inr Inl s1 by (auto simp: Execute_def Let_def store_error_defs sdk_error_def)
    next
      case m: (Inr m)
      show ?thesis
      proof (cases "mf_ruleset_version m = []")
        case True
        then show ?thesis using assms(1,2) hex b Inr m s1 by (auto simp: Execute_def Let_def store_error_defs)
      next
        case False
        then have rp: "repoint pe c r opts m u1 = (q, u')" using assms(1,2) hex b Inr m by (simp add: Execute_def)
        note e = repoint_effect [OF rp assms(2) ok1(1) hex]
        have e: "safe c (ob u1) (ob u') \<and> (case q of
           Inl e \<Rightarrow> \<not> errors_Is e ErrVerificationFailed \<and>
             (errors_Is e ErrPreconditionFailed \<longrightarrow> gen_of (ob u1 pointerPath) < gen_of (ob u' pointerPath))
         | Inr res \<Rightarrow> rr_TargetHash res = ro_TargetHashHex opts \<and> rr_TargetRulesetVer res = mf_ruleset_version m \<and>
             (ro_DryRun opts \<or> repointed c (ro_TargetHashHex opts) (mf_ruleset_version m) (rr_PostPointerGen res) (ob u')))"
          using e n by blast
        have "ob u' ?k = Some (body, n)" using e ok1(1) n by (auto simp: safe_def bucket_grows_def)
        moreover have "gen_of (ob u pointerPath) \<le> gen_of (ob u1 pointerPath)" using ok1(2) by (simp add: bucket_grows_def)
        ultimately show ?thesis using e safe_trans [OF s1(1)] sha m False by (cases q) auto
      qed
    qed
  qed
qed

end

section \<open>The control plane over Google Cloud Storage\<close>

context gcs_bucket
begin

lemma read_stored: "ReadObject g k s = Inr b' \<Longrightarrow> objs s k = Some (b, n) \<Longrightarrow> b' = b"
  using st.read_obj_ok by fastforce

end

text \<open>A publisher or rollback process over the bucket is such a process, with the operations of \<^verbatim>\<open>GCSStore\<close>.\<close>

locale gcs_process = gcs_bucket g objs for g :: "'s gcs" and objs +
  fixes c :: codec and pe :: "'s process_env"
  assumes roundtrip: "codec_roundtrip c"
    and foreign: "codec_errors c"
    and rely: "safe c (objs s) (objs (pe_env pe t s))"

sublocale gcs_process \<subseteq> cp: control_plane "WriteIfNotExists g" "ReadObject g" "ReadPointerGeneration g" "CASWritePointer g" objs c pe
  using roundtrip foreign rely by unfold_locales

context gcs_process
begin

lemmas cp_Publish_effect = cp.Publish_effect
lemmas cp_Execute_effect = cp.Execute_effect

end

text \<open>
  The setting of the properties below: a bucket, a codec, and other processes that take only steps
  the invariant permits.
\<close>

definition control_setting :: "'s gcs \<Rightarrow> ('s \<Rightarrow> objects) \<Rightarrow> codec \<Rightarrow> 's process_env \<Rightarrow> bool" where
  "control_setting g objs c pe \<longleftrightarrow>
    gcs_bucket g objs \<and> codec_roundtrip c \<and> codec_errors c \<and> (\<forall>s t. safe c (objs s) (objs (pe_env pe t s)))"

lemma control_setting_process: "control_setting g objs c pe \<longleftrightarrow> gcs_process g objs c pe"
  by (auto simp: control_setting_def gcs_process_def gcs_process_axioms_def)

lemmas gcs_Publish_effect = gcs_process.cp_Publish_effect [folded control_setting_process NewGCSStore_def]
lemmas gcs_Execute_effect = gcs_process.cp_Execute_effect [folded control_setting_process NewGCSStore_def]

text \<open>A quiet neighbourhood, an in-memory bucket and a codec for one manifest and one pointer.\<close>

definition alone :: "'s process_env" where
  "alone = \<lparr>pe_env = (\<lambda>t s. s), pe_clock = (\<lambda>t. 0)\<rparr>"

definition empty_bucket :: bucket where
  "empty_bucket = \<lparr>bk_objects = Map.empty, bk_writes = 0\<rparr>"

definition single_codec :: "Manifest \<Rightarrow> Pointer \<Rightarrow> codec" where
  "single_codec m0 p0 =
    \<lparr>marshal_manifest = (\<lambda>m. if m = m0 then Inr ''M'' else Inl (errors_New ''json: unsupported value'')),
     unmarshal_manifest = (\<lambda>b. if b = ''M'' then Inr m0 else Inl (errors_New ''invalid character'')),
     marshal_pointer = (\<lambda>p. if p = p0 then Inr ''P'' else Inl (errors_New ''json: unsupported value'')),
     unmarshal_pointer = (\<lambda>b. if b = ''P'' then Inr p0 else Inl (errors_New ''invalid character''))\<rparr>"

lemma single_codec_laws: "codec_roundtrip (single_codec m0 p0)" "codec_errors (single_codec m0 p0)"
  by (auto simp: codec_roundtrip_def codec_errors_def single_codec_def sdk_error_def store_error_defs)

lemma alone_setting: "control_setting mem_client mem_objects (single_codec m0 p0) alone"
  using single_codec_laws by (simp add: control_setting_def alone_def mem.gcs_bucket_axioms)

interpretation alone: gcs_process mem_client mem_objects "single_codec m0 p0" alone for m0 p0
  using alone_setting by (simp add: control_setting_process)

lemma empty_bucket_ok: "bucket_ok c (mem_objects empty_bucket)"
  by (simp add: bucket_ok_def content_addressed_def pointer_resolves_def mem_objects_def empty_bucket_def)

text \<open>A ruleset of one file.\<close>

definition one_rule_os :: os where
  "one_rule_os = \<lparr>os_Stat = (\<lambda>p. Inr True),
     os_ReadFile = (\<lambda>p. if p = ''r/a.yaml'' then Inr ''A'' else Inl os_ErrNotExist),
     os_EvalSymlinks = (\<lambda>p. Inr p), os_Getwd = Inr ''/'', os_tree = (\<lambda>p. Inr (Directory None [(''a.yaml'', File)]))\<rparr>"

definition one_rule_decoders :: decoders where
  "one_rule_decoders = \<lparr>yaml_header = (\<lambda>b. Inr (''orders'', 1)), yaml_catalog = (\<lambda>b. Inr []),
     yaml_map = (\<lambda>b. Inr []), yaml_any = (\<lambda>b. Inr ANil), json_any = (\<lambda>b. Inr ANil),
     yaml_marshal = (\<lambda>m. Inr []), fmt_v = (\<lambda>v. [])\<rparr>"

definition demo_publisher :: "bucket Publisher" where
  "demo_publisher = \<lparr>pu_store = NewGCSStore mem_client, pu_rulesetVersion = ''rules-v1'', pu_engineCompatibility = ''*'',
     pu_linterUsed = ''l'', pu_schemaMirrorDir = ''s'', pu_supportedSchemaVersions = [1]\<rparr>"

definition demo_options :: Options where
  "demo_options = \<lparr>op_RulesDir = ''r'', op_DryRun = False\<rparr>"

definition demo_rule :: rule where
  "demo_rule = \<lparr>ru_path = ''r/a.yaml'', ru_entity = ''orders'', ru_version = 1, ru_bytes = ''A'', ru_hashHex = sha256_hex ''A''\<rparr>"

lemma demo_verify: "verify_ruleset one_rule_os one_rule_decoders demo_publisher demo_options = Inr [demo_rule]"
proof -
  have "loadCatalogKindRefs one_rule_os one_rule_decoders (Join [''s'', ''catalog.v1.yaml'']) = Inr []"
    by (simp add: loadCatalogKindRefs_def one_rule_os_def path_eval os_ErrNotExist_def)
  moreover have "collectRules one_rule_os one_rule_decoders ''r'' [] = Inr [demo_rule]"
    by (simp add: collectRules_def one_rule_os_def one_rule_decoders_def WalkDir_def collect_visit_def path_eval Base_def
        HasSuffix_def inlineExternalRefs_def demo_rule_def sha256Hex_def)
  ultimately show ?thesis
    by (simp add: verify_ruleset_def demo_publisher_def demo_options_def rejectDuplicateEntities_def observedSchemaVersions_def
        demo_rule_def verifySupportedSchemaVersions_def verifySchemaMirrorPresent_def one_rule_os_def)
qed

definition demo_manifest :: Manifest where
  "demo_manifest = build_manifest demo_publisher [demo_rule] 0"

definition demo_pointer :: Pointer where
  "demo_pointer = \<lparr>po_pointer_version = 1, po_manifest_hash = ''sha256:'' @ sha256_hex ''M'',
     po_ruleset_version = ''rules-v1'', po_published_at = 0\<rparr>"

abbreviation demo_codec :: codec where
  "demo_codec \<equiv> single_codec demo_manifest demo_pointer"

lemma mem_create:
  "bk_objects s k = None \<Longrightarrow>
    WriteIfNotExists mem_client k b s = (None, \<lparr>bk_objects = (bk_objects s)(k \<mapsto> (b, bk_writes s)), bk_writes = bk_writes s + 1\<rparr>)"
  by (simp add: WriteIfNotExists_def mem_client_def meets_def mem_objects_def next_gen_def)

lemma mem_no_gen: "bk_objects s k = None \<Longrightarrow> ReadPointerGeneration mem_client k s = Inr 0"
  by (simp add: ReadPointerGeneration_def mem_client_def)

lemma mem_first_cas:
  "bk_objects s k = None \<Longrightarrow>
    CASWritePointer mem_client k b 0 s =
      (Inr (int (bk_writes s) + 1), \<lparr>bk_objects = (bk_objects s)(k \<mapsto> (b, bk_writes s)), bk_writes = bk_writes s + 1\<rparr>)"
  by (simp add: CASWritePointer_def mem_client_def meets_def mem_objects_def next_gen_def)

text \<open>The first publication into an empty bucket: three objects, the pointer last.\<close>

definition published_bucket :: bucket where
  "published_bucket =
    \<lparr>bk_objects = [yamlByHashPath (sha256_hex ''A'') \<mapsto> (''A'', 0), manifestByHashPath (sha256_hex ''M'') \<mapsto> (''M'', 1),
       pointerPath \<mapsto> (''P'', 2)], bk_writes = 3\<rparr>"

lemma demo_Publish:
  "Publish alone one_rule_os one_rule_decoders demo_codec demo_publisher demo_options (empty_bucket, 0) =
    (Inr \<lparr>rs_ManifestHash = sha256_hex ''M'', rs_RulesetVersion = ''rules-v1'', rs_RulesPublished = 1, rs_PointerGen = 3\<rparr>,
     (published_bucket, 6))"
proof -
  have m: "marshal_manifest demo_codec (build_manifest demo_publisher [demo_rule] 0) = Inr ''M''"
    by (simp add: single_codec_def demo_manifest_def)
  have p: "marshal_pointer demo_codec \<lparr>po_pointer_version = pointerSchemaVersion, po_manifest_hash = ''sha256:'' @ sha256_hex ''M'',
      po_ruleset_version = ''rules-v1'', po_published_at = UTC 0\<rparr> = Inr ''P''"
    by (simp add: single_codec_def demo_pointer_def pointerSchemaVersion_def)
  have st: "pu_store demo_publisher = NewGCSStore mem_client" "pu_rulesetVersion demo_publisher = ''rules-v1''"
    by (simp_all add: demo_publisher_def)
  have dry: "\<not> op_DryRun demo_options" by (simp add: demo_options_def)
  show ?thesis
    using m p
    by (simp add: Publish_def demo_verify dry call_now_def alone_def arrive_def write_all_def sha256Hex_def st
        call_write_def call_gen_def call_cas_def NewGCSStore_def write_pointer_def demo_rule_def
        mem_create mem_no_gen mem_first_cas empty_bucket_def published_bucket_def Let_def numeral_eq_Suc)
qed

section \<open>Properties\<close>

text \<open>
  C16. Whatever the other processes do within the rules, a publication and a rollback keep the bucket's
  invariant on every path, failures and failed-but-applied writes included: every by-hash object has
  the digest its key claims and never changes once present, the pointer names a body that exists, and
  its generation never goes back.
\<close>

theorem control_plane_invariant:
  assumes "control_setting g objs c pe" "bucket_ok c (objs (fst u))"
  shows "(pu_store p = NewGCSStore g \<longrightarrow>
      bucket_ok c (objs (fst (snd (Publish pe fs d c p opts u)))) \<and>
      bucket_grows (objs (fst u)) (objs (fst (snd (Publish pe fs d c p opts u))))) \<and>
    (rb_store r = NewGCSStore g \<longrightarrow>
      bucket_ok c (objs (fst (snd (Execute pe c r ropts u)))) \<and>
      bucket_grows (objs (fst u)) (objs (fst (snd (Execute pe c r ropts u)))))"
proof -
  have "safe c (objs (fst u)) (objs (fst (snd (Publish pe fs d c p opts u))))" if "pu_store p = NewGCSStore g"
    using gcs_Publish_effect [OF assms(1) prod.collapse [symmetric] that assms(2)] by blast
  moreover have "safe c (objs (fst u)) (objs (fst (snd (Execute pe c r ropts u))))" if "rb_store r = NewGCSStore g"
    using gcs_Execute_effect [OF assms(1) prod.collapse [symmetric] that assms(2)] by blast
  ultimately show ?thesis using assms(2) by (auto simp: safe_def)
qed

theorem control_plane_invariant_witness:
  "bucket_ok demo_codec (mem_objects published_bucket) \<and>
   bucket_grows (mem_objects empty_bucket) (mem_objects published_bucket)"
  using control_plane_invariant [OF alone_setting, of demo_manifest demo_pointer "(empty_bucket, 0)" demo_publisher
      one_rule_os one_rule_decoders demo_options "\<lparr>rb_store = NewGCSStore mem_client\<rparr>" undefined]
  by (simp add: demo_Publish empty_bucket_ok) (simp add: demo_publisher_def)

text \<open>The engine's loader over the same bucket: the \<^verbatim>\<open>GCSStore\<close> of its own package, which reads as the publisher's does.\<close>

definition engine_ReadObject :: "'s gcs \<Rightarrow> string \<Rightarrow> 's \<Rightarrow> string result" where
  "engine_ReadObject g key s =
    (case g_open_err g key s of
       Some err \<Rightarrow>
         (if errors_Is err ErrObjectNotExist then Inl (Errorf ''%s: %w'' [S key, W ErrObjectNotFound])
          else Inl (Errorf ''open reader for %s: %w'' [S key, W err]))
     | None \<Rightarrow> (case g_body g key s of Inl err \<Rightarrow> Inl (Errorf ''read %s: %w'' [S key, W err]) | Inr data \<Rightarrow> Inr data))"

lemma engine_ReadObject_eq: "engine_ReadObject = ReadObject"
  by (intro ext) (simp add: engine_ReadObject_def ReadObject_def)

definition bucket_reader :: "'s gcs \<Rightarrow> (nat \<Rightarrow> 's) \<Rightarrow> object_reader" where
  "bucket_reader g obs = (\<lambda>k t. engine_ReadObject g k (obs t))"

lemma bucket_reader_eq: "bucket_reader g obs k t = ReadObject g k (obs t)"
  by (simp add: bucket_reader_def engine_ReadObject_eq)

definition reads_available :: "'s gcs \<Rightarrow> ('s \<Rightarrow> objects) \<Rightarrow> bool" where
  "reads_available g objs \<longleftrightarrow> (\<forall>k s. objs s k \<noteq> None \<longrightarrow> \<not> isl (ReadObject g k s))"

lemma read_present:
  assumes "gcs_bucket g objs" "reads_available g objs" "objs s k = Some (b, n)"
  shows "ReadObject g k s = Inr b"
proof (cases "ReadObject g k s")
  case (Inl e)
  then show ?thesis using assms(2,3) by (force simp: reads_available_def)
next
  case (Inr b')
  then show ?thesis using gcs_bucket.read_stored [OF assms(1) Inr assms(3)] by simp
qed

text \<open>
  C17. What is published is what is loaded. After a successful publication the object under the
  manifest's content-addressed key has the manifest's digest; unless it is a different byte string
  with that digest, a loader that reads the pointer now and the body at any later permitted state
  returns exactly the published manifest with its hash, if the manifest passes the contract checks,
  and the contract error otherwise.
\<close>

theorem publish_then_load:
  assumes "control_setting g objs c pe" "reads_available g objs" "bucket_ok c (objs (fst u))"
    and "pu_store p = NewGCSStore g" "\<not> op_DryRun opts" "Publish pe fs d c p opts u = (Inr res, u')"
    and "lo_store l = bucket_reader g obs" "lo_pointerKey l = pointerPath" "lo_bodyPrefix l = ''manifests/by-hash/''"
    and "objs (obs (tick w)) = objs (fst u')" "bucket_grows (objs (fst u')) (objs (obs (tick w + 1)))"
  shows "\<exists>rules t b b' n. verify_ruleset fs d p opts = Inr rules \<and>
    marshal_manifest c (build_manifest p rules t) = Inr b \<and> rs_ManifestHash res = sha256_hex b \<and>
    objs (fst u') (manifestByHashPath (sha256_hex b)) = Some (b', n) \<and> sha256_hex b' = sha256_hex b \<and>
    (b' = b \<longrightarrow> fst (Load c sv l w) =
      (case runContractChecks sv (build_manifest p rules t) (lo_engineVersion l) (lo_supportedMV l) (lo_supportedSV l) of
         None \<Rightarrow> Inr (Manifest.extend (build_manifest p rules t) (LoadedManifest.fields (sha256_hex b)))
       | Some e \<Rightarrow> Inl e))"
proof -
  have bucket: "gcs_bucket g objs" "codec_roundtrip c" using assms(1) by (auto simp: control_setting_def)
  have "\<exists>rules t b. verify_ruleset fs d p opts = Inr rules \<and> marshal_manifest c (build_manifest p rules t) = Inr b \<and>
      rs_ManifestHash res = sha256_hex b \<and> repointed c (sha256_hex b) (pu_rulesetVersion p) (rs_PointerGen res) (objs (fst u')) \<and>
      objs (fst u') (manifestByHashPath (sha256_hex b)) \<noteq> None \<and> safe c (objs (fst u)) (objs (fst u'))"
    using gcs_Publish_effect [OF assms(1,6,4,3)] unfolding sum.case if_not_P [OF assms(5)] by blast
  then obtain rules t b where pub: "verify_ruleset fs d p opts = Inr rules" "marshal_manifest c (build_manifest p rules t) = Inr b"
    "rs_ManifestHash res = sha256_hex b" "repointed c (sha256_hex b) (pu_rulesetVersion p) (rs_PointerGen res) (objs (fst u'))"
    "objs (fst u') (manifestByHashPath (sha256_hex b)) \<noteq> None" "safe c (objs (fst u)) (objs (fst u'))" by blast
  obtain b' n where b': "objs (fst u') (manifestByHashPath (sha256_hex b)) = Some (b', n)" using pub(5) by auto
  have sha: "sha256_hex b' = sha256_hex b"
  proof -
    have "content_addressed (objs (fst u'))" using pub(6) assms(3) by (simp add: safe_def bucket_ok_def)
    then show ?thesis using b' unfolding content_addressed_def by blast
  qed
  obtain pb pt where pt: "objs (fst u') pointerPath = Some (pb, rs_PointerGen res)" "unmarshal_pointer c pb = Inr pt"
    "po_pointer_version pt = 1" "po_manifest_hash pt = ''sha256:'' @ sha256_hex b" using pub(4) by (auto simp: repointed_def)
  have strip: "stripSha256Prefix (po_manifest_hash pt) = Inr (sha256_hex b)"
    unfolding stripSha256Prefix_ok using pt(4) sha256_hex_shape by simp
  have "ReadObject g pointerPath (obs (tick w)) = Inr pb"
    by (rule read_present [OF bucket(1) assms(2)]) (use assms(10) pt(1) in simp)
  then have rp: "fst (readPointer c l w) = Inr pt"
    unfolding readPointer_ok using assms(7,8) pt strip by (simp add: bucket_reader_eq)
  have "objs (obs (tick w + 1)) (manifestByHashPath (sha256_hex b)) = Some (b', n)"
    using assms(11) b' by (auto simp: bucket_grows_def)
  then have body: "ReadObject g (manifestByHashPath (sha256_hex b)) (obs (tick w + 1)) = Inr b'"
    by (rule read_present [OF bucket(1) assms(2)])
  have "fst (fetchAndVerify c sv l pt (step w)) =
      (case runContractChecks sv (build_manifest p rules t) (lo_engineVersion l) (lo_supportedMV l) (lo_supportedSV l) of
         None \<Rightarrow> Inr (Manifest.extend (build_manifest p rules t) (LoadedManifest.fields (sha256_hex b)))
       | Some e \<Rightarrow> Inl e)" if "b' = b"
    by (rule fetchAndVerify_stored [OF strip _ refl])
      (use body that assms(7,9) bucket(2) pub(2) in \<open>simp_all add: manifestByHashPath_def bucket_reader_eq codec_roundtrip_def\<close>)
  then show ?thesis using pub b' sha rp by (intro exI [of _ rules] exI [of _ t] exI [of _ b] exI [of _ b'] exI [of _ n]) (simp add: Load_eq)
qed

definition demo_loader :: "unit Loader" where
  "demo_loader = \<lparr>lo_store = bucket_reader mem_client (\<lambda>t. published_bucket),
     lo_engineVersion = (), lo_supportedMV = [1], lo_supportedSV = [1], lo_pointerKey = pointerPath,
     lo_bodyPrefix = ''manifests/by-hash/'', lo_metrics = True\<rparr>"

lemma mem_reads_available: "reads_available mem_client mem_objects"
  by (auto simp: reads_available_def ReadObject_def mem_client_def mem_objects_def split: option.splits)

theorem publish_then_load_witness:
  "fst (Load demo_codec any_version demo_loader empty_world) =
    Inr (Manifest.extend demo_manifest (LoadedManifest.fields (sha256_hex ''M'')))"
proof -
  have l: "lo_store demo_loader = bucket_reader mem_client (\<lambda>t. published_bucket)" "lo_pointerKey demo_loader = pointerPath"
    "lo_bodyPrefix demo_loader = ''manifests/by-hash/''" by (simp_all add: demo_loader_def)
  have p: "pu_store demo_publisher = NewGCSStore mem_client" "\<not> op_DryRun demo_options"
    by (simp_all add: demo_publisher_def demo_options_def)
  have ok: "bucket_ok demo_codec (mem_objects (fst (empty_bucket, 0::nat)))" by (simp add: empty_bucket_ok)
  obtain rules t b b' n where r: "marshal_manifest demo_codec (build_manifest demo_publisher rules t) = Inr b"
    "mem_objects published_bucket (manifestByHashPath (sha256_hex b)) = Some (b', n)"
    "b' = b \<longrightarrow> fst (Load demo_codec any_version demo_loader empty_world) =
      (case runContractChecks any_version (build_manifest demo_publisher rules t) (lo_engineVersion demo_loader)
          (lo_supportedMV demo_loader) (lo_supportedSV demo_loader) of
         None \<Rightarrow> Inr (Manifest.extend (build_manifest demo_publisher rules t) (LoadedManifest.fields (sha256_hex b)))
       | Some e \<Rightarrow> Inl e)"
    using publish_then_load [OF alone_setting mem_reads_available ok p demo_Publish l, where w = empty_world and sv = any_version]
    by auto
  have m: "b = ''M''" "build_manifest demo_publisher rules t = demo_manifest"
    using r(1) by (auto simp: single_codec_def split: if_splits)
  have "b' = b" using r(2) m(1) by (simp add: mem_objects_def published_bucket_def)
  moreover have "runContractChecks any_version demo_manifest () [1] [1] = None"
    by (simp add: runContractChecks_None compatible_def any_version_def demo_manifest_def build_manifest_def
        manifestSchemaVersion_def demo_rule_def)
  ultimately show ?thesis using r(3) m by (simp add: demo_loader_def)
qed

theorem build_manifest_deterministic_witness:
  "sorted_wrt (<) (map mr_entity (mf_rules demo_manifest)) \<and>
    mset (map (\<lambda>m. (mr_entity m, mr_yaml_hash m)) (mf_rules demo_manifest)) = {#(''orders'', sha256_hex ''A'')#}"
  using build_manifest_deterministic [OF demo_verify refl, of 0]
  by (simp add: demo_manifest_def demo_rule_def)

text \<open>
  A rollback that reports success has verified that the target body exists, has exactly the
  requested digest and decodes to a manifest with a ruleset version; unless it was a dry run, the
  pointer now names that digest and that version. No by-hash object is written or changed, and a
  lost CAS means that another process moved the pointer.
\<close>

theorem Execute_repoints:
  assumes "control_setting g objs c pe" "bucket_ok c (objs (fst u))" "rb_store r = NewGCSStore g"
    and "Execute pe c r opts u = (q, u')"
  shows "bucket_grows (objs (fst u)) (objs (fst u')) \<and>
    (case q of
       Inl e \<Rightarrow> (if errors_Is e ErrPreconditionFailed then gen_of (objs (fst u) pointerPath) < gen_of (objs (fst u') pointerPath) else True)
     | Inr res \<Rightarrow>
         (\<exists>body n m. objs (fst u') (manifestByHashPath (ro_TargetHashHex opts)) = Some (body, n) \<and>
            sha256_hex body = ro_TargetHashHex opts \<and> unmarshal_manifest c body = Inr m \<and>
            mf_ruleset_version m \<noteq> [] \<and> rr_TargetRulesetVer res = mf_ruleset_version m \<and>
            (if ro_DryRun opts then rr_TargetHash res = ro_TargetHashHex opts
             else repointed c (ro_TargetHashHex opts) (mf_ruleset_version m) (rr_PostPointerGen res) (objs (fst u')))))"
proof -
  note eff = gcs_Execute_effect [OF assms(1,4,3,2)]
  then have g: "bucket_grows (objs (fst u)) (objs (fst u'))" using assms(2) by (simp add: safe_def)
  show ?thesis
  proof (cases q)
    case (Inl e)
    then show ?thesis using eff g by simp
  next
    case (Inr res)
    then show ?thesis using eff g unfolding Inr sum.case by (cases "ro_DryRun opts") auto
  qed
qed

definition demo_target :: RollbackOptions where
  "demo_target = \<lparr>ro_TargetHashHex = sha256_hex ''M'', ro_DryRun = False\<rparr>"

definition repointed_bucket :: bucket where
  "repointed_bucket = \<lparr>bk_objects = (bk_objects published_bucket)(pointerPath \<mapsto> (''P'', 3)), bk_writes = 4\<rparr>"

lemma published_ok: "bucket_ok demo_codec (mem_objects published_bucket)"
proof -
  have "safe demo_codec (mem_objects empty_bucket) (mem_objects published_bucket)"
    using gcs_Publish_effect [OF alone_setting demo_Publish] empty_bucket_ok by (simp add: demo_publisher_def)
  then show ?thesis using empty_bucket_ok by (simp add: safe_def)
qed

lemma demo_Execute:
  "Execute alone demo_codec \<lparr>rb_store = NewGCSStore mem_client\<rparr> demo_target (published_bucket, 0) =
    (Inr \<lparr>rr_TargetHash = sha256_hex ''M'', rr_TargetRulesetVer = ''rules-v1'', rr_PriorHash = ''sha256:'' @ sha256_hex ''M'',
       rr_PriorRulesetVer = ''rules-v1'', rr_PriorPointerGen = 3, rr_PostPointerGen = 4\<rparr>, (repointed_bucket, 5))"
proof -
  have m: "unmarshal_manifest demo_codec ''M'' = Inr demo_manifest" "mf_ruleset_version demo_manifest = ''rules-v1''"
    by (simp_all add: single_codec_def demo_manifest_def build_manifest_def demo_publisher_def)
  have p: "unmarshal_pointer demo_codec ''P'' = Inr demo_pointer"
    "marshal_pointer demo_codec \<lparr>po_pointer_version = pointerSchemaVersion, po_manifest_hash = ''sha256:'' @ sha256_hex ''M'',
       po_ruleset_version = ''rules-v1'', po_published_at = UTC 0\<rparr> = Inr ''P''"
    by (simp_all add: single_codec_def demo_pointer_def pointerSchemaVersion_def)
  have body: "ReadObject mem_client (manifestByHashPath (sha256_hex ''M'')) published_bucket = Inr ''M''"
    "ReadObject mem_client pointerPath published_bucket = Inr ''P''"
    "ReadPointerGeneration mem_client pointerPath published_bucket = Inr 3"
    by (simp_all add: ReadObject_def ReadPointerGeneration_def mem_client_def published_bucket_def)
  have cas: "CASWritePointer mem_client pointerPath ''P'' 3 published_bucket = (Inr 4, repointed_bucket)"
    by (simp add: CASWritePointer_def mem_client_def meets_def mem_objects_def next_gen_def gen_of_def published_bucket_def
        repointed_bucket_def)
  show ?thesis
    using m p body cas sha256_hex_shape [of "''M''"]
    by (simp add: Execute_def repoint_def readPriorPointer_def call_read_def call_gen_def call_now_def call_cas_def alone_def
        arrive_def NewGCSStore_def demo_target_def Let_def demo_pointer_def numeral_eq_Suc)
qed

theorem Execute_repoints_witness:
  "repointed demo_codec (sha256_hex ''M'') ''rules-v1'' 4 (mem_objects repointed_bucket)"
proof -
  have "bucket_ok demo_codec (mem_objects (fst (published_bucket, 0::nat)))" by (simp add: published_ok)
  from Execute_repoints [OF alone_setting this _ demo_Execute]
  show ?thesis by (auto simp: demo_target_def)
qed

end
