(* ===== verification/Manifest_Cli.thy ===== *)
theory Manifest_Cli
  imports Control_Plane
begin

text \<open>
  The \<^verbatim>\<open>dq-manifest\<close> command (\<^verbatim>\<open>tools/manifest/main.go\<close>): the two subcommands over parsed flags and their
  exit-code contract. Flag parsing and the construction of the storage client are parameters: \<open>None\<close>
  is a usage error of \<^verbatim>\<open>flag.Parse\<close>, \<open>clientErr\<close> the error of \<^verbatim>\<open>newStorageClient\<close>.
\<close>

definition exitOK :: int where "exitOK = 0"
definition exitVerificationFail :: int where "exitVerificationFail = 1"
definition exitOperationalFail :: int where "exitOperationalFail = 2"
definition exitCASLost :: int where "exitCASLost = 3"
definition exitUsage :: int where "exitUsage = 64"

lemmas exit_codes = exitOK_def exitVerificationFail_def exitOperationalFail_def exitCASLost_def exitUsage_def

fun parse_ints :: "string list \<Rightarrow> int list \<Rightarrow> int list result" where
  "parse_ints [] out = Inr out"
| "parse_ints (p # ps) out =
    (let p = TrimSpace p
     in if p = [] then parse_ints ps out
        else case Atoi p of
          Inl e \<Rightarrow> Inl (Errorf ''invalid integer %q: %w'' [S p, W e])
        | Inr n \<Rightarrow>
            (if n \<le> 0 then Inl (Errorf ''supported schema version must be positive; got %d'' [S (show_int n)])
             else parse_ints ps (out @ [n])))"

definition parseIntList :: "string \<Rightarrow> int list result" where
  "parseIntList s =
    (case parse_ints (strings_Split s (CHR '','')) [] of
       Inl e \<Rightarrow> Inl e
     | Inr out \<Rightarrow> (if out = [] then Inl (errors_New ''supported schema versions list is empty'') else Inr out))"

record publish_flags =
  pf_rules :: string
  pf_schema_mirror :: string
  pf_bucket :: string
  pf_ruleset_version :: string
  pf_engine_compatibility :: string
  pf_linter_used :: string
  pf_supported_schema_versions :: string
  pf_dry_run :: bool

text \<open>The exit code of an error of \<^verbatim>\<open>Publish\<close> or \<^verbatim>\<open>Execute\<close>, by the sentinel it wraps.\<close>

definition error_exit :: "goerr \<Rightarrow> int" where
  "error_exit e =
    (if errors_Is e ErrVerificationFailed then exitVerificationFail
     else if errors_Is e ErrPreconditionFailed then exitCASLost
     else exitOperationalFail)"

definition runPublish ::
  "'s process_env \<Rightarrow> os \<Rightarrow> decoders \<Rightarrow> codec \<Rightarrow> 's gcs \<Rightarrow> goerr option \<Rightarrow> publish_flags option \<Rightarrow> 's proc \<Rightarrow> int \<times> 's proc" where
  "runPublish pe fs d c g clientErr flags u =
    (case flags of
       None \<Rightarrow> (exitUsage, u)
     | Some f \<Rightarrow>
         if pf_bucket f = [] \<or> pf_ruleset_version f = [] \<or> pf_engine_compatibility f = [] \<or> pf_linter_used f = []
         then (exitUsage, u)
         else case parseIntList (pf_supported_schema_versions f) of
           Inl e \<Rightarrow> (exitUsage, u)
         | Inr supported \<Rightarrow>
             (if clientErr \<noteq> None then (exitOperationalFail, u)
              else case New fs \<lparr>pc_Store = Some (NewGCSStore g), pc_RulesetVersion = pf_ruleset_version f,
                     pc_EngineCompatibility = pf_engine_compatibility f, pc_LinterUsed = pf_linter_used f,
                     pc_SchemaMirrorDir = pf_schema_mirror f, pc_SupportedSchemaVersions = supported\<rparr> of
                Inl e \<Rightarrow> (exitUsage, u)
              | Inr pub \<Rightarrow>
                  (case Publish pe fs d c pub \<lparr>op_RulesDir = pf_rules f, op_DryRun = pf_dry_run f\<rparr> u of
                     (Inl e, u) \<Rightarrow> (error_exit e, u)
                   | (Inr _, u) \<Rightarrow> (exitOK, u))))"

record pointer_flags =
  sf_bucket :: string
  sf_manifest_hash :: string
  sf_dry_run :: bool

definition runSetPointer ::
  "'s process_env \<Rightarrow> codec \<Rightarrow> 's gcs \<Rightarrow> goerr option \<Rightarrow> pointer_flags option \<Rightarrow> 's proc \<Rightarrow> int \<times> 's proc" where
  "runSetPointer pe c g clientErr flags u =
    (case flags of
       None \<Rightarrow> (exitUsage, u)
     | Some f \<Rightarrow>
         if sf_bucket f = [] \<or> sf_manifest_hash f = [] then (exitUsage, u)
         else if clientErr \<noteq> None then (exitOperationalFail, u)
         else case NewRollback \<lparr>rc_Store = Some (NewGCSStore g)\<rparr> of
           Inl e \<Rightarrow> (exitUsage, u)
         | Inr rb \<Rightarrow>
             (case Execute pe c rb \<lparr>ro_TargetHashHex = sf_manifest_hash f, ro_DryRun = sf_dry_run f\<rparr> u of
                (Inl e, u) \<Rightarrow> (error_exit e, u)
              | (Inr _, u) \<Rightarrow> (exitOK, u)))"

text \<open>
  \<^verbatim>\<open>main\<close> over \<^verbatim>\<open>os.Args\<close>: the subcommand and its exit status. \<open>parse\<close> is what the two flag sets make of the remaining
  arguments.
\<close>

definition manifest_main ::
  "(string list \<Rightarrow> publish_flags option) \<times> (string list \<Rightarrow> pointer_flags option) \<Rightarrow> 's process_env \<Rightarrow> os \<Rightarrow> decoders \<Rightarrow> codec \<Rightarrow>
   's gcs \<Rightarrow> goerr option \<Rightarrow> string list \<Rightarrow> 's proc \<Rightarrow> int \<times> 's proc" where
  "manifest_main parse pe fs d c g clientErr args u =
    (case args of
       _ # cmd # rest \<Rightarrow>
         (if cmd = ''publish'' then runPublish pe fs d c g clientErr (fst parse rest) u
          else if cmd = ''set-pointer'' then runSetPointer pe c g clientErr (snd parse rest) u
          else if cmd = ''-h'' \<or> cmd = ''--help'' \<or> cmd = ''help'' then (exitOK, u)
          else (exitUsage, u))
     | _ \<Rightarrow> (exitUsage, u))"

section \<open>The exit-code contract\<close>

lemma parse_ints_positive: "parse_ints ps out = Inr ns \<Longrightarrow> list_all (\<lambda>n. 0 < n) out \<Longrightarrow> list_all (\<lambda>n. 0 < n) ns"
  by (induction ps out rule: parse_ints.induct) (auto simp: Let_def split: if_splits sum.splits)

lemma New_ok:
  assumes "New fs cfg = Inr p"
  shows "pc_Store cfg = Some (pu_store p) \<and> pu_rulesetVersion p = pc_RulesetVersion cfg \<and>
    CHR ''|'' \<notin> set (pu_rulesetVersion p) \<and> pu_rulesetVersion p \<noteq> []"
  using assms by (auto simp: New_def ContainsRune_def split: option.splits sum.splits if_splits)

lemma runPublish_cases:
  assumes "runPublish pe fs d c g ce flags u = (x, u')"
  obtains (early) "x \<in> {exitUsage, exitOperationalFail}" "u' = u"
  | (failed) p opts e where "pu_store p = NewGCSStore g" "Publish pe fs d c p opts u = (Inl e, u')" "x = error_exit e"
  | (ok) f p res where "flags = Some f" "pu_store p = NewGCSStore g" "pu_rulesetVersion p = pf_ruleset_version f" "x = exitOK"
      "Publish pe fs d c p \<lparr>op_RulesDir = pf_rules f, op_DryRun = pf_dry_run f\<rparr> u = (Inr res, u')"
proof (cases flags)
  case None
  then show ?thesis using assms early by (auto simp: runPublish_def)
next
  case (Some f)
  show ?thesis
  proof (cases "u' = u \<and> x \<in> {exitUsage, exitOperationalFail}")
    case True
    then show ?thesis using early by blast
  next
    case False
    then obtain supported where s: "parseIntList (pf_supported_schema_versions f) = Inr supported"
      using assms Some by (auto simp: runPublish_def split: sum.splits if_splits)
    let ?cfg = "\<lparr>pc_Store = Some (NewGCSStore g), pc_RulesetVersion = pf_ruleset_version f,
                 pc_EngineCompatibility = pf_engine_compatibility f, pc_LinterUsed = pf_linter_used f,
                 pc_SchemaMirrorDir = pf_schema_mirror f, pc_SupportedSchemaVersions = supported\<rparr>"
    obtain p where p: "New fs ?cfg = Inr p"
      using assms Some False s by (auto simp: runPublish_def split: sum.splits if_splits)
    then have st: "pu_store p = NewGCSStore g" "pu_rulesetVersion p = pf_ruleset_version f" using New_ok by fastforce+
    let ?opts = "\<lparr>op_RulesDir = pf_rules f, op_DryRun = pf_dry_run f\<rparr>"
    obtain r u1 where r: "Publish pe fs d c p ?opts u = (r, u1)" by (rule prod.exhaust)
    have x: "u' = u1 \<and> x = (case r of Inl e \<Rightarrow> error_exit e | Inr _ \<Rightarrow> exitOK)"
      using assms Some False s p r by (auto simp: runPublish_def split: sum.splits if_splits)
    show ?thesis
    proof (cases r)
      case (Inl e)
      then show ?thesis using failed [OF st(1), of ?opts e] r x by simp
    next
      case (Inr res)
      then show ?thesis using ok [OF Some st] r x by simp
    qed
  qed
qed

text \<open>Whatever its arguments, the command takes only steps the bucket's invariant permits.\<close>

lemma runPublish_safe:
  assumes "control_setting g objs c pe" "bucket_ok c (objs (fst u))" "runPublish pe fs d c g ce flags u = (x, u')"
  shows "safe c (objs (fst u)) (objs (fst u'))"
  using assms(3)
proof (cases rule: runPublish_cases)
  case (failed p opts e)
  then show ?thesis using gcs_Publish_effect [OF assms(1) failed(2,1) assms(2)] by blast
next
  case (ok f p res)
  then show ?thesis using gcs_Publish_effect [OF assms(1) ok(5,2) assms(2)] by blast
qed simp

lemma runSetPointer_safe:
  assumes "control_setting g objs c pe" "bucket_ok c (objs (fst u))" "runSetPointer pe c g ce flags u = (x, u')"
  shows "safe c (objs (fst u)) (objs (fst u'))"
proof -
  have "safe c (objs (fst u)) (objs (fst u1))" if "Execute pe c \<lparr>rb_store = NewGCSStore g\<rparr> opts u = (q, u1)" for opts q u1
    using gcs_Execute_effect [OF assms(1) that _ assms(2)] by simp
  then show ?thesis
    using assms(3) by (auto simp: runSetPointer_def NewRollback_def split: option.splits if_splits sum.splits prod.splits)
qed

lemma manifest_main_safe:
  assumes "control_setting g objs c pe" "bucket_ok c (objs (fst u))" "manifest_main parse pe fs d c g ce args u = (x, u')"
  shows "bucket_ok c (objs (fst u'))" "bucket_grows (objs (fst u)) (objs (fst u'))"
proof -
  have "safe c (objs (fst u)) (objs (fst u'))"
    using assms(3) runPublish_safe [OF assms(1,2)] runSetPointer_safe [OF assms(1,2)]
    by (auto simp: manifest_main_def split: list.splits if_splits)
  then show "bucket_ok c (objs (fst u'))" "bucket_grows (objs (fst u)) (objs (fst u'))" using assms(2) by (auto simp: safe_def)
qed

text \<open>What a successful publication leaves behind.\<close>

lemma Publish_complete:
  assumes "control_setting g objs c pe" "bucket_ok c (objs (fst u))" "pu_store p = NewGCSStore g"
    and "Publish pe fs d c p opts u = (Inr res, u')" "\<not> op_DryRun opts"
  obtains h n m b where "repointed c h (pu_rulesetVersion p) n (objs (fst u'))" "objs (fst u') (manifestByHashPath h) \<noteq> None"
    "marshal_manifest c m = Inr b" "sha256_hex b = h" "mf_ruleset_version m = pu_rulesetVersion p"
    "list_all (\<lambda>r. objs (fst u') (mr_yaml_path r) \<noteq> None) (mf_rules m)"
proof -
  have "\<exists>rules t b. verify_ruleset fs d p opts = Inr rules \<and> marshal_manifest c (build_manifest p rules t) = Inr b \<and>
      repointed c (sha256_hex b) (pu_rulesetVersion p) (rs_PointerGen res) (objs (fst u')) \<and>
      objs (fst u') (manifestByHashPath (sha256_hex b)) \<noteq> None \<and>
      list_all (\<lambda>x. objs (fst u') (yamlByHashPath (sha256_hex (ru_bytes x))) \<noteq> None) rules"
    using gcs_Publish_effect [OF assms(1,4,3,2)] unfolding sum.case if_not_P [OF assms(5)] by blast
  then obtain rules t b where r: "verify_ruleset fs d p opts = Inr rules" "marshal_manifest c (build_manifest p rules t) = Inr b"
      "repointed c (sha256_hex b) (pu_rulesetVersion p) (rs_PointerGen res) (objs (fst u'))"
      "objs (fst u') (manifestByHashPath (sha256_hex b)) \<noteq> None"
      "list_all (\<lambda>x. objs (fst u') (yamlByHashPath (sha256_hex (ru_bytes x))) \<noteq> None) rules" by blast
  have "list_all (\<lambda>m. objs (fst u') (mr_yaml_path m) \<noteq> None) (mf_rules (build_manifest p rules t))"
    using r(5) verify_ruleset_ok [OF r(1)] by (auto simp: build_manifest_def list_all_iff rule_ok_def)
  moreover have "mf_ruleset_version (build_manifest p rules t) = pu_rulesetVersion p" by (simp add: build_manifest_def)
  ultimately show thesis using that r(2-4) by blast
qed

text \<open>
  C18. The exit code of \<^verbatim>\<open>dq-manifest publish\<close> tells what happened to the bucket. Verification failures and
  usage errors leave it untouched (not one store call was made); a lost CAS means that another
  process moved the pointer during the run; success without \<^verbatim>\<open>-dry-run\<close> means that the pointer names a
  manifest of the requested ruleset version whose body and rule bodies are all present; success with
  \<^verbatim>\<open>-dry-run\<close> writes nothing.
\<close>

theorem runPublish_exit_codes:
  assumes "control_setting g objs c pe" "bucket_ok c (objs (fst u))" "runPublish pe fs d c g ce flags u = (x, u')"
  shows "x \<in> {exitOK, exitVerificationFail, exitOperationalFail, exitCASLost, exitUsage} \<and>
    (if x = exitUsage \<or> x = exitVerificationFail then u' = u
     else if x = exitCASLost then u' = u \<or> gen_of (objs (fst u) pointerPath) < gen_of (objs (fst u') pointerPath)
     else if x = exitOperationalFail then bucket_ok c (objs (fst u'))
     else if pf_dry_run (the flags) then objs (fst u') = objs (arrive pe u)
     else (\<exists>h n m. repointed c h (pf_ruleset_version (the flags)) n (objs (fst u')) \<and>
             objs (fst u') (manifestByHashPath h) \<noteq> None \<and>
             (\<exists>b. marshal_manifest c m = Inr b \<and> sha256_hex b = h) \<and> mf_ruleset_version m = pf_ruleset_version (the flags) \<and>
             list_all (\<lambda>r. objs (fst u') (mr_yaml_path r) \<noteq> None) (mf_rules m)))"
  using assms(3)
proof (cases rule: runPublish_cases)
  case early
  then show ?thesis using assms(2) by (auto simp: exit_codes)
next
  case (failed p opts e)
  note eff = gcs_Publish_effect [OF assms(1) failed(2,1) assms(2)]
  then have "bucket_ok c (objs (fst u'))" using assms(2) by (simp add: safe_def)
  then show ?thesis using eff failed(3) by (simp add: error_exit_def exit_codes)
next
  case (ok f p res)
  show ?thesis
  proof (cases "pf_dry_run f")
    case True
    then show ?thesis using gcs_Publish_effect [OF assms(1) ok(5,2) assms(2)] ok by (simp add: exit_codes)
  next
    case False
    then have dry: "\<not> op_DryRun \<lparr>op_RulesDir = pf_rules f, op_DryRun = pf_dry_run f\<rparr>" by simp
    obtain h n m b where "repointed c h (pu_rulesetVersion p) n (objs (fst u'))" "objs (fst u') (manifestByHashPath h) \<noteq> None"
      "marshal_manifest c m = Inr b" "sha256_hex b = h" "mf_ruleset_version m = pu_rulesetVersion p"
      "list_all (\<lambda>r. objs (fst u') (mr_yaml_path r) \<noteq> None) (mf_rules m)"
      using Publish_complete [OF assms(1,2) ok(2,5) dry] .
    then show ?thesis using False ok by (auto simp: exit_codes)
  qed
qed

definition demo_flags :: publish_flags where
  "demo_flags = \<lparr>pf_rules = ''r'', pf_schema_mirror = ''s'', pf_bucket = ''b'', pf_ruleset_version = ''rules-v1'',
     pf_engine_compatibility = ''*'', pf_linter_used = ''l'', pf_supported_schema_versions = ''1'', pf_dry_run = False\<rparr>"

lemma demo_runPublish:
  "runPublish alone one_rule_os one_rule_decoders demo_codec mem_client None (Some demo_flags) (empty_bucket, 0) =
    (exitOK, (published_bucket, 6))"
proof -
  have "parseIntList ''1'' = Inr [1]"
    by (simp add: parseIntList_def TrimSpace_def is_space_def Atoi_def split_sign_def matches_plus_def is_digit_def
        digits_val_def digit_val_def)
  moreover have "New one_rule_os \<lparr>pc_Store = Some (NewGCSStore mem_client), pc_RulesetVersion = ''rules-v1'',
      pc_EngineCompatibility = ''*'', pc_LinterUsed = ''l'', pc_SchemaMirrorDir = ''s'', pc_SupportedSchemaVersions = [1]\<rparr>
      = Inr demo_publisher"
    by (simp add: New_def one_rule_os_def demo_publisher_def ContainsRune_def)
  moreover have "\<lparr>op_RulesDir = ''r'', op_DryRun = False\<rparr> = demo_options" by (simp add: demo_options_def)
  ultimately show ?thesis by (simp add: runPublish_def demo_flags_def demo_Publish)
qed

theorem runPublish_exit_codes_witness:
  "mem_objects published_bucket pointerPath \<noteq> None \<and>
    fst (runPublish alone one_rule_os one_rule_decoders demo_codec mem_client None (Some demo_flags) (empty_bucket, 0)) = exitOK"
proof -
  have "\<exists>h n. repointed demo_codec h ''rules-v1'' n (mem_objects published_bucket)"
    using runPublish_exit_codes [OF alone_setting _ demo_runPublish] empty_bucket_ok
    by (simp add: exit_codes demo_flags_def) blast
  then show ?thesis by (auto simp: repointed_def demo_runPublish)
qed

end
