(* ===== verification/Rule_Files.thy ===== *)
theory Rule_Files
  imports Go_Files
begin

text \<open>
  The walk over the rules workspace the tools share. \<^verbatim>\<open>ValidateRulesDir\<close>, \<^verbatim>\<open>listRuleYAMLs\<close> and
  \<^verbatim>\<open>CheckDeprecatedSchemaVersions\<close> of the linter, \<^verbatim>\<open>Runner.Run\<close> of the dry-run and \<^verbatim>\<open>collectRules\<close> of the publisher
  hand \<^verbatim>\<open>filepath.WalkDir\<close> a callback with the same beginning: fail on an error, skip directories named
  \<^verbatim>\<open>_schema\<close>, pass over files without a YAML suffix and files a name test excludes. What follows is the
  \<open>body\<close>. A simulation between two walks then reduces each of them to a fold over one list of paths.
\<close>

definition rule_walk :: "(string \<Rightarrow> bool) \<Rightarrow> (string \<Rightarrow> 'a \<Rightarrow> walk_act \<times> 'a) \<Rightarrow> 'a walk_fn" where
  "rule_walk skip body path name isDir err a =
    (case err of
       Some e \<Rightarrow> (Fail e, a)
     | None \<Rightarrow>
         if isDir then (if Base path = ''_schema'' then (SkipDir, a) else (Continue, a))
         else if \<not> HasSuffix name ''.yaml'' \<and> \<not> HasSuffix name ''.yml'' then (Continue, a)
         else if skip name then (Continue, a)
         else body path a)"

text \<open>The names every tool but \<^verbatim>\<open>listRuleYAMLs\<close> passes over.\<close>

definition metadata_file :: "string \<Rightarrow> bool" where
  "metadata_file name \<longleftrightarrow> HasPrefix name ''_''"

text \<open>The paths that reach the body, in the order of the walk, and the error that ended it.\<close>

definition rule_files :: "(string \<Rightarrow> bool) \<Rightarrow> os \<Rightarrow> string \<Rightarrow> goerr option \<times> string list" where
  "rule_files skip fs dir = WalkDir fs (rule_walk skip (\<lambda>p ps. (Continue, ps @ [p]))) dir []"

section \<open>Simulation of walks\<close>

text \<open>
  Two walks answer alike on related accumulators (\<open>R\<close>), or the first has failed and what the second
  went on to accumulate is related to that outcome (\<open>Q\<close>), which further steps of the second keep.
\<close>

definition outcome_sim :: "(walk_act \<times> 'a \<Rightarrow> 'b \<Rightarrow> bool) \<Rightarrow> ('a \<Rightarrow> 'b \<Rightarrow> bool) \<Rightarrow> walk_act \<times> 'a \<Rightarrow> walk_act \<times> 'b \<Rightarrow> bool" where
  "outcome_sim Q R x y \<longleftrightarrow> (\<exists>e. fst x = Fail e) \<and> Q x (snd y) \<or> fst x = fst y \<and> R (snd x) (snd y)"

definition visit_sim :: "(walk_act \<times> 'a \<Rightarrow> 'b \<Rightarrow> bool) \<Rightarrow> ('a \<Rightarrow> 'b \<Rightarrow> bool) \<Rightarrow> 'a walk_fn \<Rightarrow> 'b walk_fn \<Rightarrow> bool" where
  "visit_sim Q R f g \<longleftrightarrow> (\<forall>x. visit_keeps (Q x) g) \<and>
    (\<forall>path name isDir err a b. R a b \<longrightarrow> outcome_sim Q R (f path name isDir err a) (g path name isDir err b))"

lemma visit_simD: "visit_sim Q R f g \<Longrightarrow> R a b \<Longrightarrow> outcome_sim Q R (f path name isDir err a) (g path name isDir err b)"
  by (simp add: visit_sim_def)

text \<open>Continuing after a callback's answer, as both levels of the walk do.\<close>

definition andThen :: "walk_act \<times> 'a \<Rightarrow> ('a \<Rightarrow> walk_act \<times> 'a) \<Rightarrow> walk_act \<times> 'a" where
  "andThen x k = (case x of (Fail e, a) \<Rightarrow> (Fail e, a) | (SkipDir, a) \<Rightarrow> (Continue, a) | (Continue, a) \<Rightarrow> k a)"

lemma walk_andThen:
  "walkDir f path name (Directory err entries) a =
    andThen (f path name True None a)
      (\<lambda>a. if err = None then walkEntries f path entries a else andThen (f path name True err a) (walkEntries f path entries))"
  "walkEntries f path ((name, n) # es) a = andThen (walkDir f (Join [path, name]) name n a) (walkEntries f path es)"
  by (cases err; cases "f path name True None a"; cases "fst (f path name True None a)"; simp add: andThen_def)
    (simp add: andThen_def)

lemma andThen_sim:
  assumes "outcome_sim Q R x y"
    and "\<And>a b. fst x = Continue \<Longrightarrow> snd x = a \<Longrightarrow> R a b \<Longrightarrow> outcome_sim Q R (k a) (l b)"
    and "\<And>b. Q x b \<Longrightarrow> Q x (snd (l b))"
  shows "outcome_sim Q R (andThen x k) (andThen y l)"
  using assms
  by (cases x; cases y; cases "fst x"; cases "fst y") (auto simp: outcome_sim_def andThen_def)

lemma walk_sim:
  "visit_sim Q R f g \<Longrightarrow> R a b \<Longrightarrow> outcome_sim Q R (walkDir f path name n a) (walkDir g path name n b)"
  "visit_sim Q R f g \<Longrightarrow> R a b \<Longrightarrow> outcome_sim Q R (walkEntries f path es a) (walkEntries g path es b)"
proof (induction f path name n a and f path es a arbitrary: b and b rule: walkDir_walkEntries.induct)
  case (1 f path name a)
  then show ?case by (simp add: visit_simD)
next
  case (2 f path name err entries a)
  note visit = visit_simD [OF 2(3)]
  have keeps: "visit_keeps (Q x) g" for x using 2(3) unfolding visit_sim_def by blast
  have keep: "Q x b \<Longrightarrow> Q x (snd (walkEntries g path entries b))" for x b by (rule walk_invariant(2) [OF keeps])
  then have keep2: "Q x b \<Longrightarrow> Q x (snd (andThen (g path name True err b) (walkEntries g path entries)))" for x b
    using visit_keepsD [OF keeps] by (auto simp: andThen_def split: prod.split walk_act.split)
  have entries: "outcome_sim Q R (walkEntries f path entries a1) (walkEntries g path entries b1)"
    if "f path name True None a = (Continue, a1)" "err = None" "R a1 b1" for a1 b1
    using 2(1) [OF that(1) [symmetric] refl that(2) 2(3) that(3)] .
  have entries2: "outcome_sim Q R (walkEntries f path entries a2) (walkEntries g path entries b2)"
    if "f path name True None a = (Continue, a1)" "err = Some e0" "f path name True err a1 = (Continue, a2)" "R a2 b2" for a1 a2 b2 e0
    using 2(2) [OF that(1) [symmetric] refl that(2) that(3) [symmetric] refl 2(3) that(4)] .
  show ?case
    unfolding walk_andThen
  proof (rule andThen_sim [OF visit [OF 2(4)]])
    fix a1 b1 assume a1: "fst (f path name True None a) = Continue" "snd (f path name True None a) = a1" and R1: "R a1 b1"
    then have v: "f path name True None a = (Continue, a1)" by (metis prod.collapse)
    show "outcome_sim Q R
      (if err = None then walkEntries f path entries a1 else andThen (f path name True err a1) (walkEntries f path entries))
      (if err = None then walkEntries g path entries b1 else andThen (g path name True err b1) (walkEntries g path entries))"
    proof (cases err)
      case None
      then show ?thesis using entries [OF v None R1] by simp
    next
      case (Some e0)
      have "outcome_sim Q R (andThen (f path name True err a1) (walkEntries f path entries))
        (andThen (g path name True err b1) (walkEntries g path entries))"
        by (rule andThen_sim [OF visit [OF R1]]) (metis entries2 [OF v Some] prod.collapse, rule keep)
      then show ?thesis using Some by simp
    qed
  qed (simp add: keep keep2)
next
  case (3 f path a)
  then show ?case by (simp add: outcome_sim_def)
next
  case (4 f path name n es a)
  have keeps: "visit_keeps (Q x) g" for x using 4(3) unfolding visit_sim_def by blast
  show ?case
    unfolding walk_andThen
    by (rule andThen_sim [OF 4(1) [OF 4(3,4)]]) (metis 4(2) 4(3) prod.collapse, rule walk_invariant(2) [OF keeps])
qed

lemma WalkDir_sim:
  assumes "visit_sim Q R f g" "R a b"
  shows "(\<exists>e. fst (WalkDir fs f dir a) = Some e \<and> Q (Fail e, snd (WalkDir fs f dir a)) (snd (WalkDir fs g dir b))) \<or>
    fst (WalkDir fs f dir a) = fst (WalkDir fs g dir b) \<and> R (snd (WalkDir fs f dir a)) (snd (WalkDir fs g dir b))"
proof -
  let ?x = "case os_tree fs dir of Inl e \<Rightarrow> f dir [] False (Some e) a | Inr n \<Rightarrow> walkDir f dir (Base dir) n a"
  let ?y = "case os_tree fs dir of Inl e \<Rightarrow> g dir [] False (Some e) b | Inr n \<Rightarrow> walkDir g dir (Base dir) n b"
  have "outcome_sim Q R ?x ?y" using walk_sim(1) [OF assms] visit_simD [OF assms] by (simp split: sum.split)
  then show ?thesis
    unfolding WalkDir_def by (cases ?x; cases ?y) (auto simp: outcome_sim_def split: walk_act.splits)
qed

section \<open>The walks of the tools\<close>

text \<open>A body that never stops the walk is folded over the listing.\<close>

lemma rule_walk_fold:
  "WalkDir fs (rule_walk skip (\<lambda>p a. (Continue, g p a))) dir a =
    (fst (rule_files skip fs dir), fold g (snd (rule_files skip fs dir)) a)"
proof -
  have "visit_sim (\<lambda>_ _. False) (\<lambda>s ps. s = fold g ps a) (rule_walk skip (\<lambda>p a. (Continue, g p a)))
    (rule_walk skip (\<lambda>p ps. (Continue, ps @ [p])))"
    by (auto simp: visit_sim_def visit_keeps_def outcome_sim_def rule_walk_def split: option.split)
  from WalkDir_sim [OF this, where a = a and b = "[]" and fs = fs and dir = dir] show ?thesis
    unfolding rule_files_def by (auto intro: prod_eqI)
qed

text \<open>A body that may fail runs over the listing up to the first failure; it never skips.\<close>

fun visit_files :: "(string \<Rightarrow> 'a \<Rightarrow> walk_act \<times> 'a) \<Rightarrow> string list \<Rightarrow> 'a \<Rightarrow> goerr option \<times> 'a" where
  "visit_files body [] a = (None, a)"
| "visit_files body (p # ps) a = (case body p a of (Fail e, a) \<Rightarrow> (Some e, a) | (_, a) \<Rightarrow> visit_files body ps a)"

lemma visit_files_append:
  "visit_files body (ps @ qs) a = (case visit_files body ps a of (Some e, a) \<Rightarrow> (Some e, a) | (None, a) \<Rightarrow> visit_files body qs a)"
  by (induction ps arbitrary: a) (auto split: prod.split walk_act.split)

lemma rule_walk_visit:
  assumes "\<And>p a. fst (body p a) \<noteq> SkipDir"
  shows "WalkDir fs (rule_walk skip body) dir a =
    (case visit_files body (snd (rule_files skip fs dir)) a of
       (Some e, a) \<Rightarrow> (Some e, a) | (None, a) \<Rightarrow> (fst (rule_files skip fs dir), a))"
proof -
  let ?Q = "\<lambda>x ps. \<exists>e. fst x = Fail e \<and> visit_files body ps a = (Some e, snd x)"
  have "visit_keeps (?Q x) (rule_walk skip (\<lambda>p ps. (Continue, ps @ [p])))" for x
    by (auto simp: visit_keeps_def rule_walk_def visit_files_append split: option.split)
  moreover have "outcome_sim ?Q (\<lambda>s ps. visit_files body ps a = (None, s)) (body p s) (Continue, ps @ [p])"
    if "visit_files body ps a = (None, s)" for p s ps
    using that assms [of p s] by (cases "body p s"; cases "fst (body p s)") (auto simp: outcome_sim_def visit_files_append)
  ultimately have "visit_sim ?Q (\<lambda>s ps. visit_files body ps a = (None, s)) (rule_walk skip body)
    (rule_walk skip (\<lambda>p ps. (Continue, ps @ [p])))"
    by (auto simp: visit_sim_def rule_walk_def outcome_sim_def split: option.split)
  from WalkDir_sim [OF this, where a = a and b = "[]" and fs = fs and dir = dir] show ?thesis
    unfolding rule_files_def by (cases "WalkDir fs (rule_walk skip body) dir a") auto
qed

end
