(* ===== verification/Lint.thy ===== *)
theory Lint
  imports Rule_Files Pathsafe "HOL-Library.AList"
begin

text \<open>
  The rule linter (\<^verbatim>\<open>tools/lint\<close>): schema dispatch (\<^verbatim>\<open>lint.go\<close>), the kind catalog (\<^verbatim>\<open>catalog.go\<close>), external
  references (\<^verbatim>\<open>external_refs.go\<close>), the cross-checks of version 2 rules and the walk that applies them.

  The YAML, JSON and JSON-Schema libraries are \<open>linter_libs\<close>. A compiled schema is what its
  \<^verbatim>\<open>Validate\<close> answers. Go maps are association lists in the order an iteration happens to visit them.
\<close>

section \<open>Data\<close>

type_synonym Schema = "any \<Rightarrow> goerr option"

record ValidationError =
  ve_Message :: string

definition Sprintf :: "string \<Rightarrow> farg list \<Rightarrow> string" where
  "Sprintf f as = Error (Errorf f as)"

definition verr :: "string \<Rightarrow> farg list \<Rightarrow> ValidationError" where
  "verr f as = \<lparr>ve_Message = Sprintf f as\<rparr>"

record SchemaSet =
  ss_V1 :: "Schema option"
  ss_V2 :: "Schema option"

record ruleSourceV2 =
  r2_Type :: string

record ruleCheckV2 =
  c2_CheckID :: string
  c2_Kind :: string
  c2_Params :: "go_map option"

record ruleDocV2 =
  d2_Version :: int
  d2_Entity :: string
  d2_Mode :: string
  d2_Source :: ruleSourceV2
  d2_Checks :: "ruleCheckV2 list"

record OwnerEntity =
  oe_Mode :: string
  oe_Owner :: string
  oe_Onboarding :: bool
  oe_Channels :: "(string \<times> string list) list"

record Owners =
  ow_SchemaVersion :: int
  ow_Entities :: "(string \<times> OwnerEntity) list"
  ow_Path :: string

record CatalogKind =
  ck_Name :: string
  ck_Mode :: string
  ck_SourceMode :: string
  ck_ParamsSchema :: Schema
  ck_ExternalEligibleFields :: "(string \<times> Schema) list"

record LintCatalog =
  lk_Version :: int
  lk_Kinds :: "(string \<times> CatalogKind) list"
  lk_Path :: string

text \<open>The retained fields of one kind of the decoded catalog document.\<close>

record catalog_doc_kind =
  dk_Name :: string
  dk_Mode :: string
  dk_SourceMode :: string
  dk_ParamsSchema :: "go_map option"
  dk_ExternalEligibleFields :: "string list"

text \<open>
  \<open>ly_version\<close> and \<open>ly_owners_version\<close> are the integer field after a decode whose error is dropped.
  A compiler holds one resource, so compiling answers for its identifier and bytes.
\<close>

record linter_libs =
  ly_any :: "string \<Rightarrow> any result"
  ly_version :: "string \<Rightarrow> int"
  ly_owners_version :: "string \<Rightarrow> int"
  ly_rule :: "string \<Rightarrow> ruleDocV2 result"
  ly_entity :: "string \<Rightarrow> string result"
  ly_catalog :: "string \<Rightarrow> (int \<times> catalog_doc_kind list) result"
  lj_any :: "string \<Rightarrow> any result"
  lj_entity_pattern :: "string \<Rightarrow> string result"
  lj_marshal :: "go_map \<Rightarrow> string result"
  ls_AddResource :: "string \<Rightarrow> string \<Rightarrow> goerr option"
  ls_Compile :: "string \<Rightarrow> string \<Rightarrow> Schema result"
  l_Sprint :: "any \<Rightarrow> string"

section \<open>Rule schemas\<close>

definition assertEntityPipeRejected :: "linter_libs \<Rightarrow> string \<Rightarrow> goerr option" where
  "assertEntityPipeRejected l raw =
    (case lj_entity_pattern l raw of
       Inl e \<Rightarrow> Some (Errorf ''parse schema JSON: %w'' [W e])
     | Inr pattern \<Rightarrow>
         (if pattern = [] then Some (errors_New ''schema does not declare a pattern for the entity property'')
          else if ContainsRune pattern (CHR ''|'')
          then Some (Errorf ''entity pattern %q contains an unescaped pipe character; ADR-0002 input-safety requires the pipe to be forbidden''
                       [S pattern])
          else None))"

definition LoadSchema :: "os \<Rightarrow> linter_libs \<Rightarrow> string \<Rightarrow> Schema result" where
  "LoadSchema fs l schemaPath =
    (case os_ReadFile fs schemaPath of
       Inl e \<Rightarrow> Inl (Errorf ''read schema: %w'' [W e])
     | Inr raw \<Rightarrow>
         (case assertEntityPipeRejected l raw of
            Some e \<Rightarrow> Inl (Errorf ''schema integrity check: %w'' [W e])
          | None \<Rightarrow>
              (case ls_AddResource l schemaPath raw of
                 Some e \<Rightarrow> Inl (Errorf ''add schema resource: %w'' [W e])
               | None \<Rightarrow> wrap_err ''compile schema: %w'' (ls_Compile l schemaPath raw))))"

text \<open>\<^verbatim>\<open>if path != "" { ... }\<close> around one load.\<close>

definition load_unless_empty :: "(string \<Rightarrow> Schema result) \<Rightarrow> string \<Rightarrow> string \<Rightarrow> Schema option result" where
  "load_unless_empty load what path = (if path = [] then Inr None else map_sum id Some (wrap_err what (load path)))"

definition LoadSchemaSet :: "os \<Rightarrow> linter_libs \<Rightarrow> string \<Rightarrow> string \<Rightarrow> SchemaSet result" where
  "LoadSchemaSet fs l v1Path v2Path =
    res_bind (load_unless_empty (LoadSchema fs l) ''v1 schema: %w'' v1Path)
      (\<lambda>s1. res_bind (load_unless_empty (LoadSchema fs l) ''v2 schema: %w'' v2Path)
        (\<lambda>s2. Inr \<lparr>ss_V1 = s1, ss_V2 = s2\<rparr>))"

definition ValidateRule :: "linter_libs \<Rightarrow> Schema \<Rightarrow> string \<Rightarrow> ValidationError list" where
  "ValidateRule l schema ruleBytes =
    (case ly_any l ruleBytes of
       Inl e \<Rightarrow> [verr ''yaml parse error: %v'' [V e]]
     | Inr doc \<Rightarrow> (case schema doc of Some e \<Rightarrow> [\<lparr>ve_Message = Error e\<rparr>] | None \<Rightarrow> []))"

definition ValidateRuleFile :: "os \<Rightarrow> linter_libs \<Rightarrow> Schema \<Rightarrow> string \<Rightarrow> ValidationError list" where
  "ValidateRuleFile fs l schema path =
    (case os_ReadFile fs path of
       Inl e \<Rightarrow> [verr ''read error: %v'' [V e]]
     | Inr raw \<Rightarrow> ValidateRule l schema raw)"

definition parseRuleVersion :: "linter_libs \<Rightarrow> string \<Rightarrow> int" where
  "parseRuleVersion l ruleBytes = ly_version l ruleBytes"

definition ValidateRuleBytes :: "linter_libs \<Rightarrow> SchemaSet \<Rightarrow> string \<Rightarrow> ValidationError list" where
  "ValidateRuleBytes l ss ruleBytes =
    (let v = parseRuleVersion l ruleBytes
     in if v = 0 \<or> v = 1
        then (case ss_V1 ss of
                None \<Rightarrow> [verr ''no v1 schema loaded; cannot validate rule'' []]
              | Some s \<Rightarrow> ValidateRule l s ruleBytes)
        else if v = 2
        then (case ss_V2 ss of
                None \<Rightarrow> [verr ''rule declares version 2 but no v2 schema is loaded'' []]
              | Some s \<Rightarrow> ValidateRule l s ruleBytes)
        else [verr ''rule declares unsupported schema version %d'' [S (show_int v)]])"

section \<open>Catalog\<close>

definition compileSubSchema :: "linter_libs \<Rightarrow> string \<Rightarrow> go_map option \<Rightarrow> Schema result" where
  "compileSubSchema l kindName fragment =
    (case (case fragment of
             None \<Rightarrow> Inr ''{\"type\":\"object\"}''
           | Some m \<Rightarrow> (if m = [] then Inr ''{\"type\":\"object\"}'' else wrap_err ''marshal params_schema: %w'' (lj_marshal l m))) of
       Inl e \<Rightarrow> Inl e
     | Inr payload \<Rightarrow>
         (let id' = ''catalog://'' @ kindName @ ''/params_schema''
          in case ls_AddResource l id' payload of
               Some e \<Rightarrow> Inl (Errorf ''add params_schema resource: %w'' [W e])
             | None \<Rightarrow> wrap_err ''compile params_schema: %w'' (ls_Compile l id' payload)))"

fun eligible_schemas :: "linter_libs \<Rightarrow> catalog_doc_kind \<Rightarrow> string list \<Rightarrow> (string \<times> Schema) list \<Rightarrow> (string \<times> Schema) list result" where
  "eligible_schemas l k [] subs = Inr subs"
| "eligible_schemas l k (fieldName # fieldNames) subs =
    (case map_get (dk_ParamsSchema k) ''properties'' of
       Some (AMap props) \<Rightarrow>
         (case map_of props fieldName of
            Some (AMap frag) \<Rightarrow>
              (case compileSubSchema l (dk_Name k @ ''/'' @ fieldName) (Some frag) of
                 Inl e \<Rightarrow> Inl (Errorf ''catalog kind %q: external_eligible_fields[%q]: %w'' [S (dk_Name k), S fieldName, W e])
               | Inr sub \<Rightarrow> eligible_schemas l k fieldNames (AList.update fieldName sub subs))
          | _ \<Rightarrow> Inl (Errorf ''catalog kind %q: external_eligible_fields names %q but params_schema.properties.%s is not an object schema''
                       [S (dk_Name k), S fieldName, S fieldName]))
     | _ \<Rightarrow> Inl (Errorf ''catalog kind %q: external_eligible_fields names %q but params_schema has no properties block''
                  [S (dk_Name k), S fieldName]))"

definition is_mode :: "string \<Rightarrow> bool" where
  "is_mode m \<longleftrightarrow> m = ''set'' \<or> m = ''record''"

fun catalog_kinds :: "linter_libs \<Rightarrow> nat \<Rightarrow> catalog_doc_kind list \<Rightarrow> (string \<times> CatalogKind) list \<Rightarrow> (string \<times> CatalogKind) list result" where
  "catalog_kinds l i [] kinds = Inr kinds"
| "catalog_kinds l i (k # ks) kinds =
    (if dk_Name k = [] then Inl (Errorf ''catalog kind at index %d has empty name'' [S (show_nat i)])
     else if map_of kinds (dk_Name k) \<noteq> None then Inl (Errorf ''catalog kind %q declared more than once'' [S (dk_Name k)])
     else if \<not> is_mode (dk_Mode k)
     then Inl (Errorf ''catalog kind %q: mode %q is not one of [set, record]'' [S (dk_Name k), S (dk_Mode k)])
     else if \<not> is_mode (dk_SourceMode k)
     then Inl (Errorf ''catalog kind %q: source_mode %q is not one of [set, record]'' [S (dk_Name k), S (dk_SourceMode k)])
     else case compileSubSchema l (dk_Name k) (dk_ParamsSchema k) of
       Inl e \<Rightarrow> Inl (Errorf ''catalog kind %q: %w'' [S (dk_Name k), W e])
     | Inr ps \<Rightarrow>
         (case eligible_schemas l k (dk_ExternalEligibleFields k) [] of
            Inl e \<Rightarrow> Inl e
          | Inr subs \<Rightarrow>
              catalog_kinds l (Suc i) ks
                (AList.update (dk_Name k) \<lparr>ck_Name = dk_Name k, ck_Mode = dk_Mode k, ck_SourceMode = dk_SourceMode k,
                   ck_ParamsSchema = ps, ck_ExternalEligibleFields = subs\<rparr> kinds)))"

text \<open>A missing file gives the nil catalog.\<close>

definition LoadCatalog :: "os \<Rightarrow> linter_libs \<Rightarrow> string \<Rightarrow> LintCatalog option result" where
  "LoadCatalog fs l path =
    (case os_ReadFile fs path of
       Inl e \<Rightarrow> (if errors_Is e os_ErrNotExist then Inr None else Inl (Errorf ''read catalog: %w'' [W e]))
     | Inr raw \<Rightarrow>
         (case ly_catalog l raw of
            Inl e \<Rightarrow> Inl (Errorf ''parse catalog yaml: %w'' [W e])
          | Inr (version, docKinds) \<Rightarrow>
              (if version \<noteq> 1
               then Inl (Errorf ''catalog version %d is not supported (expected 1 per ADR-0022)'' [S (show_int version)])
               else case catalog_kinds l 0 docKinds [] of
                 Inl e \<Rightarrow> Inl e
               | Inr kinds \<Rightarrow> Inr (Some \<lparr>lk_Version = version, lk_Kinds = kinds, lk_Path = path\<rparr>))))"

definition Kind :: "LintCatalog option \<Rightarrow> string \<Rightarrow> CatalogKind option" where
  "Kind c name = (case c of None \<Rightarrow> None | Some c \<Rightarrow> map_of (lk_Kinds c) name)"

section \<open>External references\<close>

lemma size_in_AMapAny: "(k, v) \<in> set kvs \<Longrightarrow> size v < size (AMapAny kvs)"
  using size_list_estimation' [of "(k, v)" kvs "size v" "size_prod size size"] by simp

lemma size_in_AMap: "(k, v) \<in> set kvs \<Longrightarrow> size v < size (AMap kvs)"
  using size_list_estimation' [of "(k, v)" kvs "size v" "size_prod (\<lambda>_. 0) size"] by simp

function normalizeYAML :: "(any \<Rightarrow> string) \<Rightarrow> any \<Rightarrow> any" where
  "normalizeYAML sprint (AMapAny kvs) = AMap (fold (\<lambda>(k, v). AList.update (sprint k) (normalizeYAML sprint v)) kvs [])"
| "normalizeYAML sprint (AMap kvs) = AMap (map (\<lambda>(k, v). (k, normalizeYAML sprint v)) kvs)"
| "normalizeYAML sprint (AList vs) = AList (map (normalizeYAML sprint) vs)"
| "normalizeYAML sprint ANil = ANil"
| "normalizeYAML sprint (ABool b) = ABool b"
| "normalizeYAML sprint (AInt k i) = AInt k i"
| "normalizeYAML sprint (AFloat f) = AFloat f"
| "normalizeYAML sprint (AFloat32 f) = AFloat32 f"
| "normalizeYAML sprint (AStr s) = AStr s"
  by pat_completeness auto
termination
  by (relation "measure (\<lambda>(_, v). size v)") (auto dest: size_in_AMapAny size_in_AMap size_list_estimation' simp: less_Suc_eq_le)

definition parseExternalArtifact :: "linter_libs \<Rightarrow> string \<Rightarrow> string \<Rightarrow> any result" where
  "parseExternalArtifact l path raw =
    (if HasSuffix path ''.json'' then wrap_err ''json: %w'' (lj_any l raw)
     else if HasSuffix path ''.yaml'' \<or> HasSuffix path ''.yml''
     then (case ly_any l raw of Inl e \<Rightarrow> Inl (Errorf ''yaml: %w'' [W e]) | Inr v \<Rightarrow> Inr (normalizeYAML (l_Sprint l) v))
     else Inl (errors_New ''unsupported extension (want .json, .yaml, or .yml)''))"

definition resolveExternalRef ::
  "os \<Rightarrow> linter_libs \<Rightarrow> string \<Rightarrow> string \<Rightarrow> ruleCheckV2 \<Rightarrow> string \<Rightarrow> any \<Rightarrow> Schema \<Rightarrow> ValidationError list" where
  "resolveExternalRef fs l rulesRoot rulePath ck fieldName refRaw fieldSchema =
    (case refRaw of
       AStr ref \<Rightarrow>
         (case Resolve fs rulesRoot rulePath ref of
            Inl e \<Rightarrow> [verr ''ADR-0044 cross-check #12: check %q %s_ref %q: %v'' [S (c2_CheckID ck), S fieldName, S ref, V e]]
          | Inr resolved \<Rightarrow>
              (case os_ReadFile fs resolved of
                 Inl e \<Rightarrow> [verr ''ADR-0044 cross-check #12: check %q %s_ref %q: read %s: %v''
                             [S (c2_CheckID ck), S fieldName, S ref, S resolved, V e]]
               | Inr raw \<Rightarrow>
                   (case parseExternalArtifact l resolved raw of
                      Inl e \<Rightarrow> [verr ''ADR-0044 cross-check #12: check %q %s_ref %q: parse %s: %v''
                                  [S (c2_CheckID ck), S fieldName, S ref, S resolved, V e]]
                    | Inr parsed \<Rightarrow>
                        (case fieldSchema parsed of
                           Some e \<Rightarrow> [verr ''ADR-0044 cross-check #12: check %q %s_ref %q content does not match the field's catalog sub-schema: %v''
                                        [S (c2_CheckID ck), S fieldName, S ref, V e]]
                         | None \<Rightarrow> []))))
     | _ \<Rightarrow> [verr ''ADR-0044 cross-check #12: check %q has %s_ref of non-string type (%T)''
               [S (c2_CheckID ck), S fieldName, S (fmt_T refRaw)]])"

definition params_of :: "ruleCheckV2 \<Rightarrow> go_map" where
  "params_of ck = (case c2_Params ck of None \<Rightarrow> [] | Some m \<Rightarrow> m)"

text \<open>The switch of \<^verbatim>\<open>validateCheckExternalRefs\<close> for one eligible field.\<close>

definition eligible_field_errs ::
  "os \<Rightarrow> linter_libs \<Rightarrow> string \<Rightarrow> string \<Rightarrow> ruleCheckV2 \<Rightarrow> string \<times> Schema \<Rightarrow> ValidationError list" where
  "eligible_field_errs fs l rulesRoot rulePath ck f =
    (case f of (fieldName, fieldSchema) \<Rightarrow>
      (let refKey = fieldName @ ''_ref''
       in case (map_of (params_of ck) fieldName, map_of (params_of ck) refKey) of
            (Some _, Some _) \<Rightarrow>
              [verr ''ADR-0044 cross-check #12: check %q kind %q has both %q and %q present; exactly one is permitted''
                 [S (c2_CheckID ck), S (c2_Kind ck), S fieldName, S refKey]]
          | (None, None) \<Rightarrow>
              [verr ''ADR-0044 cross-check #12: check %q kind %q has neither %q nor %q present; exactly one is required''
                 [S (c2_CheckID ck), S (c2_Kind ck), S fieldName, S refKey]]
          | (None, Some refRaw) \<Rightarrow> resolveExternalRef fs l rulesRoot rulePath ck fieldName refRaw fieldSchema
          | (Some _, None) \<Rightarrow> []))"

definition validateCheckExternalRefs ::
  "os \<Rightarrow> linter_libs \<Rightarrow> string \<Rightarrow> string \<Rightarrow> ruleCheckV2 \<Rightarrow> CatalogKind \<Rightarrow> ValidationError list" where
  "validateCheckExternalRefs fs l rulesRoot rulePath ck entry =
    (let refKeys = filter (\<lambda>k. HasSuffix k ''_ref'') (map fst (params_of ck));
         left = filter (\<lambda>k. k \<notin> (\<lambda>f. f @ ''_ref'') ` fst ` set (ck_ExternalEligibleFields entry)) refKeys
     in concat (map (eligible_field_errs fs l rulesRoot rulePath ck) (ck_ExternalEligibleFields entry)) @
        map (\<lambda>refKey. verr ''ADR-0044 cross-check #12: check %q kind %q uses %q but %q is not declared external-eligible in the catalog''
               [S (c2_CheckID ck), S (c2_Kind ck), S refKey, S (TrimSuffix refKey ''_ref'')]) left)"

definition checkExternalReferences ::
  "os \<Rightarrow> linter_libs \<Rightarrow> string \<Rightarrow> string \<Rightarrow> ruleDocV2 \<Rightarrow> LintCatalog option \<Rightarrow> ValidationError list" where
  "checkExternalReferences fs l rulesRoot rulePath rule catalog =
    (if catalog = None then []
     else concat (map (\<lambda>ck. case Kind catalog (c2_Kind ck) of
                               None \<Rightarrow> []
                             | Some entry \<Rightarrow> validateCheckExternalRefs fs l rulesRoot rulePath ck entry) (d2_Checks rule)))"

section \<open>Cross-checks\<close>

definition kindPrefix :: "string \<Rightarrow> string" where
  "kindPrefix kind =
    (let prefix = takeWhile (\<lambda>c. c \<noteq> CHR ''.'') kind
     in if CHR ''.'' \<notin> set kind \<or> prefix = [] then [] else if is_mode prefix then prefix else [])"

definition expectedSourceTypeFor :: "string \<Rightarrow> string option" where
  "expectedSourceTypeFor mode = (if mode = ''set'' then Some ''bigquery'' else if mode = ''record'' then Some ''kafka'' else None)"

text \<open>Checks #4, #5, #8 and #6 of one check.\<close>

definition kind_errs :: "LintCatalog option \<Rightarrow> ruleDocV2 \<Rightarrow> ruleCheckV2 \<Rightarrow> ValidationError list" where
  "kind_errs catalog rule c =
    (let prefix = kindPrefix (c2_Kind c)
     in if prefix \<noteq> [] \<and> prefix \<noteq> d2_Mode rule
        then [verr ''ADR-0022 cross-check #4: check %q kind %q has prefix %q which does not match rule mode %q''
                [S (c2_CheckID c), S (c2_Kind c), S prefix, S (d2_Mode rule)]]
        else case catalog of
          None \<Rightarrow> [verr ''ADR-0022 cross-check #5: check %q kind %q cannot be resolved (no catalog loaded)'' [S (c2_CheckID c), S (c2_Kind c)]]
        | Some cat \<Rightarrow>
            (case Kind catalog (c2_Kind c) of
               None \<Rightarrow> [verr ''ADR-0022 cross-check #5: check %q kind %q is not declared in the catalog at %s''
                          [S (c2_CheckID c), S (c2_Kind c), S (lk_Path cat)]]
             | Some entry \<Rightarrow>
                 (case expectedSourceTypeFor (ck_SourceMode entry) of
                    Some want \<Rightarrow>
                      (if r2_Type (d2_Source rule) \<noteq> want
                       then [verr ''ADR-0023 cross-check #8: check %q kind %q has catalog source_mode %q (requires source.type %q) but rule source.type is %q''
                               [S (c2_CheckID c), S (c2_Kind c), S (ck_SourceMode entry), S want, S (r2_Type (d2_Source rule))]]
                       else [])
                  | None \<Rightarrow> []) @
                 (case ck_ParamsSchema entry (AMap (params_of c)) of
                    Some e \<Rightarrow> [verr ''ADR-0022 cross-check #6: check %q kind %q params validation: %v'' [S (c2_CheckID c), S (c2_Kind c), V e]]
                  | None \<Rightarrow> [])))"

text \<open>Check #7, and #3 against the owners if they were loaded.\<close>

definition source_errs :: "ruleDocV2 \<Rightarrow> ValidationError list" where
  "source_errs rule =
    (case expectedSourceTypeFor (d2_Mode rule) of
       Some want \<Rightarrow>
         (if r2_Type (d2_Source rule) \<noteq> want
          then [verr ''ADR-0023 cross-check #7: rule mode %q expects source.type %q but found %q''
                  [S (d2_Mode rule), S want, S (r2_Type (d2_Source rule))]]
          else [])
     | None \<Rightarrow> [])"

definition owner_mode_errs :: "Owners option \<Rightarrow> ruleDocV2 \<Rightarrow> ValidationError list" where
  "owner_mode_errs owners rule =
    (case owners of
       None \<Rightarrow> []
     | Some o' \<Rightarrow>
         (if d2_Entity rule = [] then []
          else case map_of (ow_Entities o') (d2_Entity rule) of
            None \<Rightarrow> []
          | Some ent \<Rightarrow>
              (if oe_Mode ent \<noteq> [] \<and> oe_Mode ent \<noteq> d2_Mode rule
               then [verr ''ADR-0021 cross-check #3: rule mode %q for entity %q does not match owners entry mode %q''
                       [S (d2_Mode rule), S (d2_Entity rule), S (oe_Mode ent)]]
               else [])))"

definition validateV2CrossChecks ::
  "os \<Rightarrow> linter_libs \<Rightarrow> string \<Rightarrow> LintCatalog option \<Rightarrow> Owners option \<Rightarrow> string \<Rightarrow> string \<Rightarrow> ValidationError list" where
  "validateV2CrossChecks fs l ruleBytes catalog owners rulesRoot rulePath =
    (case ly_rule l ruleBytes of
       Inl e \<Rightarrow> [verr ''v2 cross-check: yaml parse: %v'' [V e]]
     | Inr rule \<Rightarrow>
         source_errs rule @ owner_mode_errs owners rule @ concat (map (kind_errs catalog rule) (d2_Checks rule)) @
         checkExternalReferences fs l rulesRoot rulePath rule catalog)"

section \<open>The walk\<close>

type_synonym lint_results = "(string \<times> ValidationError list) list"

text \<open>\<^verbatim>\<open>results[k] = append(results[k], errs...)\<close>\<close>

definition append_errs :: "string \<Rightarrow> ValidationError list \<Rightarrow> lint_results \<Rightarrow> lint_results" where
  "append_errs k errs results = AList.update k ((case map_of results k of None \<Rightarrow> [] | Some es \<Rightarrow> es) @ errs) results"

definition validate_file ::
  "os \<Rightarrow> linter_libs \<Rightarrow> SchemaSet \<Rightarrow> LintCatalog option \<Rightarrow> Owners option \<Rightarrow> string \<Rightarrow> string \<Rightarrow> lint_results \<times> nat \<Rightarrow> lint_results \<times> nat" where
  "validate_file fs l ss catalog owners dir path s =
    (case s of (results, filesProcessed) \<Rightarrow>
      (case os_ReadFile fs path of
         Inl e \<Rightarrow> AList.update path [verr ''read error: %v'' [V e]] results
       | Inr raw \<Rightarrow>
           (let schemaErrs = ValidateRuleBytes l ss raw
            in if schemaErrs \<noteq> [] then AList.update path schemaErrs results
               else if parseRuleVersion l raw = 2
               then (let cErrs = validateV2CrossChecks fs l raw catalog owners dir path
                     in if cErrs \<noteq> [] then append_errs path cErrs results else results)
               else results),
       filesProcessed + 1))"

definition ValidateRulesDir ::
  "os \<Rightarrow> linter_libs \<Rightarrow> SchemaSet \<Rightarrow> LintCatalog option \<Rightarrow> Owners option \<Rightarrow> string \<Rightarrow> (lint_results \<times> nat) result" where
  "ValidateRulesDir fs l ss catalog owners dir =
    (case WalkDir fs (rule_walk metadata_file (\<lambda>path s. (Continue, validate_file fs l ss catalog owners dir path s))) dir ([], 0) of
       (None, s) \<Rightarrow> Inr s
     | (Some e, s) \<Rightarrow> (if errors_Is e os_ErrNotExist then Inr s else Inl (Errorf ''walk %s: %w'' [S dir, W e])))"

section \<open>What a clean run of the walk means\<close>

text \<open>The errors one file gets, independently of the files before it.\<close>

definition file_errs ::
  "os \<Rightarrow> linter_libs \<Rightarrow> SchemaSet \<Rightarrow> LintCatalog option \<Rightarrow> Owners option \<Rightarrow> string \<Rightarrow> string \<Rightarrow> ValidationError list" where
  "file_errs fs l ss catalog owners dir path =
    (case os_ReadFile fs path of
       Inl e \<Rightarrow> [verr ''read error: %v'' [V e]]
     | Inr raw \<Rightarrow>
         (if ValidateRuleBytes l ss raw \<noteq> [] then ValidateRuleBytes l ss raw
          else if parseRuleVersion l raw = 2 then validateV2CrossChecks fs l raw catalog owners dir path else []))"

lemma update_nonempty [simp]: "AList.update k v xs \<noteq> []"
  by (cases xs) (auto split: prod.splits)

lemma append_errs_nonempty [simp]: "append_errs k errs results \<noteq> []"
  by (simp add: append_errs_def)

lemma validate_file_clean:
  "validate_file fs l ss catalog owners dir path (results, n) = (results', n') \<Longrightarrow>
    n' = n + 1 \<and> (results' = [] \<longleftrightarrow> results = [] \<and> file_errs fs l ss catalog owners dir path = [])"
  by (auto simp: validate_file_def file_errs_def Let_def split: sum.splits if_splits)

lemma validate_files_clean:
  "fold (validate_file fs l ss catalog owners dir) ps (results, n) = (results', n') \<Longrightarrow>
    n' = n + length ps \<and> (results' = [] \<longleftrightarrow> results = [] \<and> (\<forall>p \<in> set ps. file_errs fs l ss catalog owners dir p = []))"
proof (induction ps arbitrary: results n)
  case (Cons p ps)
  obtain results1 n1 where step: "validate_file fs l ss catalog owners dir p (results, n) = (results1, n1)"
    by (rule prod.exhaust)
  then have "fold (validate_file fs l ss catalog owners dir) ps (results1, n1) = (results', n')"
    using Cons.prems by simp
  from Cons.IH [OF this] validate_file_clean [OF step] show ?case by auto
qed simp

text \<open>The walk finds no error exactly when no listed file has one, and counts every listed file.\<close>

lemma ValidateRulesDir_clean:
  assumes "ValidateRulesDir fs l ss catalog owners dir = Inr (results, n)"
  shows "n = length (snd (rule_files metadata_file fs dir))"
    and "results = [] \<longleftrightarrow> (\<forall>p \<in> set (snd (rule_files metadata_file fs dir)). file_errs fs l ss catalog owners dir p = [])"
proof -
  have "fold (validate_file fs l ss catalog owners dir) (snd (rule_files metadata_file fs dir)) ([], 0) = (results, n)"
    using assms unfolding ValidateRulesDir_def rule_walk_fold
    by (auto split: option.splits if_splits)
  from validate_files_clean [OF this]
  show "n = length (snd (rule_files metadata_file fs dir))"
    and "results = [] \<longleftrightarrow> (\<forall>p \<in> set (snd (rule_files metadata_file fs dir)). file_errs fs l ss catalog owners dir p = [])"
    by auto
qed

lemma ValidateRule_clean: "ValidateRule l schema raw = [] \<longleftrightarrow> (\<exists>doc. ly_any l raw = Inr doc \<and> schema doc = None)"
  by (auto simp: ValidateRule_def split: sum.split option.split)

lemma ValidateRuleBytes_clean:
  "ValidateRuleBytes l ss raw = [] \<longleftrightarrow>
    (\<exists>schema. (ly_version l raw \<in> {0, 1} \<and> ss_V1 ss = Some schema \<or> ly_version l raw = 2 \<and> ss_V2 ss = Some schema) \<and>
       (\<exists>doc. ly_any l raw = Inr doc \<and> schema doc = None))"
  by (auto simp: ValidateRuleBytes_def parseRuleVersion_def Let_def ValidateRule_clean split: option.split)

text \<open>A check that passes: its kind is in the catalog, and prefix, source and parameters agree with it.\<close>

definition check_conforms :: "LintCatalog option \<Rightarrow> ruleDocV2 \<Rightarrow> ruleCheckV2 \<Rightarrow> bool" where
  "check_conforms catalog rule c \<longleftrightarrow>
    (kindPrefix (c2_Kind c) \<noteq> [] \<longrightarrow> kindPrefix (c2_Kind c) = d2_Mode rule) \<and>
    (\<exists>entry. Kind catalog (c2_Kind c) = Some entry \<and> ck_ParamsSchema entry (AMap (params_of c)) = None \<and>
       (expectedSourceTypeFor (ck_SourceMode entry) \<noteq> None \<longrightarrow>
          expectedSourceTypeFor (ck_SourceMode entry) = Some (r2_Type (d2_Source rule))))"

lemma kind_errs_clean: "kind_errs catalog rule c = [] \<longleftrightarrow> check_conforms catalog rule c"
  by (auto simp: kind_errs_def check_conforms_def Let_def Kind_def split: option.splits)

lemma checkExternalReferences_clean:
  "checkExternalReferences fs l root' path rule catalog = [] \<longleftrightarrow>
    (\<forall>c \<in> set (d2_Checks rule). \<forall>entry. Kind catalog (c2_Kind c) = Some entry \<longrightarrow> validateCheckExternalRefs fs l root' path c entry = [])"
  by (auto simp: checkExternalReferences_def Kind_def split: option.splits)

lemma validateV2CrossChecks_clean:
  "validateV2CrossChecks fs l raw catalog owners root' path = [] \<longleftrightarrow>
    (\<exists>rule. ly_rule l raw = Inr rule \<and> source_errs rule = [] \<and> owner_mode_errs owners rule = [] \<and>
       (\<forall>c \<in> set (d2_Checks rule). check_conforms catalog rule c) \<and>
       (\<forall>c \<in> set (d2_Checks rule). \<forall>entry. Kind catalog (c2_Kind c) = Some entry \<longrightarrow> validateCheckExternalRefs fs l root' path c entry = []))"
  by (auto simp: validateV2CrossChecks_def kind_errs_clean checkExternalReferences_clean split: sum.split)

end
