(* ===== verification/Lint_Owners.thy ===== *)
theory Lint_Owners
  imports Lint
begin

text \<open>
  Ownership checks of the linter: \<^verbatim>\<open>_owners.yaml\<close> (\<^verbatim>\<open>owners.go\<close>), the review groups of \<^verbatim>\<open>CODEOWNERS\<close>
  (\<^verbatim>\<open>codeowners.go\<close>), and the schema deprecation table (\<^verbatim>\<open>compatibility.go\<close>).
\<close>

section \<open>Owners file\<close>

definition LoadOwnersSchema :: "os \<Rightarrow> linter_libs \<Rightarrow> string \<Rightarrow> Schema result" where
  "LoadOwnersSchema fs l schemaPath =
    (case os_ReadFile fs schemaPath of
       Inl e \<Rightarrow> Inl (Errorf ''read owners schema: %w'' [W e])
     | Inr raw \<Rightarrow>
         (case ls_AddResource l schemaPath raw of
            Some e \<Rightarrow> Inl (Errorf ''add owners schema resource: %w'' [W e])
          | None \<Rightarrow> wrap_err ''compile owners schema: %w'' (ls_Compile l schemaPath raw)))"

record OwnersSchemaSet =
  os_V1 :: "Schema option"
  os_V2 :: "Schema option"
  os_V3 :: "Schema option"

definition LoadOwnersSchemaSet :: "os \<Rightarrow> linter_libs \<Rightarrow> string \<Rightarrow> string \<Rightarrow> string \<Rightarrow> OwnersSchemaSet result" where
  "LoadOwnersSchemaSet fs l v1Path v2Path v3Path =
    res_bind (load_unless_empty (LoadOwnersSchema fs l) ''v1 owners schema: %w'' v1Path)
      (\<lambda>s1. res_bind (load_unless_empty (LoadOwnersSchema fs l) ''v2 owners schema: %w'' v2Path)
        (\<lambda>s2. res_bind (load_unless_empty (LoadOwnersSchema fs l) ''v3 owners schema: %w'' v3Path)
          (\<lambda>s3. Inr \<lparr>os_V1 = s1, os_V2 = s2, os_V3 = s3\<rparr>)))"

definition parseOwnersVersion :: "linter_libs \<Rightarrow> string \<Rightarrow> int" where
  "parseOwnersVersion l raw = ly_owners_version l raw"

definition owners_schema :: "OwnersSchemaSet \<Rightarrow> int \<Rightarrow> ValidationError + Schema" where
  "owners_schema set' version =
    (let need = (\<lambda>s msg. case s of None \<Rightarrow> Inl (verr msg []) | Some s \<Rightarrow> Inr s)
     in if version = 0 \<or> version = 1 then need (os_V1 set') ''no v1 owners schema loaded; cannot validate _owners.yaml''
        else if version = 2 then need (os_V2 set') ''_owners.yaml declares schema_version 2 but no v2 owners schema is loaded''
        else if version = 3 then need (os_V3 set') ''_owners.yaml declares schema_version 3 but no v3 owners schema is loaded''
        else Inl (verr ''_owners.yaml declares unsupported schema_version %d'' [S (show_int version)]))"

definition string_field :: "go_map \<Rightarrow> string \<Rightarrow> string" where
  "string_field m k = (case map_of m k of Some (AStr s) \<Rightarrow> s | _ \<Rightarrow> [])"

definition channel_refs :: "any list \<Rightarrow> string list" where
  "channel_refs vs = List.map_filter (\<lambda>v. case v of AStr s \<Rightarrow> Some s | _ \<Rightarrow> None) vs"

definition owner_entity :: "any \<Rightarrow> OwnerEntity" where
  "owner_entity entAny =
    (case entAny of
       AMap entMap \<Rightarrow>
         \<lparr>oe_Mode = string_field entMap ''mode'', oe_Owner = string_field entMap ''owner'',
          oe_Onboarding = (case map_of entMap ''onboarding'' of Some (ABool b) \<Rightarrow> b | _ \<Rightarrow> False),
          oe_Channels = (case map_of entMap ''channels'' of
              Some (AMap chAny) \<Rightarrow>
                List.map_filter (\<lambda>(cat, listAny). case listAny of AList vs \<Rightarrow> Some (cat, channel_refs vs) | _ \<Rightarrow> None) chAny
            | _ \<Rightarrow> [])\<rparr>
     | _ \<Rightarrow> \<lparr>oe_Mode = [], oe_Owner = [], oe_Onboarding = False, oe_Channels = []\<rparr>)"

text \<open>The three results: an operational error, or owners that are nil exactly when there are validation errors.\<close>

definition LoadOwners :: "os \<Rightarrow> linter_libs \<Rightarrow> OwnersSchemaSet \<Rightarrow> string \<Rightarrow> (Owners option \<times> ValidationError list) result" where
  "LoadOwners fs l set' ownersPath =
    (case os_ReadFile fs ownersPath of
       Inl e \<Rightarrow>
         (if errors_Is e os_ErrNotExist then Inr (Some \<lparr>ow_SchemaVersion = 0, ow_Entities = [], ow_Path = []\<rparr>, [])
          else Inl (Errorf ''read owners: %w'' [W e]))
     | Inr raw \<Rightarrow>
         (case ly_any l raw of
            Inl e \<Rightarrow> Inr (None, [verr ''yaml parse error: %v'' [V e]])
          | Inr doc \<Rightarrow>
              (let version = parseOwnersVersion l raw
               in case owners_schema set' version of
                    Inl ve \<Rightarrow> Inr (None, [ve])
                  | Inr schema \<Rightarrow>
                      (case schema doc of
                         Some e \<Rightarrow> Inr (None, [\<lparr>ve_Message = Error e\<rparr>])
                       | None \<Rightarrow>
                           Inr (Some \<lparr>ow_SchemaVersion = (if version = 0 then 1 else version),
                                  ow_Entities = (case doc of
                                      AMap m \<Rightarrow> (case map_of m ''entities'' of
                                          Some (AMap entities) \<Rightarrow> map (\<lambda>(name, entAny). (name, owner_entity entAny)) entities
                                        | _ \<Rightarrow> [])
                                    | _ \<Rightarrow> []),
                                  ow_Path = ownersPath\<rparr>, [])))))"

definition owners_file :: "string \<Rightarrow> bool" where
  "owners_file name \<longleftrightarrow> name = ''_owners.yaml'' \<or> name = ''_owners.yml''"

definition listRuleYAMLs :: "os \<Rightarrow> string \<Rightarrow> string list result" where
  "listRuleYAMLs fs rulesDir =
    (case WalkDir fs (rule_walk owners_file (\<lambda>path paths. (Continue, paths @ [path]))) rulesDir [] of
       (None, paths) \<Rightarrow> Inr paths
     | (Some e, paths) \<Rightarrow> (if errors_Is e os_ErrNotExist then Inr [] else Inl (Errorf ''walk %s: %w'' [S rulesDir, W e])))"

text \<open>A call that returns, or dereferences a nil pointer.\<close>

datatype 'a go_return = Returns 'a | Panics

definition owner_check :: "os \<Rightarrow> linter_libs \<Rightarrow> Owners \<Rightarrow> string \<Rightarrow> lint_results \<Rightarrow> lint_results" where
  "owner_check fs l owners path results =
    (case os_ReadFile fs path of
       Inl e \<Rightarrow> AList.update path [verr ''read for owners check: %v'' [V e]] results
     | Inr raw \<Rightarrow>
         (case ly_entity l raw of
            Inl e \<Rightarrow> results
          | Inr entity \<Rightarrow>
              (if entity = [] then results
               else if map_of (ow_Entities owners) entity = None
               then AList.update path [verr ''ADR-0006 CC9: entity %q has no entry in _owners.yaml; rules without owners cannot route alerts'' [S entity]] results
               else results)))"

definition CheckRulesHaveOwners :: "os \<Rightarrow> linter_libs \<Rightarrow> Owners option \<Rightarrow> string \<Rightarrow> lint_results result go_return" where
  "CheckRulesHaveOwners fs l owners rulesDir =
    (case listRuleYAMLs fs rulesDir of
       Inl e \<Rightarrow> Returns (Inl e)
     | Inr rulePaths \<Rightarrow>
         (if rulePaths = [] then Returns (Inr [])
          else case owners of
            None \<Rightarrow> Panics
          | Some o' \<Rightarrow>
              (if ow_Entities o' = []
               then Returns (Inr [(rulesDir, [verr ''ADR-0006 CC9: rules exist under %s but no _owners.yaml entities are declared; every entity with checks must have an owner'' [S rulesDir]])])
               else Returns (Inr (fold (owner_check fs l o') rulePaths [])))))"

section \<open>Review groups\<close>

record CodeOwnersGroups =
  cg_set :: "string list"
  cg_Path :: string

definition group_char :: "char \<Rightarrow> bool" where
  "group_char c \<longleftrightarrow> is_alnum c \<or> c \<in> set ''._-''"

definition codeOwnersGroupPattern :: "string \<Rightarrow> bool" where
  "codeOwnersGroupPattern tok =
    (case tok of
       [] \<Rightarrow> False
     | c # rest \<Rightarrow> c = CHR ''@'' \<and>
         (let parts = strings_Split rest (CHR ''/'') in length parts \<le> 2 \<and> list_all (matches_plus group_char) parts))"

text \<open>\<^verbatim>\<open>bufio.Scanner\<close>: the lines, the last one without its newline; a line that does not fit 64 KiB ends it.\<close>

definition bufio_ErrTooLong :: goerr where "bufio_ErrTooLong = errors_New ''bufio.Scanner: token too long''"

definition file_lines :: "string \<Rightarrow> string list" where
  "file_lines content =
    (let parts = strings_Split content (char_of (10 :: nat)) in if last parts = [] then butlast parts else parts)"

definition scan_lines :: "string \<Rightarrow> goerr option \<Rightarrow> string list result" where
  "scan_lines content readErr =
    (if list_ex (\<lambda>line. 65535 < length line) (file_lines content) then Inl bufio_ErrTooLong
     else case readErr of Some e \<Rightarrow> Inl e | None \<Rightarrow> Inr (file_lines content))"

text \<open>\<^verbatim>\<open>strings.Fields\<close> on ASCII text.\<close>

definition strings_Fields :: "string \<Rightarrow> string list" where
  "strings_Fields s = filter (\<lambda>f. f \<noteq> []) (strings_Split (map (\<lambda>c. if is_space c then CHR '' '' else c) s) (CHR '' ''))"

definition line_groups :: "string \<Rightarrow> string list" where
  "line_groups text =
    (let line = TrimSpace (rev (dropWhile (\<lambda>c. c = char_of (13 :: nat)) (rev text)))
     in if line = [] \<or> HasPrefix line ''#'' then []
        else (let tokens = strings_Fields line in if length tokens < 2 then [] else filter codeOwnersGroupPattern (tl tokens)))"

text \<open>\<open>opened\<close> is \<^verbatim>\<open>os.Open\<close>: the bytes that can be read and the error that ends reading, if any.\<close>

definition LoadCodeOwners :: "(string \<Rightarrow> (string \<times> goerr option) result) \<Rightarrow> string \<Rightarrow> CodeOwnersGroups result" where
  "LoadCodeOwners opened path =
    (if path = [] then Inr \<lparr>cg_set = [], cg_Path = path\<rparr>
     else case opened path of
       Inl e \<Rightarrow> Inl (Errorf ''read codeowners %s: %w'' [S path, W e])
     | Inr (content, readErr) \<Rightarrow>
         (case scan_lines content readErr of
            Inl e \<Rightarrow> Inl (Errorf ''scan codeowners %s: %w'' [S path, W e])
          | Inr ls \<Rightarrow> Inr \<lparr>cg_set = remdups (concat (map line_groups ls)), cg_Path = path\<rparr>))"

definition Contains_group :: "CodeOwnersGroups \<Rightarrow> string \<Rightarrow> bool" where
  "Contains_group g grp \<longleftrightarrow> grp \<in> set (cg_set g)"

definition Slice :: "CodeOwnersGroups \<Rightarrow> string list" where
  "Slice g = sort (cg_set g)"

definition CheckOwnersGroupMembership :: "Owners option \<Rightarrow> CodeOwnersGroups \<Rightarrow> ValidationError list" where
  "CheckOwnersGroupMembership owners groups =
    (case owners of
       None \<Rightarrow> []
     | Some o' \<Rightarrow>
         (if cg_set groups = [] then []
          else concat (map (\<lambda>name.
              (case map_of (ow_Entities o') name of
                 None \<Rightarrow> []
               | Some ent \<Rightarrow>
                   (if oe_Owner ent = [] \<or> Contains_group groups (oe_Owner ent) then []
                    else [verr ''ADR-0037: entity %q owner %q does not match any CODEOWNERS group in %s; valid groups: %v''
                            [S name, S (oe_Owner ent), S (cg_Path groups), S (show_strings (Slice groups))]])))
              (sort (map fst (ow_Entities o'))))))"

section \<open>Deprecated schema versions\<close>

definition SchemaStatusCurrent :: string where "SchemaStatusCurrent = ''current''"
definition SchemaStatusDeprecated :: string where "SchemaStatusDeprecated = ''deprecated''"

record SchemaCompatibilityEntry =
  sce_Status :: string
  sce_EngineSupportSince :: string
  sce_EarliestDrop :: string

definition SchemaCompatibility :: "int \<rightharpoonup> SchemaCompatibilityEntry" where
  "SchemaCompatibility =
    [1 \<mapsto> \<lparr>sce_Status = SchemaStatusDeprecated, sce_EngineSupportSince = ''0.1.0'', sce_EarliestDrop = ''2026-08-23''\<rparr>,
     2 \<mapsto> \<lparr>sce_Status = SchemaStatusCurrent, sce_EngineSupportSince = ''0.1.0'', sce_EarliestDrop = ''TBD (when v3 ships)''\<rparr>]"

definition SchemaVersionStatus :: "int \<Rightarrow> SchemaCompatibilityEntry option" where
  "SchemaVersionStatus version = SchemaCompatibility version"

record DeprecationWarning =
  dw_Path :: string
  dw_Version :: int
  dw_Message :: string

definition deprecation_check :: "os \<Rightarrow> linter_libs \<Rightarrow> string \<Rightarrow> DeprecationWarning list \<Rightarrow> DeprecationWarning list" where
  "deprecation_check fs l path warnings =
    (case os_ReadFile fs path of
       Inl e \<Rightarrow> warnings
     | Inr raw \<Rightarrow>
         (let version = parseRuleVersion l raw
          in if version = 0 then warnings
             else case SchemaVersionStatus version of
               None \<Rightarrow> warnings
             | Some entry \<Rightarrow>
                 (if sce_Status entry \<noteq> SchemaStatusDeprecated then warnings
                  else warnings @ [\<lparr>dw_Path = path, dw_Version = version,
                    dw_Message = Sprintf ''rule declares schema version %d which is deprecated per ADR-0035 (engine support since %s; earliest drop %s); migrate to a `current` version before the drop date''
                      [S (show_int version), S (sce_EngineSupportSince entry), S (sce_EarliestDrop entry)]\<rparr>])))"

text \<open>
  The source asks \<^verbatim>\<open>os.IsNotExist\<close>, which does not unwrap; the errors that reach it are those of \<^verbatim>\<open>WalkDir\<close> itself, unwrapped, on
  which it agrees with \<^verbatim>\<open>errors.Is\<close>.
\<close>

definition CheckDeprecatedSchemaVersions :: "os \<Rightarrow> linter_libs \<Rightarrow> string \<Rightarrow> DeprecationWarning list result" where
  "CheckDeprecatedSchemaVersions fs l dir =
    (case WalkDir fs (rule_walk metadata_file (\<lambda>path ws. (Continue, deprecation_check fs l path ws))) dir [] of
       (None, ws) \<Rightarrow> Inr ws
     | (Some e, ws) \<Rightarrow> (if errors_Is e os_ErrNotExist then Inr ws else Inl (Errorf ''walk %s: %w'' [S dir, W e])))"

section \<open>Lemmas\<close>

lemma listRuleYAMLs_eq:
  "listRuleYAMLs fs dir =
    (case rule_files owners_file fs dir of
       (None, paths) \<Rightarrow> Inr paths
     | (Some e, paths) \<Rightarrow> (if errors_Is e os_ErrNotExist then Inr [] else Inl (Errorf ''walk %s: %w'' [S dir, W e])))"
  by (simp add: listRuleYAMLs_def rule_files_def)

text \<open>The owners pointer is nil exactly when the file has validation errors.\<close>

lemma LoadOwners_nil: "LoadOwners fs l set' path = Inr (owners, errs) \<Longrightarrow> owners = None \<longleftrightarrow> errs \<noteq> []"
  by (auto simp: LoadOwners_def Let_def split: sum.splits option.splits if_splits)

text \<open>A file passes the ownership pass if it can be read and names no entity, or an owned one.\<close>

definition owned :: "os \<Rightarrow> linter_libs \<Rightarrow> Owners \<Rightarrow> string \<Rightarrow> bool" where
  "owned fs l owners path \<longleftrightarrow>
    (\<exists>raw. os_ReadFile fs path = Inr raw \<and>
       (\<forall>entity. ly_entity l raw = Inr entity \<longrightarrow> entity = [] \<or> map_of (ow_Entities owners) entity \<noteq> None))"

lemma owner_check_clean: "owner_check fs l owners path results = [] \<longleftrightarrow> results = [] \<and> owned fs l owners path"
  by (auto simp: owner_check_def owned_def split: sum.splits)

lemma owner_checks_clean:
  "fold (owner_check fs l owners) ps results = [] \<longleftrightarrow> results = [] \<and> (\<forall>p \<in> set ps. owned fs l owners p)"
  by (induction ps arbitrary: results) (auto simp: owner_check_clean)

lemma CheckRulesHaveOwners_clean:
  "CheckRulesHaveOwners fs l owners dir = Returns (Inr []) \<longleftrightarrow>
    (\<exists>ps. listRuleYAMLs fs dir = Inr ps \<and>
       (ps = [] \<or> (\<exists>o'. owners = Some o' \<and> ow_Entities o' \<noteq> [] \<and> (\<forall>p \<in> set ps. owned fs l o' p))))"
  by (auto simp: CheckRulesHaveOwners_def owner_checks_clean split: sum.split option.split)

lemma CheckRulesHaveOwners_panics:
  "CheckRulesHaveOwners fs l owners dir = Panics \<longleftrightarrow> owners = None \<and> (\<exists>ps. listRuleYAMLs fs dir = Inr ps \<and> ps \<noteq> [])"
  by (auto simp: CheckRulesHaveOwners_def split: sum.split option.split)

text \<open>The listing of the ownership pass contains that of the validation pass, which skips more names.\<close>

lemma owners_file_metadata: "owners_file name \<Longrightarrow> metadata_file name"
  by (auto simp: owners_file_def metadata_file_def HasPrefix_def)

lemma rule_files_weaken:
  assumes "\<And>name. skip' name \<Longrightarrow> skip name"
  shows "fst (rule_files skip fs dir) = fst (rule_files skip' fs dir) \<and>
    set (snd (rule_files skip fs dir)) \<subseteq> set (snd (rule_files skip' fs dir))"
proof -
  have "visit_sim (\<lambda>_ _. False) (\<lambda>ps qs. set ps \<subseteq> set qs) (rule_walk skip (\<lambda>p ps. (Continue, ps @ [p])))
    (rule_walk skip' (\<lambda>p ps. (Continue, ps @ [p])))"
    using assms by (auto simp: visit_sim_def visit_keeps_def outcome_sim_def rule_walk_def split: option.split)
  from WalkDir_sim [OF this, where a = "[]" and b = "[]" and fs = fs and dir = dir] show ?thesis
    unfolding rule_files_def by simp
qed

end
