(* ===== verification/Lint_Main.thy ===== *)
theory Lint_Main
  imports Lint_Owners
begin

text \<open>
  Channel reachability (\<^verbatim>\<open>reachability.go\<close>) and the \<^verbatim>\<open>dq-lint\<close> command (\<^verbatim>\<open>main.go\<close>) over parsed flags, with the exit
  status of every path. The HTTP client, the Slack payload decoder and the MX resolver are parameters.
\<close>

section \<open>Channel reachability\<close>

definition ReachabilityPass :: string where "ReachabilityPass = ''pass''"
definition ReachabilityFail :: string where "ReachabilityFail = ''fail''"
definition ReachabilitySkipped :: string where "ReachabilitySkipped = ''skipped''"

record ReachabilityResult =
  rh_Entity :: string
  rh_Category :: string
  rh_Channel :: string
  rh_Status :: string
  rh_Reason :: string

definition outcome_of :: "string \<Rightarrow> string \<Rightarrow> ReachabilityResult" where
  "outcome_of status reason = \<lparr>rh_Entity = [], rh_Category = [], rh_Channel = [], rh_Status = status, rh_Reason = reason\<rparr>"

text \<open>An adapter is its channel type and its \<^verbatim>\<open>Check\<close>.\<close>

type_synonym adapter = "string \<times> (string \<Rightarrow> ReachabilityResult)"

record AdapterRegistry =
  ar_byType :: "(string \<times> (string \<Rightarrow> ReachabilityResult)) list"

definition NewAdapterRegistry :: AdapterRegistry where
  "NewAdapterRegistry = \<lparr>ar_byType = []\<rparr>"

definition Register :: "AdapterRegistry \<Rightarrow> adapter \<Rightarrow> AdapterRegistry" where
  "Register r a = r\<lparr>ar_byType := AList.update (fst a) (snd a) (ar_byType r)\<rparr>"

text \<open>The id is everything after the first colon; neither part is empty.\<close>

definition splitChannelRef :: "string \<Rightarrow> (string \<times> string) option" where
  "splitChannelRef ref =
    (let chanType = takeWhile (\<lambda>c. c \<noteq> CHR '':'') ref; rest = dropWhile (\<lambda>c. c \<noteq> CHR '':'') ref
     in if rest = [] \<or> chanType = [] \<or> tl rest = [] then None else Some (chanType, tl rest))"

text \<open>
  The client: whether a request can be built for the URL, and the answer to it, a status with the body
  or the error of reading it.
\<close>

record http =
  ht_NewRequest :: "string \<Rightarrow> goerr option"
  ht_Do :: "string \<Rightarrow> (string \<times> string) list \<Rightarrow> (int \<times> string result) result"
  ht_slack :: "string \<Rightarrow> (bool \<times> string) result"
  ht_LookupMX :: "string \<Rightarrow> nat result"

definition url_keep :: "char \<Rightarrow> bool" where
  "url_keep c \<longleftrightarrow> is_alnum c \<or> c \<in> set ''-_.~''"

definition percent :: "char \<Rightarrow> string" where
  "percent c = (let n = (of_char c :: nat); hex = (\<lambda>d. if d < 10 then char_of (48 + d) else char_of (55 + d :: nat))
                in [CHR ''%'', hex (n div 16), hex (n mod 16)])"

definition QueryEscape :: "string \<Rightarrow> string" where
  "QueryEscape s = concat (map (\<lambda>c. if url_keep c then [c] else if c = CHR '' '' then ''+'' else percent c) s)"

definition PathEscape :: "string \<Rightarrow> string" where
  "PathEscape s = concat (map (\<lambda>c. if url_keep c \<or> c \<in> set ''$&+=:@'' then [c] else percent c) s)"

definition SlackAdapter_Check :: "http \<Rightarrow> string \<Rightarrow> string \<Rightarrow> string \<Rightarrow> ReachabilityResult" where
  "SlackAdapter_Check h token endpoint id' =
    (if token = [] then outcome_of ReachabilitySkipped ''credential absent (DQ_LINT_SLACK_TOKEN unset)''
     else let u = endpoint @ ''/conversations.info?channel='' @ QueryEscape (TrimPrefix id' ''#'')
       in case ht_NewRequest h u of
            Some e \<Rightarrow> outcome_of ReachabilityFail (Sprintf ''build request: %v'' [V e])
          | None \<Rightarrow>
              (case ht_Do h u [(''Authorization'', ''Bearer '' @ token)] of
                 Inl e \<Rightarrow> outcome_of ReachabilityFail (Sprintf ''http: %v'' [V e])
               | Inr (status, body) \<Rightarrow>
                   (if status \<noteq> 200 then outcome_of ReachabilityFail (Sprintf ''Slack API returned HTTP %d'' [S (show_int status)])
                    else case body of
                      Inl e \<Rightarrow> outcome_of ReachabilityFail (Sprintf ''read body: %v'' [V e])
                    | Inr raw \<Rightarrow>
                        (case ht_slack h raw of
                           Inl e \<Rightarrow> outcome_of ReachabilityFail (Sprintf ''parse response: %v'' [V e])
                         | Inr (ok, err) \<Rightarrow>
                             (if \<not> ok then outcome_of ReachabilityFail (Sprintf ''Slack API error: %s'' [S err])
                              else outcome_of ReachabilityPass ''Slack channel resolved'')))))"

definition NewSlackAdapter :: "http \<Rightarrow> string \<Rightarrow> string \<Rightarrow> adapter" where
  "NewSlackAdapter h token endpointOverride =
    (''slack'', SlackAdapter_Check h token (if endpointOverride = [] then ''https://slack.com/api'' else endpointOverride))"

definition EmailAdapter_Check :: "http \<Rightarrow> string \<Rightarrow> ReachabilityResult" where
  "EmailAdapter_Check h id' =
    (let domain = rev (takeWhile (\<lambda>c. c \<noteq> CHR ''@'') (rev id')); user = rev (tl (dropWhile (\<lambda>c. c \<noteq> CHR ''@'') (rev id')))
     in if CHR ''@'' \<notin> set id' \<or> user = [] \<or> domain = []
        then outcome_of ReachabilityFail (Sprintf ''email address %q is malformed (expected user@domain)'' [S id'])
        else case ht_LookupMX h domain of
          Inl e \<Rightarrow> outcome_of ReachabilityFail (Sprintf ''MX lookup for %s: %v'' [S domain, V e])
        | Inr n \<Rightarrow>
            (if n = 0 then outcome_of ReachabilityFail (Sprintf ''no MX records for %s'' [S domain])
             else outcome_of ReachabilityPass (Sprintf ''%d MX record(s) for %s'' [S (show_nat n), S domain])))"

definition NewEmailAdapter :: "http \<Rightarrow> adapter" where
  "NewEmailAdapter h = (''email'', EmailAdapter_Check h)"

definition PagerDutyAdapter_Check :: "http \<Rightarrow> string \<Rightarrow> string \<Rightarrow> string \<Rightarrow> ReachabilityResult" where
  "PagerDutyAdapter_Check h apiKey endpoint id' =
    (if apiKey = [] then outcome_of ReachabilitySkipped ''credential absent (DQ_LINT_PAGERDUTY_KEY unset)''
     else let u = endpoint @ ''/services/'' @ PathEscape id'
       in case ht_NewRequest h u of
            Some e \<Rightarrow> outcome_of ReachabilityFail (Sprintf ''build request: %v'' [V e])
          | None \<Rightarrow>
              (case ht_Do h u [(''Authorization'', ''Token token='' @ apiKey), (''Accept'', ''application/vnd.pagerduty+json;version=2'')] of
                 Inl e \<Rightarrow> outcome_of ReachabilityFail (Sprintf ''http: %v'' [V e])
               | Inr (status, _) \<Rightarrow>
                   (if status = 200 then outcome_of ReachabilityPass ''PagerDuty service resolved''
                    else if status = 401 \<or> status = 403
                    then outcome_of ReachabilityFail (Sprintf (''PagerDuty auth failed (HTTP %d) '' @ em_dash @ '' check DQ_LINT_PAGERDUTY_KEY scope'') [S (show_int status)])
                    else outcome_of ReachabilityFail (Sprintf ''PagerDuty API returned HTTP %d'' [S (show_int status)]))))"

definition NewPagerDutyAdapter :: "http \<Rightarrow> string \<Rightarrow> string \<Rightarrow> adapter" where
  "NewPagerDutyAdapter h apiKey endpointOverride =
    (''pagerduty'', PagerDutyAdapter_Check h apiKey (if endpointOverride = [] then ''https://api.pagerduty.com'' else endpointOverride))"

definition NewDefaultRegistry :: "http \<Rightarrow> (string \<Rightarrow> string) \<Rightarrow> AdapterRegistry" where
  "NewDefaultRegistry h getenv =
    Register (Register (Register NewAdapterRegistry (NewSlackAdapter h (getenv ''DQ_LINT_SLACK_TOKEN'') [])) (NewEmailAdapter h))
      (NewPagerDutyAdapter h (getenv ''DQ_LINT_PAGERDUTY_KEY'') [])"

definition probe :: "AdapterRegistry \<Rightarrow> string \<Rightarrow> ReachabilityResult" where
  "probe registry ref =
    (case splitChannelRef ref of
       None \<Rightarrow> outcome_of ReachabilitySkipped ''malformed channel reference (expected `<type>:<id>`)''
     | Some (chanType, id') \<Rightarrow>
         (case map_of (ar_byType registry) chanType of
            None \<Rightarrow> outcome_of ReachabilitySkipped (Sprintf ''unknown channel type %q (no adapter registered)'' [S chanType])
          | Some chk \<Rightarrow> chk id'))"

definition CheckChannelReachability :: "Owners option \<Rightarrow> AdapterRegistry \<Rightarrow> ReachabilityResult list" where
  "CheckChannelReachability owners registry =
    (case owners of
       None \<Rightarrow> []
     | Some o' \<Rightarrow>
         concat (map (\<lambda>entityName.
           (case map_of (ow_Entities o') entityName of
              None \<Rightarrow> []
            | Some ent \<Rightarrow>
                concat (map (\<lambda>cat.
                  map (\<lambda>ref. (probe registry ref)\<lparr>rh_Entity := entityName, rh_Category := cat, rh_Channel := ref\<rparr>)
                    (case map_of (oe_Channels ent) cat of None \<Rightarrow> [] | Some refs \<Rightarrow> refs))
                  (sort (map fst (oe_Channels ent))))))
           (sort (map fst (ow_Entities o')))))"

section \<open>dq-lint\<close>

record lint_flags =
  lf_schema :: string
  lf_schema_v2 :: string
  lf_owners_schema :: string
  lf_owners_schema_v2 :: string
  lf_owners_schema_v3 :: string
  lf_catalog :: string
  lf_owners :: string
  lf_rules :: string
  lf_codeowners :: string
  lf_no_deprecation_warnings :: bool
  lf_check_channel_reachability :: bool

record lint_env =
  le_fs :: os
  le_libs :: linter_libs
  le_open :: "string \<Rightarrow> (string \<times> goerr option) result"
  le_http :: http
  le_getenv :: "string \<Rightarrow> string"

text \<open>How a run ends: an operational failure, a nil dereference, or all passes with what they printed.\<close>

datatype lint_outcome =
    Operational goerr
  | Panicked
  | Finished lint_results "DeprecationWarning list" "ReachabilityResult list"

text \<open>The exit status; the Go runtime exits with 2 on a panic.\<close>

definition exitOK :: int where "exitOK = 0"
definition exitValidationError :: int where "exitValidationError = 1"
definition exitOperationalError :: int where "exitOperationalError = 2"

definition exit_status :: "lint_outcome \<Rightarrow> int" where
  "exit_status out =
    (case out of
       Operational _ \<Rightarrow> exitOperationalError
     | Panicked \<Rightarrow> 2
     | Finished results _ _ \<Rightarrow> (if results = [] then exitOK else exitValidationError))"

text \<open>After the rules were validated and owners-checked: the group check, the warnings, the probes.\<close>

definition lint_finish :: "lint_env \<Rightarrow> lint_flags \<Rightarrow> Owners option \<Rightarrow> lint_results \<Rightarrow> lint_outcome" where
  "lint_finish env f owners results =
    (case LoadCodeOwners (le_open env) (lf_codeowners f) of
       Inl e \<Rightarrow> Operational e
     | Inr codeowners \<Rightarrow>
         (let errs = CheckOwnersGroupMembership owners codeowners;
              results = (if errs \<noteq> [] then append_errs (lf_owners f) errs results else results)
          in case (if lf_no_deprecation_warnings f then Inr [] else CheckDeprecatedSchemaVersions (le_fs env) (le_libs env) (lf_rules f)) of
               Inl e \<Rightarrow> Operational e
             | Inr warnings \<Rightarrow>
                 Finished results warnings
                   (if lf_check_channel_reachability f
                    then CheckChannelReachability owners (NewDefaultRegistry (le_http env) (le_getenv env)) else [])))"

definition lint_main :: "lint_env \<Rightarrow> lint_flags \<Rightarrow> lint_outcome" where
  "lint_main env f =
    (let fs = le_fs env; l = le_libs env
     in case LoadSchemaSet fs l (lf_schema f) (lf_schema_v2 f) of
          Inl e \<Rightarrow> Operational e
        | Inr schemaSet \<Rightarrow>
     (case LoadOwnersSchemaSet fs l (lf_owners_schema f) (lf_owners_schema_v2 f) (lf_owners_schema_v3 f) of
          Inl e \<Rightarrow> Operational e
        | Inr ownersSchemaSet \<Rightarrow>
     (case LoadCatalog fs l (lf_catalog f) of
          Inl e \<Rightarrow> Operational e
        | Inr catalog \<Rightarrow>
     (case LoadOwners fs l ownersSchemaSet (lf_owners f) of
          Inl e \<Rightarrow> Operational e
        | Inr (owners, ownersErrs) \<Rightarrow>
     (case ValidateRulesDir fs l schemaSet catalog owners (lf_rules f) of
          Inl e \<Rightarrow> Operational e
        | Inr (results, _) \<Rightarrow>
            (let results = (if ownersErrs \<noteq> [] then append_errs (lf_owners f) ownersErrs results else results)
             in case CheckRulesHaveOwners fs l owners (lf_rules f) of
                  Panics \<Rightarrow> Panicked
                | Returns (Inl e) \<Rightarrow> Operational e
                | Returns (Inr checked) \<Rightarrow>
                    lint_finish env f owners (fold (\<lambda>(path, errs). append_errs path errs) checked results)))))))"

section \<open>When the linter accepts\<close>

lemma fold_append_errs_Nil: "fold (\<lambda>(path, errs). append_errs path errs) checked results = [] \<longleftrightarrow> checked = [] \<and> results = []"
  by (induction checked arbitrary: results) (simp_all add: split_beta)

lemma exit_status_ok: "exit_status out = exitOK \<longleftrightarrow> (\<exists>ws rs. out = Finished [] ws rs)"
  by (simp add: exit_status_def exitOK_def exitValidationError_def exitOperationalError_def split: lint_outcome.split)

lemma exit_status_failed [simp]: "exit_status (Operational e) \<noteq> exitOK" "exit_status Panicked \<noteq> exitOK"
  by (simp_all add: exit_status_ok)

lemma lint_finish_ok:
  "exit_status (lint_finish env f owners results) = exitOK \<longleftrightarrow>
    results = [] \<and> (\<exists>groups. LoadCodeOwners (le_open env) (lf_codeowners f) = Inr groups \<and> CheckOwnersGroupMembership owners groups = []) \<and>
    (lf_no_deprecation_warnings f \<or> \<not> isl (CheckDeprecatedSchemaVersions (le_fs env) (le_libs env) (lf_rules f)))"
  by (auto simp: lint_finish_def Let_def exit_status_ok split: sum.split)

text \<open>The five loads every run starts with.\<close>

definition lint_loads :: "lint_env \<Rightarrow> lint_flags \<Rightarrow> SchemaSet \<Rightarrow> LintCatalog option \<Rightarrow> Owners option \<Rightarrow> ValidationError list \<Rightarrow> bool" where
  "lint_loads env f ss catalog owners errs \<longleftrightarrow>
    LoadSchemaSet (le_fs env) (le_libs env) (lf_schema f) (lf_schema_v2 f) = Inr ss \<and>
    LoadCatalog (le_fs env) (le_libs env) (lf_catalog f) = Inr catalog \<and>
    (\<exists>oss. LoadOwnersSchemaSet (le_fs env) (le_libs env) (lf_owners_schema f) (lf_owners_schema_v2 f) (lf_owners_schema_v3 f) = Inr oss \<and>
       LoadOwners (le_fs env) (le_libs env) oss (lf_owners f) = Inr (owners, errs))"

lemma lint_main_cases:
  obtains (failed) e where "lint_main env f = Operational e" "\<nexists>ss catalog owners errs. lint_loads env f ss catalog owners errs"
  | (loaded) ss catalog owners errs where "lint_loads env f ss catalog owners errs"
      "lint_main env f =
        (case ValidateRulesDir (le_fs env) (le_libs env) ss catalog owners (lf_rules f) of
           Inl e \<Rightarrow> Operational e
         | Inr (results, _) \<Rightarrow>
             (case CheckRulesHaveOwners (le_fs env) (le_libs env) owners (lf_rules f) of
                Panics \<Rightarrow> Panicked
              | Returns (Inl e) \<Rightarrow> Operational e
              | Returns (Inr checked) \<Rightarrow>
                  lint_finish env f owners (fold (\<lambda>(path, errs). append_errs path errs) checked
                    (if errs \<noteq> [] then append_errs (lf_owners f) errs results else results))))"
proof (cases "\<exists>ss catalog owners errs. lint_loads env f ss catalog owners errs")
  case True
  then obtain ss catalog owners errs where ld: "lint_loads env f ss catalog owners errs" by blast
  then show ?thesis by (intro loaded [OF ld]) (unfold lint_main_def Let_def, auto simp: lint_loads_def)
next
  case False
  then have "\<exists>e. lint_main env f = Operational e"
    by (auto simp: lint_loads_def lint_main_def Let_def split: sum.split prod.split)
  then show ?thesis using failed False by blast
qed

lemma lint_loads_unique:
  "lint_loads env f ss catalog owners errs \<Longrightarrow> lint_loads env f ss' catalog' owners' errs' \<Longrightarrow>
    ss' = ss \<and> catalog' = catalog \<and> owners' = owners \<and> errs' = errs"
  by (auto simp: lint_loads_def)

text \<open>
  \<^verbatim>\<open>dq-lint\<close> exits with 0 exactly when the schemas, the catalog and a valid \<^verbatim>\<open>_owners.yaml\<close> load, every rule
  file of the walk is readable, valid for the schema of its version and, at version 2, free of
  cross-check errors, every listed file that names an entity names an owned one, every owner is a review
  group of a \<^verbatim>\<open>CODEOWNERS\<close> file that loads, and no walk fails.
\<close>

lemma lint_ok_iff:
  "exit_status (lint_main env f) = exitOK \<longleftrightarrow>
    (\<exists>ss catalog owners groups ps. lint_loads env f ss catalog (Some owners) [] \<and>
       \<not> isl (ValidateRulesDir (le_fs env) (le_libs env) ss catalog (Some owners) (lf_rules f)) \<and>
       list_all (\<lambda>p. file_errs (le_fs env) (le_libs env) ss catalog (Some owners) (lf_rules f) p = [])
         (snd (rule_files metadata_file (le_fs env) (lf_rules f))) \<and>
       listRuleYAMLs (le_fs env) (lf_rules f) = Inr ps \<and>
       (ps = [] \<or> ow_Entities owners \<noteq> [] \<and> list_all (owned (le_fs env) (le_libs env) owners) ps) \<and>
       LoadCodeOwners (le_open env) (lf_codeowners f) = Inr groups \<and> CheckOwnersGroupMembership (Some owners) groups = [] \<and>
       (lf_no_deprecation_warnings f \<or> \<not> isl (CheckDeprecatedSchemaVersions (le_fs env) (le_libs env) (lf_rules f))))"
    (is "_ \<longleftrightarrow> (\<exists>ss catalog owners groups ps. lint_loads env f ss catalog (Some owners) [] \<and> ?P ss catalog owners groups ps)")
proof (cases rule: lint_main_cases [of env f])
  case (failed e)
  then show ?thesis by simp
next
  case (loaded ss catalog owners errs)
  note uniq = lint_loads_unique [OF loaded(1)]
  have nil: "owners = None \<longleftrightarrow> errs \<noteq> []" using loaded(1) LoadOwners_nil unfolding lint_loads_def by blast
  have rhs: "(\<exists>ss catalog owners groups ps. lint_loads env f ss catalog (Some owners) [] \<and> ?P ss catalog owners groups ps) \<longleftrightarrow>
      (\<exists>o' groups ps. owners = Some o' \<and> errs = [] \<and> ?P ss catalog o' groups ps)"
    using loaded(1) uniq by blast
  show ?thesis
  proof (cases "ValidateRulesDir (le_fs env) (le_libs env) ss catalog owners (lf_rules f)")
    case (Inl e)
    then have "\<nexists>o' groups ps. owners = Some o' \<and> errs = [] \<and> ?P ss catalog o' groups ps" by auto
    then show ?thesis using Inl unfolding rhs by (simp add: loaded(2))
  next
    case (Inr r)
    then obtain results n where v: "ValidateRulesDir (le_fs env) (le_libs env) ss catalog owners (lf_rules f) = Inr (results, n)"
      by (cases r) auto
    note clean = ValidateRulesDir_clean(2) [OF v]
    have "exit_status (lint_main env f) = exitOK \<longleftrightarrow>
        CheckRulesHaveOwners (le_fs env) (le_libs env) owners (lf_rules f) = Returns (Inr []) \<and> errs = [] \<and> results = [] \<and>
        (\<exists>groups. LoadCodeOwners (le_open env) (lf_codeowners f) = Inr groups \<and> CheckOwnersGroupMembership owners groups = []) \<and>
        (lf_no_deprecation_warnings f \<or> \<not> isl (CheckDeprecatedSchemaVersions (le_fs env) (le_libs env) (lf_rules f)))"
      unfolding loaded(2) v
      by (auto simp: lint_finish_ok fold_append_errs_Nil split: go_return.split sum.split)
    then show ?thesis
      using v nil unfolding rhs unfolding CheckRulesHaveOwners_clean clean list_all_iff
      by (cases owners) (simp_all, blast)
  qed
qed

lemma lint_finish_no_panic: "lint_finish env f owners results \<noteq> Panicked"
  by (simp add: lint_finish_def Let_def split: sum.split)

text \<open>
  C37. The linter crashes exactly when \<^verbatim>\<open>_owners.yaml\<close> exists but does not parse or validate and the rules
  directory lists at least one file: \<^verbatim>\<open>LoadOwners\<close> then returns nil owners with its validation errors,
  which \<^verbatim>\<open>CheckRulesHaveOwners\<close> dereferences before any of them is printed.
\<close>

theorem lint_panics_iff:
  "lint_main env f = Panicked \<longleftrightarrow>
    (\<exists>ss catalog errs ps. lint_loads env f ss catalog None errs \<and> errs \<noteq> [] \<and>
       \<not> isl (ValidateRulesDir (le_fs env) (le_libs env) ss catalog None (lf_rules f)) \<and>
       listRuleYAMLs (le_fs env) (lf_rules f) = Inr ps \<and> ps \<noteq> [])"
proof (cases rule: lint_main_cases [of env f])
  case (failed e)
  then show ?thesis by simp
next
  case (loaded ss catalog owners errs)
  note uniq = lint_loads_unique [OF loaded(1)]
  have nil: "owners = None \<longleftrightarrow> errs \<noteq> []" using loaded(1) LoadOwners_nil unfolding lint_loads_def by blast
  have "lint_main env f = Panicked \<longleftrightarrow>
      \<not> isl (ValidateRulesDir (le_fs env) (le_libs env) ss catalog owners (lf_rules f)) \<and>
      CheckRulesHaveOwners (le_fs env) (le_libs env) owners (lf_rules f) = Panics"
    unfolding loaded(2) by (auto simp: lint_finish_no_panic split: sum.split go_return.split prod.split)
  then show ?thesis
    unfolding CheckRulesHaveOwners_panics using loaded(1) uniq nil by blast
qed

section \<open>A small workspace\<close>

text \<open>One rule \<^verbatim>\<open>r/orders.yaml\<close> of version 1, one owners file; \<open>ok\<close> says whether the owners schema accepts it.\<close>

definition tiny_fs :: os where
  "tiny_fs = \<lparr>os_Stat = (\<lambda>p. Inr True),
     os_ReadFile = (\<lambda>p. if p = ''c'' then Inl os_ErrNotExist else Inr p),
     os_EvalSymlinks = Inr, os_Getwd = Inr ''/w'',
     os_tree = (\<lambda>p. Inr (Directory None [(''_owners.yaml'', File), (''orders.yaml'', File)]))\<rparr>"

definition tiny_libs :: "bool \<Rightarrow> linter_libs" where
  "tiny_libs ok = \<lparr>ly_any = (\<lambda>b. Inr (if b = ''r/_owners.yaml''
       then AMap [(''entities'', AMap [(''orders'', AMap [(''owner'', AStr ''@data'')])])] else ANil)),
     ly_version = (\<lambda>b. 1), ly_owners_version = (\<lambda>b. 1), ly_rule = (\<lambda>b. Inl (errors_New ''v1'')),
     ly_entity = (\<lambda>b. Inr ''orders''), ly_catalog = (\<lambda>b. Inr (1, [])), lj_any = (\<lambda>b. Inr ANil),
     lj_entity_pattern = (\<lambda>b. Inr ''^[a-z]+$''), lj_marshal = (\<lambda>m. Inr []), ls_AddResource = (\<lambda>p b. None),
     ls_Compile = (\<lambda>p b. Inr (\<lambda>v. if ok \<or> p \<noteq> ''os'' then None else Some (errors_New ''invalid''))), l_Sprint = (\<lambda>v. [])\<rparr>"

definition tiny_lint :: "bool \<Rightarrow> lint_env" where
  "tiny_lint ok = \<lparr>le_fs = tiny_fs, le_libs = tiny_libs ok, le_open = (\<lambda>p. Inl os_ErrNotExist),
     le_http = \<lparr>ht_NewRequest = (\<lambda>u. None), ht_Do = (\<lambda>u hs. Inl os_ErrNotExist), ht_slack = (\<lambda>b. Inl os_ErrNotExist),
       ht_LookupMX = (\<lambda>d. Inr 0)\<rparr>, le_getenv = (\<lambda>v. [])\<rparr>"

definition tiny_flags :: lint_flags where
  "tiny_flags = \<lparr>lf_schema = ''s'', lf_schema_v2 = [], lf_owners_schema = ''os'', lf_owners_schema_v2 = [], lf_owners_schema_v3 = [],
     lf_catalog = ''c'', lf_owners = ''r/_owners.yaml'', lf_rules = ''r'', lf_codeowners = [],
     lf_no_deprecation_warnings = True, lf_check_channel_reachability = False\<rparr>"

lemma tiny_lint_ok: "exit_status (lint_main (tiny_lint True) tiny_flags) = exitOK"
  by code_simp

lemma tiny_lint_panics: "lint_main (tiny_lint False) tiny_flags = Panicked"
  by code_simp

theorem lint_panics_iff_witness:
  "\<exists>ss catalog errs. lint_loads (tiny_lint False) tiny_flags ss catalog None errs \<and> errs \<noteq> []"
  using lint_panics_iff [of "tiny_lint False" tiny_flags] tiny_lint_panics by blast

end
