(* ===== verification/Lint_Publish.thy ===== *)
theory Lint_Publish
  imports Lint_Main Publisher
begin

text \<open>
  The linter and the publisher on one workspace: what the publisher collects was linted, and what the
  linter accepts of the external references the publisher can inline. Both tools decode with the same
  libraries, which is the hypothesis \<open>same_decoders\<close>.
\<close>

section \<open>The publisher's walk\<close>

definition collect_body :: "os \<Rightarrow> decoders \<Rightarrow> string \<Rightarrow> catalogKindRefs \<Rightarrow> string \<Rightarrow> rule list \<Rightarrow> walk_act \<times> rule list" where
  "collect_body fs d absRulesDir refs path out = collect_visit fs d absRulesDir refs path ''a.yaml'' False None out"

lemma collect_visit_eq: "collect_visit fs d absDir refs = rule_walk metadata_file (collect_body fs d absDir refs)"
  by (intro ext) (auto simp: collect_body_def collect_visit_def rule_walk_def metadata_file_def HasSuffix_def HasPrefix_def split: option.split)

text \<open>A rule as the walk made it of the file at its path.\<close>

definition collected :: "os \<Rightarrow> decoders \<Rightarrow> string \<Rightarrow> catalogKindRefs \<Rightarrow> string \<Rightarrow> rule \<Rightarrow> bool" where
  "collected fs d absDir refs path r \<longleftrightarrow>
    (\<exists>body. os_ReadFile fs path = Inr body \<and> yaml_header d body = Inr (ru_entity r, ru_version r) \<and>
       ru_entity r \<noteq> [] \<and> ru_version r \<noteq> 0 \<and> ru_path r = path \<and> inlineExternalRefs fs d body path absDir refs = Inr (ru_bytes r))"

lemma collect_body_cases:
  "collect_body fs d absDir refs path out = (act, out') \<Longrightarrow>
    (\<exists>e. act = Fail e) \<or> act = Continue \<and> (\<exists>r. out' = out @ [r] \<and> collected fs d absDir refs path r)"
  by (auto simp: collect_body_def collect_visit_def collected_def HasSuffix_def HasPrefix_def split: sum.splits if_splits)

lemma collect_body_no_skip: "fst (collect_body fs d absDir refs path out) \<noteq> SkipDir"
  using collect_body_cases [of fs d absDir refs path out] by (cases "collect_body fs d absDir refs path out") auto

lemma visit_collects:
  "visit_files (collect_body fs d absDir refs) ps out = (None, out') \<Longrightarrow>
    \<exists>rs. out' = out @ rs \<and> list_all2 (collected fs d absDir refs) ps rs"
proof (induction ps arbitrary: out)
  case (Cons p ps)
  obtain act out1 where b: "collect_body fs d absDir refs p out = (act, out1)" by (rule prod.exhaust)
  with Cons.prems collect_body_cases [OF b] obtain r where "out1 = out @ [r]" "collected fs d absDir refs p r"
    "visit_files (collect_body fs d absDir refs) ps out1 = (None, out')"
    by (auto split: walk_act.splits)
  with Cons.IH [of out1] show ?case by (metis append.assoc append_Cons append_Nil list.rel_intros(2))
qed simp

lemma collectRules_files:
  assumes "collectRules fs d dir refs = Inr rules"
  shows "\<exists>absDir. filepath_Abs fs dir = Inr absDir \<and> fst (rule_files metadata_file fs dir) = None \<and>
    list_all2 (collected fs d absDir refs) (snd (rule_files metadata_file fs dir)) rules"
proof -
  obtain absDir where a: "filepath_Abs fs dir = Inr absDir" "WalkDir fs (collect_visit fs d absDir refs) dir [] = (None, rules)"
    using assms by (auto simp: collectRules_def split: sum.splits prod.splits option.splits)
  then have "visit_files (collect_body fs d absDir refs) (snd (rule_files metadata_file fs dir)) [] = (None, rules)"
    and "fst (rule_files metadata_file fs dir) = None"
    unfolding collect_visit_eq rule_walk_visit [OF collect_body_no_skip] by (auto split: prod.splits option.splits)
  then show ?thesis using a(1) visit_collects [of fs d absDir refs _ "[]" rules] by auto
qed

section \<open>Published rules were linted\<close>

definition same_decoders :: "linter_libs \<Rightarrow> decoders \<Rightarrow> bool" where
  "same_decoders l d \<longleftrightarrow> yaml_any d = ly_any l \<and> json_any d = lj_any l \<and>
    (\<forall>raw entity version. yaml_header d raw = Inr (entity, version) \<longrightarrow> ly_entity l raw = Inr entity \<and> ly_version l raw = version)"

lemma owned_published:
  assumes "exit_status (lint_main env f) = exitOK" "p \<in> set (snd (rule_files metadata_file (le_fs env) (lf_rules f)))"
    "fst (rule_files metadata_file (le_fs env) (lf_rules f)) = None"
  obtains ss catalog owners where "lint_loads env f ss catalog (Some owners) []"
    "file_errs (le_fs env) (le_libs env) ss catalog (Some owners) (lf_rules f) p = []"
    "owned (le_fs env) (le_libs env) owners p"
proof -
  let ?fs = "le_fs env" and ?dir = "lf_rules f"
  have w: "fst (rule_files owners_file ?fs ?dir) = None" "p \<in> set (snd (rule_files owners_file ?fs ?dir))"
    using rule_files_weaken [of owners_file metadata_file ?fs ?dir] owners_file_metadata assms(2,3) by auto
  then have "listRuleYAMLs ?fs ?dir = Inr (snd (rule_files owners_file ?fs ?dir))"
    unfolding listRuleYAMLs_eq by (cases "rule_files owners_file ?fs ?dir") simp
  with assms(1) [unfolded lint_ok_iff] w(2) assms(2) show ?thesis
    by (auto simp: list_all_iff intro: that)
qed

text \<open>
  C35. If \<^verbatim>\<open>dq-lint\<close> exits with 0 on a workspace, every rule the publisher collects from it was linted: the file
  at its path is valid for the schema of the rule's version, which is 1 or 2, at version 2 it passes every
  cross-check, and the rule's entity has an entry in \<^verbatim>\<open>_owners.yaml\<close>.
\<close>

theorem published_rules_linted:
  assumes "exit_status (lint_main env f) = exitOK" "same_decoders (le_libs env) d"
    "collectRules (le_fs env) d (lf_rules f) refs = Inr rules"
  shows "\<exists>ss catalog owners. lint_loads env f ss catalog (Some owners) [] \<and>
    list_all (\<lambda>r. ru_version r \<in> {1, 2} \<and> map_of (ow_Entities owners) (ru_entity r) \<noteq> None \<and>
      (\<exists>raw. os_ReadFile (le_fs env) (ru_path r) = Inr raw \<and> ValidateRuleBytes (le_libs env) ss raw = [] \<and>
         (ru_version r = 2 \<longrightarrow>
            validateV2CrossChecks (le_fs env) (le_libs env) raw catalog (Some owners) (lf_rules f) (ru_path r) = []))) rules"
proof -
  let ?files = "rule_files metadata_file (le_fs env) (lf_rules f)"
  obtain absDir where walk: "fst ?files = None" and coll: "list_all2 (collected (le_fs env) d absDir refs) (snd ?files) rules"
    using collectRules_files [OF assms(3)] by blast
  obtain ss catalog owners where loads: "lint_loads env f ss catalog (Some owners) []"
    using assms(1) unfolding lint_ok_iff by blast
  have "ru_version r \<in> {1, 2} \<and> map_of (ow_Entities owners) (ru_entity r) \<noteq> None \<and>
      (\<exists>raw. os_ReadFile (le_fs env) (ru_path r) = Inr raw \<and> ValidateRuleBytes (le_libs env) ss raw = [] \<and>
         (ru_version r = 2 \<longrightarrow>
            validateV2CrossChecks (le_fs env) (le_libs env) raw catalog (Some owners) (lf_rules f) (ru_path r) = []))"
    if "r \<in> set rules" for r
  proof -
    obtain p where p: "p \<in> set (snd ?files)" and c: "collected (le_fs env) d absDir refs p r"
      using list_all2_imp_all_right [OF coll \<open>r \<in> set rules\<close>] by blast
    obtain raw where raw: "os_ReadFile (le_fs env) p = Inr raw" "ly_entity (le_libs env) raw = Inr (ru_entity r)"
      "ly_version (le_libs env) raw = ru_version r" "ru_entity r \<noteq> []" "ru_version r \<noteq> 0" "ru_path r = p"
      using c assms(2) unfolding collected_def same_decoders_def by blast
    obtain ss' catalog' owners' where "lint_loads env f ss' catalog' (Some owners') []"
      and clean: "file_errs (le_fs env) (le_libs env) ss' catalog' (Some owners') (lf_rules f) p = []"
      and own: "owned (le_fs env) (le_libs env) owners' p"
      by (rule owned_published [OF assms(1) p walk])
    then have same: "ss' = ss" "catalog' = catalog" "owners' = owners" using lint_loads_unique [OF loads] by auto
    have valid: "ValidateRuleBytes (le_libs env) ss raw = []"
      and cross: "ru_version r = 2 \<longrightarrow>
            validateV2CrossChecks (le_fs env) (le_libs env) raw catalog (Some owners) (lf_rules f) (ru_path r) = []"
      using clean same raw by (auto simp: file_errs_def parseRuleVersion_def split: if_splits)
    then have "ru_version r \<in> {1, 2}" using raw(3,5) unfolding ValidateRuleBytes_clean by auto
    moreover have "map_of (ow_Entities owners) (ru_entity r) \<noteq> None"
      using own same raw unfolding owned_def by auto
    ultimately show ?thesis using valid cross raw by blast
  qed
  then show ?thesis using loads unfolding list_all_iff by blast
qed

definition tiny_decoders :: decoders where
  "tiny_decoders = \<lparr>yaml_header = (\<lambda>b. Inr (''orders'', 1)), yaml_catalog = (\<lambda>b. Inr []), yaml_map = (\<lambda>b. Inr []),
     yaml_any = ly_any (tiny_libs True), json_any = lj_any (tiny_libs True), yaml_marshal = (\<lambda>m. Inr []), fmt_v = (\<lambda>v. [])\<rparr>"

lemma tiny_same_decoders: "same_decoders (le_libs (tiny_lint True)) tiny_decoders"
  by (simp add: same_decoders_def tiny_decoders_def tiny_lint_def tiny_libs_def)

lemma tiny_collected: "map_sum id (map ru_path) (collectRules tiny_fs tiny_decoders ''r'' []) = Inr [''r/orders.yaml'']"
proof -
  have paths: "Join [''r'', ''_owners.yaml''] = ''r/_owners.yaml''" "Join [''r'', ''orders.yaml''] = ''r/orders.yaml''"
    "Base ''r'' = ''r''" "Join [''/w'', ''r''] = ''/w/r''"
    by code_simp+
  show ?thesis
    by (simp add: collectRules_def WalkDir_def tiny_fs_def collect_visit_def tiny_decoders_def inlineExternalRefs_def paths
        filepath_Abs_def IsAbs_def HasSuffix_def HasPrefix_def)
qed

theorem published_rules_linted_witness:
  "\<exists>rules ss catalog owners r. collectRules tiny_fs tiny_decoders ''r'' [] = Inr rules \<and>
    lint_loads (tiny_lint True) tiny_flags ss catalog (Some owners) [] \<and> r \<in> set rules \<and> ru_path r = ''r/orders.yaml'' \<and>
    map_of (ow_Entities owners) (ru_entity r) \<noteq> None"
proof -
  obtain rules where rules: "collectRules tiny_fs tiny_decoders ''r'' [] = Inr rules" "map ru_path rules = [''r/orders.yaml'']"
    using tiny_collected by (cases "collectRules tiny_fs tiny_decoders ''r'' []") auto
  then obtain r where r: "r \<in> set rules" "ru_path r = ''r/orders.yaml''" by (cases rules) auto
  have "collectRules (le_fs (tiny_lint True)) tiny_decoders (lf_rules tiny_flags) [] = Inr rules"
    using rules(1) by (simp add: tiny_lint_def tiny_flags_def)
  from published_rules_linted [OF tiny_lint_ok tiny_same_decoders this] rules(1) r show ?thesis
    unfolding list_all_iff by blast
qed

section \<open>Accepted references can be inlined\<close>

lemma Ext_of_suffix:
  assumes "HasSuffix p (CHR ''.'' # e)" "CHR ''.'' \<notin> set e" "sep \<notin> set e"
  shows "Ext p = CHR ''.'' # e"
proof -
  obtain x where "rev p = rev e @ CHR ''.'' # rev x" using assms(1) by (auto simp: HasSuffix_iff)
  moreover have "takeWhile (\<lambda>c. c \<noteq> sep) (rev e @ CHR ''.'' # rev x) = rev e @ CHR ''.'' # takeWhile (\<lambda>c. c \<noteq> sep) (rev x)"
    using assms(3) by (subst takeWhile_append2) (auto simp: sep_def)
  moreover have "takeWhile (\<lambda>c. c \<noteq> CHR ''.'') (rev e @ CHR ''.'' # ys) = rev e" for ys
    using assms(2) by (subst takeWhile_append2) auto
  ultimately show ?thesis by (simp add: Ext_def Let_def)
qed

text \<open>What the linter parses, the publisher parses; only the linter makes every mapping string-keyed.\<close>

lemma lint_parse_publish:
  assumes "same_decoders l d" "Lint.parseExternalArtifact l p raw = Inr v"
  shows "\<exists>v'. Publisher.parseExternalArtifact d p raw = Inr v' \<and> (v = v' \<or> v = normalizeYAML (l_Sprint l) v')"
proof -
  have "Ext p = ''.json''" if "HasSuffix p ''.json''" using Ext_of_suffix [OF that] by (simp add: sep_def)
  moreover have "Ext p = ''.yaml''" if "HasSuffix p ''.yaml''" using Ext_of_suffix [OF that] by (simp add: sep_def)
  moreover have "Ext p = ''.yml''" if "HasSuffix p ''.yml''" using Ext_of_suffix [OF that] by (simp add: sep_def)
  moreover have "map to_lower ''.json'' = ''.json''" "map to_lower ''.yaml'' = ''.yaml''" "map to_lower ''.yml'' = ''.yml''" by code_simp+
  ultimately show ?thesis
    using assms unfolding Lint.parseExternalArtifact_def Publisher.parseExternalArtifact_def same_decoders_def Let_def
    by (auto split: if_splits sum.splits)
qed

lemma Clean_Clean: "IsAbs p \<Longrightarrow> Clean (Clean p) = Clean p"
  by (simp add: Clean_def [of "Clean p"] clean_elems_Clean) (simp add: Clean_def Let_def)

lemma filepath_Abs_idem:
  assumes "filepath_Abs fs p = Inr a" "IsAbs a"
  shows "filepath_Abs fs a = Inr a"
proof -
  have "\<exists>q. a = Clean q" using assms(1) by (auto simp: filepath_Abs_def Join_def res_bind_Inr_iff split: if_splits list.splits)
    (use assms(2) in \<open>auto simp: IsAbs_def HasPrefix_def\<close>)
  then show ?thesis using assms(2) Clean_Clean by (auto simp: filepath_Abs_def)
qed

lemma Resolve_absolute_root:
  assumes "filepath_Abs fs rt = Inr a" "IsAbs a" "Resolve fs rt path ref = Inr p"
  shows "Resolve fs a path ref = Inr p"
  using assms filepath_Abs_idem [OF assms(1,2)] by (auto simp: Resolve_def split: if_splits sum.splits)

lemma resolve_refs_succeeds:
  assumes "\<And>f. f \<in> set fns \<Longrightarrow> \<not> HasSuffix f ''_ref''"
    and "\<And>f r. f \<in> set fns \<Longrightarrow> map_of ps (ref_key f) = Some r \<Longrightarrow> artifact fs d rt path r \<noteq> None \<and> map_of ps f = None"
  shows "\<exists>ps' mu'. resolve_refs fs d path rt ck fns ps mu = Inr (ps', mu')"
  using assms
proof (induction fns arbitrary: ps mu)
  case (Cons f fns)
  show ?case
  proof (cases "map_of ps (ref_key f)")
    case None
    moreover have "\<exists>ps' mu'. resolve_refs fs d path rt ck fns ps mu = Inr (ps', mu')"
      by (rule Cons.IH) (use Cons.prems in \<open>meson list.set_intros(2)\<close>)+
    ultimately show ?thesis by simp
  next
    case (Some r)
    then obtain v where v: "artifact fs d rt path r = Some v" "map_of ps f = None" using Cons.prems(2) [of f r] by auto
    let ?ps = "AList.delete (ref_key f) (AList.update f v ps)"
    have m: "map_of ?ps x = (if x = ref_key f then None else if x = f then Some v else map_of ps x)" for x
      by (simp add: delete_conv' update_conv')
    have nr: "f' \<in> set fns \<Longrightarrow> f' \<noteq> ref_key f" "f \<noteq> ref_key f'" for f' using Cons.prems(1) HasSuffix_append by fastforce+
    have "\<exists>ps' mu'. resolve_refs fs d path rt ck fns ?ps True = Inr (ps', mu')"
    proof (rule Cons.IH)
      show "\<not> HasSuffix f' ''_ref''" if "f' \<in> set fns" for f' using Cons.prems(1) that by simp
      show "artifact fs d rt path r' \<noteq> None \<and> map_of ?ps f' = None"
        if f': "f' \<in> set fns" and r': "map_of ?ps (ref_key f') = Some r'" for f' r'
      proof -
        have "f' \<noteq> f" "map_of ps (ref_key f') = Some r'" using r' nr(2) [of f'] unfolding m by (auto split: if_splits)
        then show ?thesis using Cons.prems(2) [of f' r'] f' nr(1) [OF f'] unfolding m by simp
      qed
    qed
    then show ?thesis using Some v by (auto simp: artifact_def Let_def split: any.splits sum.splits)
  qed
qed simp

text \<open>One eligible field of a check that passes cross-check 12.\<close>

lemma eligible_field_clean:
  assumes "eligible_field_errs fs l rt path ck (f, schema) = []"
  shows "(map_of (params_of ck) f = None) \<noteq> (map_of (params_of ck) (ref_key f) = None)"
    and "map_of (params_of ck) (ref_key f) = Some r \<Longrightarrow>
      \<exists>ref p raw v. r = AStr ref \<and> Resolve fs rt path ref = Inr p \<and> os_ReadFile fs p = Inr raw \<and>
        Lint.parseExternalArtifact l p raw = Inr v \<and> schema v = None"
  using assms by (auto simp: eligible_field_errs_def resolveExternalRef_def Let_def split: option.splits any.splits sum.splits)

text \<open>
  C36. The linter's check of external references is complete for the publisher: for a check that passes it,
  \<^verbatim>\<open>resolveCheckParams\<close> against the absolute rules root succeeds, every eligible field is present afterwards,
  and the content of a referenced file is, up to string keys, what the linter validated against the
  field's schema.
\<close>

theorem lint_refs_inline:
  assumes "same_decoders l d" "validateCheckExternalRefs fs l rt path ck entry = []"
    "filepath_Abs fs rt = Inr absRoot" "IsAbs absRoot"
    "set eligible = fst ` set (ck_ExternalEligibleFields entry)" "list_all (\<lambda>f. \<not> HasSuffix f ''_ref'') eligible"
  shows "\<exists>params' changed. resolveCheckParams fs d (params_of ck) eligible path absRoot checkID = Inr (params', changed) \<and>
    list_all (\<lambda>(f, schema). \<exists>v. map_of params' f = Some v \<and>
      (map_of (params_of ck) (ref_key f) \<noteq> None \<longrightarrow> schema v = None \<or> schema (normalizeYAML (l_Sprint l) v) = None))
      (ck_ExternalEligibleFields entry)"
proof -
  let ?ps = "params_of ck"
  have errs: "eligible_field_errs fs l rt path ck (f, schema) = []" if "(f, schema) \<in> set (ck_ExternalEligibleFields entry)" for f schema
    using that assms(2) unfolding validateCheckExternalRefs_def Let_def by (auto simp: concat_eq_Nil_conv)
  have known: "k \<in> ref_key ` set eligible" if "k \<in> fst ` set ?ps" "HasSuffix k ''_ref''" for k
    using that assms(2,5) unfolding validateCheckExternalRefs_def Let_def by (auto simp: filter_empty_conv)
  have nsuf: "\<not> HasSuffix f ''_ref''" if "f \<in> set eligible" for f using assms(6) that by (simp add: list_all_iff)
  have art: "\<exists>v. artifact fs d absRoot path r = Some v \<and> (schema v = None \<or> schema (normalizeYAML (l_Sprint l) v) = None)"
    if s: "(f, schema) \<in> set (ck_ExternalEligibleFields entry)" and ref: "map_of ?ps (ref_key f) = Some r" for f schema r
  proof -
    obtain ref p raw v where "r = AStr ref" "Resolve fs rt path ref = Inr p" "os_ReadFile fs p = Inr raw"
      "Lint.parseExternalArtifact l p raw = Inr v" "schema v = None"
      using eligible_field_clean(2) [OF errs [OF s] ref] by blast
    with lint_parse_publish [OF assms(1)] Resolve_absolute_root [OF assms(3,4)] show ?thesis
      unfolding artifact_def by fastforce
  qed
  have field: "map_of ?ps f = None \<longleftrightarrow> map_of ?ps (ref_key f) \<noteq> None" if "(f, schema) \<in> set (ck_ExternalEligibleFields entry)" for f schema
    using eligible_field_clean(1) [OF errs [OF that]] by auto
  have "\<exists>ps' mu'. resolve_refs fs d path absRoot (fmt_v d checkID) eligible ?ps False = Inr (ps', mu')"
  proof (rule resolve_refs_succeeds)
    fix f r assume "f \<in> set eligible" "map_of ?ps (ref_key f) = Some r"
    moreover from this obtain schema where "(f, schema) \<in> set (ck_ExternalEligibleFields entry)" using assms(5) by auto
    ultimately show "artifact fs d absRoot path r \<noteq> None \<and> map_of ?ps f = None" using art field by fastforce
  qed (rule nsuf)
  then obtain ps' mu' where r: "resolve_refs fs d path absRoot (fmt_v d checkID) eligible ?ps False = Inr (ps', mu')" by blast
  have "find (\<lambda>refKey. TrimSuffix refKey ''_ref'' \<notin> set eligible) (filter (\<lambda>k. HasSuffix k ''_ref'') (map fst ?ps)) = None"
    unfolding find_None_iff using known by fastforce
  then have ok: "resolveCheckParams fs d ?ps eligible path absRoot checkID = Inr (ps', mu')"
    unfolding resolveCheckParams_def Let_def using r by simp
  have "\<exists>v. map_of ps' f = Some v \<and> (map_of ?ps (ref_key f) \<noteq> None \<longrightarrow> schema v = None \<or> schema (normalizeYAML (l_Sprint l) v) = None)"
    if s: "(f, schema) \<in> set (ck_ExternalEligibleFields entry)" for f schema
  proof -
    have el: "f \<in> set eligible" using s assms(5) by force
    have "\<not> (\<exists>g \<in> set eligible. f = ref_key g)" using nsuf [OF el] HasSuffix_append by blast
    then have m: "map_of ps' f = (if map_of ?ps (ref_key f) \<noteq> None then artifact fs d absRoot path (the (map_of ?ps (ref_key f))) else map_of ?ps f)"
      using resolve_refs_map [OF r, of f] nsuf el by auto
    show ?thesis using m art [OF s] field [OF s] by (cases "map_of ?ps (ref_key f)") auto
  qed
  then show ?thesis using ok by (auto simp: list_all_iff)
qed

definition ref_check :: ruleCheckV2 where
  "ref_check = \<lparr>c2_CheckID = ''c'', c2_Kind = ''record.conforms'', c2_Params = Some [(''schema_ref'', AStr ''s.json'')]\<rparr>"

definition ref_kind :: CatalogKind where
  "ref_kind = \<lparr>ck_Name = ''record.conforms'', ck_Mode = ''record'', ck_SourceMode = ''record'', ck_ParamsSchema = (\<lambda>v. None),
     ck_ExternalEligibleFields = [(''schema'', \<lambda>v. None)]\<rparr>"

lemma ref_check_clean: "validateCheckExternalRefs demo_os (tiny_libs True) ''/r'' ''/r/a'' ref_check ref_kind = []"
  by code_simp

theorem lint_refs_inline_witness:
  "\<exists>params' changed v. resolveCheckParams demo_os tiny_decoders (params_of ref_check) [''schema''] ''/r/a'' ''/r'' ANil = Inr (params', changed) \<and>
    map_of params' ''schema'' = Some v"
proof -
  have root: "filepath_Abs demo_os ''/r'' = Inr ''/r''" "IsAbs ''/r''" by code_simp+
  have fields: "set [''schema''] = fst ` set (ck_ExternalEligibleFields ref_kind)" by (simp add: ref_kind_def)
  have plain: "list_all (\<lambda>f. \<not> HasSuffix f ''_ref'') [''schema'']" by code_simp
  have "same_decoders (tiny_libs True) tiny_decoders" using tiny_same_decoders by (simp add: tiny_lint_def)
  from lint_refs_inline [OF this ref_check_clean root fields plain, of ANil]
  obtain params' changed where "resolveCheckParams demo_os tiny_decoders (params_of ref_check) [''schema''] ''/r/a'' ''/r'' ANil = Inr (params', changed)"
    "list_all (\<lambda>(f, schema). \<exists>v. map_of params' f = Some v \<and>
      (map_of (params_of ref_check) (ref_key f) \<noteq> None \<longrightarrow> schema v = None \<or> schema (normalizeYAML (l_Sprint (tiny_libs True)) v) = None))
      (ck_ExternalEligibleFields ref_kind)" by blast
  then show ?thesis by (auto simp: ref_kind_def)
qed

end
