(* ===== verification/Runner.thy ===== *)
theory Runner
  imports Store Sha256
begin

text \<open>
  The runner, \<^verbatim>\<open>engine/internal/runner\<close> (\<^verbatim>\<open>runner.go\<close>, \<^verbatim>\<open>status.go\<close>, \<^verbatim>\<open>execution_id.go\<close>): one execution
  attempt from trigger to terminal row. \<open>Compute\<close> is the identity formula, \<open>MapStatus\<close> the status
  mapping, \<open>Run\<close> the whole attempt with its writes, metrics and alerts.
\<close>

section \<open>Data\<close>

record Record =
  rc_partition :: int
  rc_offset :: int
  rc_timestamp :: time
  rc_body :: string

record RuleWindow =
  rw_type :: string
  rw_duration :: string
  rw_lateness_tolerance :: string

record RuleSource =
  rs_type :: string
  rs_project_id :: string
  rs_dataset_id :: string
  rs_table_id :: string
  rs_partition_column :: string
  rs_topic :: string
  rs_consumer_group :: string
  rs_window :: "RuleWindow option"

record CheckSpec =
  cs_check_id :: string
  cs_kind :: string
  cs_mode :: string
  cs_source :: "RuleSource option"
  cs_params :: "go_map option"

record TriggerRequest =
  tr_entity :: string
  tr_window_start :: time
  tr_window_end :: time
  tr_source :: TriggerSource
  tr_supersedes :: "string option"
  tr_checks :: "CheckSpec list"
  tr_ruleset_version :: string
  tr_attempt_id :: "string option"
  tr_records :: "Record list"
  tr_late_dropped :: int

record Evaluation =
  el_result :: CheckResult
  el_evidence :: "go_map option"
  el_samples :: "go_map list option"

text \<open>
  The injected collaborators are functions of the tick at which they are called: the pre-check
  answers \<^verbatim>\<open>(present, err)\<close>, the evaluator \<^verbatim>\<open>(Evaluation, err)\<close>.
\<close>

record Runner =
  rn_precheck :: "nat \<Rightarrow> string \<Rightarrow> bool \<times> goerr option"
  rn_evaluator :: "nat \<Rightarrow> CheckSpec \<Rightarrow> TriggerRequest \<Rightarrow> Evaluation \<times> goerr option"
  rn_engine_version :: string
  rn_ruleset_version :: string
  rn_attempt_id :: "nat \<Rightarrow> string"

record RunnerConfig =
  rg_store :: bool
  rg_precheck :: "(nat \<Rightarrow> string \<Rightarrow> bool \<times> goerr option) option"
  rg_evaluator :: "(nat \<Rightarrow> CheckSpec \<Rightarrow> TriggerRequest \<Rightarrow> Evaluation \<times> goerr option) option"
  rg_engine_version :: string
  rg_ruleset_version :: string
  rg_attempt_id :: "(nat \<Rightarrow> string) option"

definition NoopPrecheck :: "nat \<Rightarrow> string \<Rightarrow> bool \<times> goerr option" where
  "NoopPrecheck t entity = (True, None)"

definition NoopEvaluator :: "nat \<Rightarrow> CheckSpec \<Rightarrow> TriggerRequest \<Rightarrow> Evaluation \<times> goerr option" where
  "NoopEvaluator t spec trigger = (\<lparr>el_result = ResultPass, el_evidence = None, el_samples = None\<rparr>, None)"

definition FixedResultEvaluator :: "CheckResult \<Rightarrow> nat \<Rightarrow> CheckSpec \<Rightarrow> TriggerRequest \<Rightarrow> Evaluation \<times> goerr option" where
  "FixedResultEvaluator res t spec trigger = (\<lparr>el_result = res, el_evidence = None, el_samples = None\<rparr>, None)"

definition PerCheckEvaluator :: "(string \<rightharpoonup> CheckResult) \<Rightarrow> nat \<Rightarrow> CheckSpec \<Rightarrow> TriggerRequest \<Rightarrow> Evaluation \<times> goerr option" where
  "PerCheckEvaluator results t spec trigger =
    (\<lparr>el_result = (case results (cs_check_id spec) of Some r \<Rightarrow> r | None \<Rightarrow> ResultPass), el_evidence = None, el_samples = None\<rparr>, None)"

definition DefaultAttemptID :: "ext \<Rightarrow> nat \<Rightarrow> string" where
  "DefaultAttemptID x t = new_uuid x t"

text \<open>\<open>semver_err\<close> is the error of \<^verbatim>\<open>semver.NewVersion\<close>.\<close>

definition New :: "(string \<Rightarrow> goerr option) \<Rightarrow> ext \<Rightarrow> RunnerConfig \<Rightarrow> Runner result" where
  "New semver_err x cfg =
    (if \<not> rg_store cfg then Inl (errors_New ''runner: Store is required'')
     else if rg_engine_version cfg = [] then Inl (errors_New ''runner: EngineVersion is required'')
     else case semver_err (rg_engine_version cfg) of
       Some e \<Rightarrow> Inl (Errorf ''runner: EngineVersion %q is not valid semver: %w'' [S (rg_engine_version cfg), W e])
     | None \<Rightarrow>
         (if rg_ruleset_version cfg = [] then Inl (errors_New ''runner: RulesetVersion is required'')
          else Inr \<lparr>rn_precheck = (case rg_precheck cfg of None \<Rightarrow> NoopPrecheck | Some p \<Rightarrow> p),
                    rn_evaluator = (case rg_evaluator cfg of None \<Rightarrow> NoopEvaluator | Some e \<Rightarrow> e),
                    rn_engine_version = rg_engine_version cfg,
                    rn_ruleset_version = rg_ruleset_version cfg,
                    rn_attempt_id = (case rg_attempt_id cfg of None \<Rightarrow> DefaultAttemptID x | Some f \<Rightarrow> f)\<rparr>))"

section \<open>Execution identity\<close>

definition pipeSeparator :: string where
  "pipeSeparator = ''|''"

definition ErrPipeCharacterForbidden :: goerr where
  "ErrPipeCharacterForbidden = errors_New ''input contains forbidden ASCII pipe character (ADR-0002 CC2)''"

definition identity_string :: "string \<Rightarrow> string \<Rightarrow> time \<Rightarrow> time \<Rightarrow> TriggerSource \<Rightarrow> string" where
  "identity_string rulesetVersion entity windowStart windowEnd triggerSource =
    strings_Join [rulesetVersion, entity, Format (Truncate (UTC windowStart) second),
                  Format (Truncate (UTC windowEnd) second), triggerSource] pipeSeparator"

definition Compute :: "string \<Rightarrow> string \<Rightarrow> time \<Rightarrow> time \<Rightarrow> TriggerSource \<Rightarrow> string result" where
  "Compute rulesetVersion entity windowStart windowEnd triggerSource =
    (if ContainsRune rulesetVersion (CHR ''|'')
     then Inl (Errorf ''ruleset_version: %w'' [W ErrPipeCharacterForbidden])
     else if ContainsRune entity (CHR ''|'')
     then Inl (Errorf ''entity: %w'' [W ErrPipeCharacterForbidden])
     else if ContainsRune triggerSource (CHR ''|'')
     then Inl (Errorf ''trigger_source: %w'' [W ErrPipeCharacterForbidden])
     else Inr (sha256_hex (identity_string rulesetVersion entity windowStart windowEnd triggerSource)))"

section \<open>Status mapping\<close>

definition ErrEmptyResultMultiset :: goerr where
  "ErrEmptyResultMultiset = errors_New ''empty check-result multiset; caller must use the pre-check error path''"

text \<open>The loop of \<^verbatim>\<open>MapStatus\<close>: the two flags after the results seen so far.\<close>

fun status_flags :: "CheckResult list \<Rightarrow> bool \<times> bool \<Rightarrow> bool \<times> bool" where
  "status_flags [] flags = flags"
| "status_flags (r # rs) (allPass, allError) =
    status_flags rs (if r \<noteq> ResultPass then False else allPass, if r \<noteq> ResultError then False else allError)"

definition MapStatus :: "CheckResult list \<Rightarrow> ExecutionStatus result" where
  "MapStatus checkResults =
    (if length checkResults = 0 then Inl ErrEmptyResultMultiset
     else case status_flags checkResults (True, True) of
       (allPass, allError) \<Rightarrow>
         Inr (if allPass then StatusSuccess else if allError then StatusError else StatusFailed))"

definition terminalErrorSummary :: "ExecutionStatus \<Rightarrow> CheckResult list \<Rightarrow> string option" where
  "terminalErrorSummary status checkResults =
    (if status = StatusFailed
     then Some (show_nat (length (filter (\<lambda>r. r \<noteq> ResultPass) checkResults)) @ '' of ''
                @ show_nat (length checkResults) @ '' checks did not pass (see dq_check_results)'')
     else if status = StatusError
     then Some (''all '' @ show_nat (length checkResults) @ '' checks errored (see dq_check_results)'')
     else None)"

section \<open>Triggers\<close>

definition validateTrigger :: "TriggerRequest \<Rightarrow> goerr option" where
  "validateTrigger trigger =
    (if tr_entity trigger = [] then Some (errors_New ''entity is required'')
     else if tr_source trigger = [] then Some (errors_New ''trigger_source is required'')
     else if tr_source trigger \<notin> {TriggerScheduler, TriggerManual, TriggerOperatorRerun}
     then Some (Errorf ''trigger_source %q is not a recognized enum value'' [S (tr_source trigger)])
     else if tr_source trigger = TriggerOperatorRerun \<and>
             (tr_supersedes trigger = None \<or> tr_supersedes trigger = Some [])
     then Some (errors_New ''operator-rerun requires SupersedesExecutionID (ADR-0002 CC5)'')
     else if tr_source trigger \<noteq> TriggerOperatorRerun \<and> tr_supersedes trigger \<noteq> None
     then Some (Errorf ''%s trigger must not set SupersedesExecutionID (ADR-0002 CC5)'' [S (tr_source trigger)])
     else if \<not> tr_window_start trigger < tr_window_end trigger
     then Some (errors_New ''window_end must be strictly after window_start'')
     else None)"

fun first_mode :: "CheckSpec list \<Rightarrow> Mode" where
  "first_mode [] = ModeSet"
| "first_mode (c # cs) = (if cs_mode c \<noteq> [] then cs_mode c else first_mode cs)"

definition triggerMode :: "TriggerRequest \<Rightarrow> Mode" where
  "triggerMode trigger = first_mode (tr_checks trigger)"

section \<open>Metrics and alerts\<close>

definition bytesScannedOrZero :: "go_map option \<Rightarrow> float64" where
  "bytesScannedOrZero evidence =
    (case map_get evidence ''bytes_scanned'' of
       None \<Rightarrow> Fin 0
     | Some (AFloat f) \<Rightarrow> f
     | Some (AFloat32 f) \<Rightarrow> f
     | Some (AInt _ i) \<Rightarrow> float64_of_int i
     | Some _ \<Rightarrow> Fin 0)"

definition emitRunMetrics :: "TriggerRequest \<Rightarrow> ExecutionStatus \<Rightarrow> time \<Rightarrow> time \<Rightarrow> world \<Rightarrow> world" where
  "emitRunMetrics trigger status startedAt completedAt w =
    (let mode = triggerMode trigger; durSec = Seconds (Sub completedAt startedAt)
     in sample [Inc ''dq_runs_total'' [tr_entity trigger, status, tr_source trigger, mode],
                Observe ''dq_run_duration_seconds'' [tr_entity trigger, status, mode] durSec] w)"

text \<open>A publish error is logged and dropped.\<close>

definition publish_deduped :: "ext \<Rightarrow> AttemptDeduper \<Rightarrow> Event \<Rightarrow> world \<Rightarrow> AttemptDeduper \<times> world" where
  "publish_deduped x dedup event w =
    (case ShouldPublish dedup event of
       (False, dedup) \<Rightarrow> (dedup, w)
     | (True, dedup) \<Rightarrow> (dedup, snd (Publish x event w)))"

definition check_event :: "string \<Rightarrow> string \<Rightarrow> string \<Rightarrow> string \<Rightarrow> CheckResult \<Rightarrow> time \<Rightarrow> Event" where
  "check_event executionID attemptID entity checkID result recordedAt =
    \<lparr>ev_execution_id = Some executionID, ev_attempt_id = Some attemptID, ev_entity = entity,
     ev_check_id = Some checkID, ev_category = fst (MapCategory SourceRunner (Some result) None),
     ev_severity = None, ev_source = SourceRunner, ev_result = Some result, ev_status = None,
     ev_recorded_at = recordedAt, ev_error_summary = None\<rparr>"

definition emitCheckEvent ::
  "ext \<Rightarrow> AttemptDeduper \<Rightarrow> string \<Rightarrow> string \<Rightarrow> string \<Rightarrow> string \<Rightarrow> CheckResult \<Rightarrow> time
   \<Rightarrow> world \<Rightarrow> AttemptDeduper \<times> world" where
  "emitCheckEvent x dedup executionID attemptID entity checkID result recordedAt w =
    (case MapCategory SourceRunner (Some result) None of
       (category, emit) \<Rightarrow>
         (if \<not> emit then (dedup, w)
          else publish_deduped x dedup (check_event executionID attemptID entity checkID result recordedAt) w))"

definition execution_event ::
  "string \<Rightarrow> string \<Rightarrow> string \<Rightarrow> ExecutionStatus \<Rightarrow> time \<Rightarrow> string option \<Rightarrow> Event" where
  "execution_event executionID attemptID entity status recordedAt errorSummary =
    \<lparr>ev_execution_id = Some executionID, ev_attempt_id = Some attemptID, ev_entity = entity,
     ev_check_id = None, ev_category = fst (MapCategory SourceRunner None (Some status)),
     ev_severity = None, ev_source = SourceRunner, ev_result = None, ev_status = Some status,
     ev_recorded_at = recordedAt, ev_error_summary = errorSummary\<rparr>"

definition emitExecutionEvent ::
  "ext \<Rightarrow> AttemptDeduper \<Rightarrow> string \<Rightarrow> string \<Rightarrow> string \<Rightarrow> ExecutionStatus \<Rightarrow> time \<Rightarrow> string option
   \<Rightarrow> world \<Rightarrow> AttemptDeduper \<times> world" where
  "emitExecutionEvent x dedup executionID attemptID entity status recordedAt errorSummary w =
    (case MapCategory SourceRunner None (Some status) of
       (category, emit) \<Rightarrow>
         (if \<not> emit then (dedup, w)
          else publish_deduped x dedup
                 (execution_event executionID attemptID entity status recordedAt errorSummary) w))"

section \<open>Rows\<close>

definition buildRunningRow :: "Runner \<Rightarrow> string \<Rightarrow> string \<Rightarrow> time \<Rightarrow> TriggerRequest \<Rightarrow> ExecutionRow" where
  "buildRunningRow r executionID attemptID startedAt trigger =
    \<lparr>er_execution_id = executionID, er_attempt_id = attemptID, er_recorded_at = startedAt,
     er_status = StatusRunning, er_mode = triggerMode trigger,
     er_engine_version = rn_engine_version r, er_ruleset_version = tr_ruleset_version trigger,
     er_entity = tr_entity trigger, er_trigger_source = tr_source trigger,
     er_window_start = tr_window_start trigger, er_window_end = tr_window_end trigger,
     er_started_at = None, er_completed_at = None, er_error_summary = None,
     er_supersedes = tr_supersedes trigger\<rparr>"

text \<open>The row both terminal writers build; they differ in the status and the error they wrap.\<close>

definition terminal_row ::
  "Runner \<Rightarrow> string \<Rightarrow> string \<Rightarrow> time \<Rightarrow> TriggerRequest \<Rightarrow> ExecutionStatus \<Rightarrow> string option \<Rightarrow> time \<Rightarrow> ExecutionRow" where
  "terminal_row r executionID attemptID startedAt trigger status errorSummary t =
    \<lparr>er_execution_id = executionID, er_attempt_id = attemptID, er_recorded_at = t,
     er_status = status, er_mode = triggerMode trigger,
     er_engine_version = rn_engine_version r, er_ruleset_version = tr_ruleset_version trigger,
     er_entity = tr_entity trigger, er_trigger_source = tr_source trigger,
     er_window_start = tr_window_start trigger, er_window_end = tr_window_end trigger,
     er_started_at = Some startedAt, er_completed_at = Some t, er_error_summary = errorSummary,
     er_supersedes = tr_supersedes trigger\<rparr>"

definition writePreCheckErrorRow ::
  "ext \<Rightarrow> Runner \<Rightarrow> AttemptDeduper \<Rightarrow> string \<Rightarrow> string \<Rightarrow> time \<Rightarrow> TriggerRequest \<Rightarrow> string option
   \<Rightarrow> world \<Rightarrow> ExecutionRow result \<times> world" where
  "writePreCheckErrorRow x r dedup executionID attemptID startedAt trigger summary w =
    (let (t, w) = now x w;
         row = terminal_row r executionID attemptID startedAt trigger StatusError summary (UTC t);
         (err, w) = WriteExecutionRow x row w
     in case err of
          Some e \<Rightarrow> (Inl (Errorf ''write pre-check error row: %w'' [W e]), w)
        | None \<Rightarrow>
            (let w = emitRunMetrics trigger StatusError startedAt (UTC t) w;
                 (_, w) = emitExecutionEvent x dedup executionID attemptID (tr_entity trigger) StatusError (UTC t) summary w
             in (Inr row, w)))"

definition writeTerminalRow ::
  "ext \<Rightarrow> Runner \<Rightarrow> AttemptDeduper \<Rightarrow> string \<Rightarrow> string \<Rightarrow> time \<Rightarrow> TriggerRequest \<Rightarrow> ExecutionStatus
   \<Rightarrow> string option \<Rightarrow> world \<Rightarrow> ExecutionRow result \<times> world" where
  "writeTerminalRow x r dedup executionID attemptID startedAt trigger status errorSummary w =
    (let (t, w) = now x w;
         row = terminal_row r executionID attemptID startedAt trigger status errorSummary (UTC t);
         (err, w) = WriteExecutionRow x row w
     in case err of
          Some e \<Rightarrow> (Inl (Errorf ''write terminal row: %w'' [W e]), w)
        | None \<Rightarrow>
            (let w = emitRunMetrics trigger status startedAt (UTC t) w;
                 (_, w) = emitExecutionEvent x dedup executionID attemptID (tr_entity trigger) status (UTC t) errorSummary w
             in (Inr row, w)))"

section \<open>Run\<close>

text \<open>One iteration of the check loop, after the cancellation test.\<close>

definition run_check ::
  "ext \<Rightarrow> Runner \<Rightarrow> string \<Rightarrow> string \<Rightarrow> TriggerRequest \<Rightarrow> CheckSpec \<Rightarrow> AttemptDeduper \<Rightarrow> world
   \<Rightarrow> CheckResult result \<times> AttemptDeduper \<times> world" where
  "run_check x r executionID attemptID trigger spec dedup w =
    (let (checkStarted, w) = now x w;
         (eval, evalErr) = rn_evaluator r (tick w) spec trigger;
         w = step w;
         (checkEnded, w) = now x w;
         checkElapsed = Seconds (Sub checkEnded checkStarted);
         eval = (if evalErr \<noteq> None
                 then \<lparr>el_result = ResultError, el_evidence = None, el_samples = None\<rparr> else eval);
         (executedAt, w) = now x w;
         row = \<lparr>cr_execution_id = executionID, cr_attempt_id = attemptID, cr_check_id = cs_check_id spec,
                cr_result = el_result eval, cr_executed_at = UTC executedAt,
                cr_engine_version = rn_engine_version r, cr_evidence_summary = el_evidence eval,
                cr_sample_violating_rows = el_samples eval\<rparr>;
         (err, w) = WriteCheckResultRow x row w
     in case err of
          Some e \<Rightarrow> (Inl (Errorf ''write check_result row for %s: %w'' [S (cs_check_id spec), W e]), dedup, w)
        | None \<Rightarrow>
            (let checkMode = (if cs_mode spec = [] then triggerMode trigger else cs_mode spec);
                 w = sample [Inc ''dq_checks_evaluated_total'' [tr_entity trigger, cs_check_id spec, el_result eval, checkMode],
                             Observe ''dq_check_duration_seconds'' [tr_entity trigger, cs_check_id spec, checkMode] checkElapsed,
                             Set ''dq_bytes_scanned'' [tr_entity trigger, cs_check_id spec] (bytesScannedOrZero (el_evidence eval))] w;
                 (dedup, w) = emitCheckEvent x dedup executionID attemptID (tr_entity trigger)
                                (cs_check_id spec) (el_result eval) (cr_executed_at row) w
             in (Inr (el_result eval), dedup, w)))"

fun run_checks ::
  "ext \<Rightarrow> Runner \<Rightarrow> string \<Rightarrow> string \<Rightarrow> TriggerRequest \<Rightarrow> CheckSpec list \<Rightarrow> AttemptDeduper \<Rightarrow> world
   \<Rightarrow> CheckResult list result \<times> AttemptDeduper \<times> world" where
  "run_checks x r executionID attemptID trigger [] dedup w = (Inr [], dedup, w)"
| "run_checks x r executionID attemptID trigger (spec # specs) dedup w =
    (case ctx_err x (tick w) of
       Some e \<Rightarrow> (Inl (Errorf ''execution canceled mid-pass: %w'' [W e]), dedup, step w)
     | None \<Rightarrow>
         (case run_check x r executionID attemptID trigger spec dedup (step w) of
            (Inl e, dedup, w) \<Rightarrow> (Inl e, dedup, w)
          | (Inr res, dedup, w) \<Rightarrow>
              (case run_checks x r executionID attemptID trigger specs dedup w of
                 (Inl e, dedup, w) \<Rightarrow> (Inl e, dedup, w)
               | (Inr rest, dedup, w) \<Rightarrow> (Inr (res # rest), dedup, w))))"

text \<open>Steps 5 to 9: the running row, the checks, the terminal row.\<close>

definition run_present ::
  "ext \<Rightarrow> Runner \<Rightarrow> string \<Rightarrow> string \<Rightarrow> time \<Rightarrow> TriggerRequest \<Rightarrow> AttemptDeduper \<Rightarrow> world
   \<Rightarrow> ExecutionRow result \<times> world" where
  "run_present x r executionID attemptID startedAt trigger dedup w =
    (case WriteExecutionRow x (buildRunningRow r executionID attemptID startedAt trigger) w of
       (Some e, w) \<Rightarrow> (Inl (Errorf ''write running row: %w'' [W e]), w)
     | (None, w) \<Rightarrow>
         (case run_checks x r executionID attemptID trigger (tr_checks trigger) dedup w of
            (Inl e, dedup, w) \<Rightarrow> (Inl e, w)
          | (Inr checkResults, dedup, w) \<Rightarrow>
              (case MapStatus checkResults of
                 Inl e \<Rightarrow>
                   writeTerminalRow x r dedup executionID attemptID startedAt trigger StatusError
                     (Some ''trigger contained zero checks (ADR-0004 CC2 branch 2)'') w
               | Inr terminalStatus \<Rightarrow>
                   writeTerminalRow x r dedup executionID attemptID startedAt trigger terminalStatus
                     (terminalErrorSummary terminalStatus checkResults) w)))"

definition effective :: "Runner \<Rightarrow> TriggerRequest \<Rightarrow> TriggerRequest" where
  "effective r trigger =
    (if tr_ruleset_version trigger = [] then trigger\<lparr>tr_ruleset_version := rn_ruleset_version r\<rparr> else trigger)"

definition Run :: "ext \<Rightarrow> Runner \<Rightarrow> TriggerRequest \<Rightarrow> world \<Rightarrow> ExecutionRow result \<times> world" where
  "Run x r trigger w =
    (case validateTrigger trigger of
       Some e \<Rightarrow> (Inl (Errorf ''trigger validation: %w'' [W e]), w)
     | None \<Rightarrow>
         (let trigger = effective r trigger
          in case Compute (tr_ruleset_version trigger) (tr_entity trigger) (tr_window_start trigger)
                   (tr_window_end trigger) (tr_source trigger) of
               Inl e \<Rightarrow> (Inl (Errorf ''compute execution_id: %w'' [W e]), w)
             | Inr executionID \<Rightarrow>
                 (let (attemptID, w) = (case tr_attempt_id trigger of
                                          Some a \<Rightarrow> (a, w)
                                        | None \<Rightarrow> (rn_attempt_id r (tick w), step w));
                      (startedAt, w) = now x w;
                      startedAt = UTC startedAt;
                      dedup = NewAttemptDeduper;
                      (present, err) = rn_precheck r (tick w) (tr_entity trigger);
                      w = step w
                  in case err of
                       Some e \<Rightarrow>
                         writePreCheckErrorRow x r dedup executionID attemptID startedAt trigger
                           (Some (''pre-check operational failure: '' @ Error e)) w
                     | None \<Rightarrow>
                         (if \<not> present
                          then writePreCheckErrorRow x r dedup executionID attemptID startedAt trigger
                                 (Some ''pre-check entity-level: source not present (ADR-0007 CC8)'') w
                          else run_present x r executionID attemptID startedAt trigger dedup w))))"

section \<open>Identity: lemmas\<close>

lemma Compute_Inr_iff:
  "Compute rv e ws we src = Inr i \<longleftrightarrow>
   CHR ''|'' \<notin> set rv \<and> CHR ''|'' \<notin> set e \<and> CHR ''|'' \<notin> set src \<and>
   i = sha256_hex (identity_string rv e ws we src)"
  by (auto simp: Compute_def ContainsRune_def)

lemma identity_string_inject:
  assumes "CHR ''|'' \<notin> set rv" "CHR ''|'' \<notin> set e" "CHR ''|'' \<notin> set src"
    and "CHR ''|'' \<notin> set rv'" "CHR ''|'' \<notin> set e'" "CHR ''|'' \<notin> set src'"
    and "identity_string rv e ws we src = identity_string rv' e' ws' we' src'"
  shows "rv = rv' \<and> e = e' \<and> Format ws = Format ws' \<and> Format we = Format we' \<and> src = src'"
proof -
  have "[rv, e, Format ws, Format we, src] = [rv', e', Format ws', Format we', src']"
    using assms by (intro strings_Join_inject [of _ "CHR ''|''"])
      (auto simp: identity_string_def pipeSeparator_def UTC_def Format_no_pipe)
  then show ?thesis by simp
qed

lemma identity_string_truncates:
  "identity_string rv e (Truncate ws second) (Truncate we second) src = identity_string rv e ws we src"
  by (simp add: identity_string_def UTC_def)

section \<open>Status mapping: lemmas\<close>

lemma status_flags_iff:
  "status_flags rs (p, q) = (p \<and> (\<forall>r \<in> set rs. r = ResultPass), q \<and> (\<forall>r \<in> set rs. r = ResultError))"
  by (induction rs arbitrary: p q) auto

lemma MapStatus_eq:
  "MapStatus rs =
   (if rs = [] then Inl ErrEmptyResultMultiset
    else Inr (if \<forall>r \<in> set rs. r = ResultPass then StatusSuccess
              else if \<forall>r \<in> set rs. r = ResultError then StatusError else StatusFailed))"
  by (simp add: MapStatus_def status_flags_iff)

section \<open>Emission: lemmas\<close>

fun dedup_after :: "AttemptDeduper \<Rightarrow> Event list \<Rightarrow> AttemptDeduper" where
  "dedup_after d [] = d"
| "dedup_after d (e # es) = dedup_after (snd (ShouldPublish d e)) es"

lemma publish_all_append:
  "publish_all d (es @ fs) = publish_all d es @ publish_all (dedup_after d es) fs"
  by (induction es arbitrary: d) (auto simp: Let_def split: prod.splits)

lemma dedup_after_append: "dedup_after d (es @ fs) = dedup_after (dedup_after d es) fs"
  by (induction es arbitrary: d) auto

text \<open>What an emission does to the world: only \<open>published\<close> and the tick move.\<close>

lemma publish_deduped_eq:
  "publish_deduped x d e w =
   (dedup_after d [e],
    w\<lparr>tick := tick w + length (publish_all d [e]), published := published w @ publish_all d [e]\<rparr>)"
  by (auto simp: publish_deduped_def Publish_def step_def Let_def split: prod.splits bool.splits)

definition check_alerts :: "string \<Rightarrow> string \<Rightarrow> string \<Rightarrow> string \<Rightarrow> CheckResult \<Rightarrow> time \<Rightarrow> Event list" where
  "check_alerts i a entity c res t = (if res = ResultPass then [] else [check_event i a entity c res t])"

definition execution_alerts ::
  "string \<Rightarrow> string \<Rightarrow> string \<Rightarrow> ExecutionStatus \<Rightarrow> time \<Rightarrow> string option \<Rightarrow> Event list" where
  "execution_alerts i a entity s t m =
    (if s = StatusSuccess \<or> s = StatusRunning then [] else [execution_event i a entity s t m])"

definition emitted :: "AttemptDeduper \<Rightarrow> Event list \<Rightarrow> world \<Rightarrow> AttemptDeduper \<times> world" where
  "emitted d es w =
    (dedup_after d es, w\<lparr>tick := tick w + length (publish_all d es), published := published w @ publish_all d es\<rparr>)"

lemma emitted_simps [simp]:
  "fst (emitted d es w) = dedup_after d es"
  "tick (snd (emitted d es w)) = tick w + length (publish_all d es)"
  "executions (snd (emitted d es w)) = executions w"
  "check_results (snd (emitted d es w)) = check_results w"
  "published (snd (emitted d es w)) = published w @ publish_all d es"
  "samples (snd (emitted d es w)) = samples w"
  by (simp_all add: emitted_def)

lemma emitCheckEvent_eq: "emitCheckEvent x d i a entity c res t w = emitted d (check_alerts i a entity c res t) w"
proof -
  have "snd (MapCategory SourceRunner (Some res) None) \<longleftrightarrow> res \<noteq> ResultPass"
    by (rule MapCategory_check_silent)
  then show ?thesis
    by (auto simp: emitCheckEvent_def check_alerts_def emitted_def publish_deduped_eq split: prod.splits)
qed

lemma emitExecutionEvent_eq:
  "emitExecutionEvent x d i a entity s t m w = emitted d (execution_alerts i a entity s t m) w"
proof -
  have "snd (MapCategory SourceRunner None (Some s)) \<longleftrightarrow> s \<noteq> StatusSuccess \<and> s \<noteq> StatusRunning"
    by (rule MapCategory_execution_silent)
  then show ?thesis
    by (auto simp: emitExecutionEvent_def execution_alerts_def emitted_def publish_deduped_eq split: prod.splits)
qed

lemma extends_emitted [append_only]: "extends w (snd (emitted d es w))"
  by (simp add: extends_def)

section \<open>The writers: lemmas\<close>

text \<open>Both terminal writers are one procedure; \<open>fmt\<close> is the message of a failed write.\<close>

definition finish ::
  "string \<Rightarrow> ext \<Rightarrow> Runner \<Rightarrow> AttemptDeduper \<Rightarrow> string \<Rightarrow> string \<Rightarrow> time \<Rightarrow> TriggerRequest \<Rightarrow> ExecutionStatus
   \<Rightarrow> string option \<Rightarrow> world \<Rightarrow> ExecutionRow result \<times> world" where
  "finish fmt x r d i a st tr s m w =
    (let t = UTC (clock x (tick w)); row = terminal_row r i a st tr s m t;
         w1 = (step (step w))\<lparr>executions := executions w @ replicate (inserted x (Suc (tick w))) (toExecutionRecord row)\<rparr>
     in case put_err x (Suc (tick w)) of
          Some e \<Rightarrow> (Inl (Errorf fmt [W (Errorf ''insert dq_executions row: %w'' [W e])]), w1)
        | None \<Rightarrow> (Inr row, snd (emitted d (execution_alerts i a (tr_entity tr) s t m) (emitRunMetrics tr s st t w1))))"

lemma writeTerminalRow_eq:
  "writeTerminalRow x r d i a st tr s m w = finish ''write terminal row: %w'' x r d i a st tr s m w"
  by (auto simp: writeTerminalRow_def finish_def now_def WriteExecutionRow_eq emitExecutionEvent_eq Let_def
      split: option.splits prod.splits)

lemma writePreCheckErrorRow_eq:
  "writePreCheckErrorRow x r d i a st tr m w = finish ''write pre-check error row: %w'' x r d i a st tr StatusError m w"
  by (auto simp: writePreCheckErrorRow_def finish_def now_def WriteExecutionRow_eq emitExecutionEvent_eq Let_def
      split: option.splits prod.splits)

lemma emitRunMetrics_simps [simp]:
  "tick (emitRunMetrics tr s st t w) = tick w"
  "executions (emitRunMetrics tr s st t w) = executions w"
  "check_results (emitRunMetrics tr s st t w) = check_results w"
  "published (emitRunMetrics tr s st t w) = published w"
  by (simp_all add: emitRunMetrics_def Let_def)

lemma extends_emitRunMetrics [append_only]: "extends w (emitRunMetrics tr s st t w)"
  by (simp add: emitRunMetrics_def Let_def append_only)

lemma finish_cases:
  fixes x :: ext and w :: world and t :: time
  defines "t \<equiv> UTC (clock x (tick w))"
  assumes "finish fmt x r d i a st tr s m w = (res, w')"
  obtains (failed) e where "put_err x (Suc (tick w)) = Some e"
      "res = Inl (Errorf fmt [W (Errorf ''insert dq_executions row: %w'' [W e])])"
      "executions w' = executions w @ replicate (inserted x (Suc (tick w))) (toExecutionRecord (terminal_row r i a st tr s m t))"
      "check_results w' = check_results w" "published w' = published w" "extends w w'"
  | (written) "put_err x (Suc (tick w)) = None" "res = Inr (terminal_row r i a st tr s m t)"
      "executions w' = executions w @ replicate (inserted x (Suc (tick w))) (toExecutionRecord (terminal_row r i a st tr s m t))"
      "check_results w' = check_results w"
      "published w' = published w @ publish_all d (execution_alerts i a (tr_entity tr) s t m)" "extends w w'"
      "tick w' \<ge> tick w + 2"
proof (cases "put_err x (Suc (tick w))")
  case None
  show thesis
    by (rule written) (use assms None in \<open>auto simp: finish_def Let_def extends_def emitRunMetrics_def\<close>)
next
  case (Some e)
  show thesis
    by (rule failed [of e]) (use assms Some in \<open>auto simp: finish_def Let_def extends_def\<close>)
qed

section \<open>The check loop: lemmas\<close>

text \<open>An evaluator error becomes the result \<^verbatim>\<open>error\<close>, whatever evaluation came with it.\<close>

definition evaluated :: "Evaluation \<times> goerr option \<Rightarrow> Evaluation" where
  "evaluated p = (if snd p \<noteq> None then \<lparr>el_result = ResultError, el_evidence = None, el_samples = None\<rparr> else fst p)"

definition check_row :: "Runner \<Rightarrow> string \<Rightarrow> string \<Rightarrow> CheckSpec \<Rightarrow> Evaluation \<Rightarrow> time \<Rightarrow> CheckResultRow" where
  "check_row r i a spec ev t =
    \<lparr>cr_execution_id = i, cr_attempt_id = a, cr_check_id = cs_check_id spec, cr_result = el_result ev,
     cr_executed_at = t, cr_engine_version = rn_engine_version r, cr_evidence_summary = el_evidence ev,
     cr_sample_violating_rows = el_samples ev\<rparr>"

text \<open>
  The log of the loop: per check the row built, the number of copies the write left in the table
  and whether the write reported success.
\<close>

type_synonym entry = "CheckResultRow \<times> nat \<times> bool"

definition logged :: "ext \<Rightarrow> Runner \<Rightarrow> string \<Rightarrow> string \<Rightarrow> TriggerRequest \<Rightarrow> CheckSpec \<Rightarrow> entry \<Rightarrow> bool" where
  "logged x r i a tr spec en \<longleftrightarrow>
    (\<exists>t. en = (check_row r i a spec (evaluated (rn_evaluator r (t + 1) spec tr)) (UTC (clock x (t + 3))),
              inserted x (t + 4), put_err x (t + 4) = None))"

fun entry_rows :: "entry \<Rightarrow> checkResultRecord list" where
  "entry_rows (row, n, ok) = replicate n (toCheckResultRecord row)"

fun entry_alerts :: "string \<Rightarrow> string \<Rightarrow> string \<Rightarrow> entry \<Rightarrow> Event list" where
  "entry_alerts i a entity (row, n, ok) =
    (if ok then check_alerts i a entity (cr_check_id row) (cr_result row) (cr_executed_at row) else [])"

lemma logged_entry_atomic:
  "put_atomic x \<Longrightarrow> logged x r i a tr spec en \<Longrightarrow> snd (snd en) \<Longrightarrow> fst (snd en) = 1"
  by (auto simp: logged_def put_atomic_def)

lemma run_check_cases:
  assumes "run_check x r i a tr spec d w = (res, d', w')"
  obtains en where "logged x r i a tr spec en"
    "executions w' = executions w" "check_results w' = check_results w @ entry_rows en"
    "published w' = published w @ publish_all d (entry_alerts i a (tr_entity tr) en)"
    "d' = dedup_after d (entry_alerts i a (tr_entity tr) en)" "extends w w'" "tick w' \<ge> tick w + 5"
    "isl res \<longleftrightarrow> \<not> snd (snd en)" "\<not> isl res \<Longrightarrow> res = Inr (cr_result (fst en))"
proof -
  define ev where "ev = evaluated (rn_evaluator r (tick w + 1) spec tr)"
  define t where "t = UTC (clock x (tick w + 3))"
  define row where "row = check_row r i a spec ev t"
  define w1 where "w1 = (step (step (step (step (step w)))))\<lparr>check_results :=
      check_results w @ replicate (inserted x (tick w + 4)) (toCheckResultRecord row)\<rparr>"
  have eq: "run_check x r i a tr spec d w = (case put_err x (tick w + 4) of
      Some e \<Rightarrow> (Inl (Errorf ''write check_result row for %s: %w'' [S (cs_check_id spec),
                  W (Errorf ''insert dq_check_results row: %w'' [W e])]), d, w1)
    | None \<Rightarrow> (Inr (el_result ev), emitted d (check_alerts i a (tr_entity tr) (cs_check_id spec) (el_result ev) t)
          (sample [Inc ''dq_checks_evaluated_total'' [tr_entity tr, cs_check_id spec, el_result ev,
                        if cs_mode spec = [] then triggerMode tr else cs_mode spec],
                   Observe ''dq_check_duration_seconds'' [tr_entity tr, cs_check_id spec,
                        if cs_mode spec = [] then triggerMode tr else cs_mode spec]
                        (Seconds (Sub (clock x (tick w + 2)) (clock x (tick w)))),
                   Set ''dq_bytes_scanned'' [tr_entity tr, cs_check_id spec] (bytesScannedOrZero (el_evidence ev))] w1)))"
    unfolding run_check_def
    by (simp add: now_def WriteCheckResultRow_eq emitCheckEvent_eq Let_def ev_def t_def row_def w1_def
        check_row_def evaluated_def eval_nat_numeral split: prod.split option.split)
  have log: "logged x r i a tr spec (row, inserted x (tick w + 4), put_err x (tick w + 4) = None)"
    by (auto simp: logged_def row_def ev_def t_def)
  have row: "cr_check_id row = cs_check_id spec" "cr_result row = el_result ev" "cr_executed_at row = t"
    by (simp_all add: row_def check_row_def)
  have w1: "extends w w1" "tick w1 = tick w + 5" "executions w1 = executions w" "published w1 = published w"
    by (simp_all add: w1_def extends_def)
  show thesis
  proof (cases "put_err x (tick w + 4)")
    case None
    then show thesis using assms eq row w1
      by (intro that [OF log]) (auto simp: w1_def extends_def emitted_def)
  next
    case (Some e)
    then show thesis using assms eq w1
      by (intro that [OF log]) (auto simp: w1_def)
  qed
qed

text \<open>
  The whole loop: a log of a prefix of the checks, in order; all of them exactly when it
  returns results. The alerts are those of the logged rows, passed through the deduper.
\<close>

lemma run_checks_log:
  assumes "run_checks x r i a tr specs d w = (res, d', w')"
  shows "\<exists>log. list_all2 (logged x r i a tr) (take (length log) specs) log
    \<and> length log \<le> length specs
    \<and> executions w' = executions w
    \<and> check_results w' = check_results w @ concat (map entry_rows log)
    \<and> published w' = published w @ publish_all d (concat (map (entry_alerts i a (tr_entity tr)) log))
    \<and> d' = dedup_after d (concat (map (entry_alerts i a (tr_entity tr)) log))
    \<and> extends w w'
    \<and> (\<forall>rs. res = Inr rs \<longrightarrow> length log = length specs \<and> rs = map (cr_result \<circ> fst) log
              \<and> list_all (\<lambda>en. snd (snd en)) log)"
  using assms
proof (induction specs arbitrary: d w res d' w')
  case Nil
  then show ?case by (intro exI [of _ "[]"]) auto
next
  case (Cons spec specs)
  show ?case
  proof (cases "ctx_err x (tick w)")
    case (Some e)
    then show ?thesis using Cons.prems
      by (intro exI [of _ "[]"]) (auto simp: append_only)
  next
    case None
    obtain res1 d1 w1 where run1: "run_check x r i a tr spec d (step w) = (res1, d1, w1)"
      by (metis prod_cases3)
    then obtain en where en: "logged x r i a tr spec en"
      "executions w1 = executions w" "check_results w1 = check_results w @ entry_rows en"
      "published w1 = published w @ publish_all d (entry_alerts i a (tr_entity tr) en)"
      "d1 = dedup_after d (entry_alerts i a (tr_entity tr) en)" "extends (step w) w1"
      "isl res1 \<longleftrightarrow> \<not> snd (snd en)" "\<not> isl res1 \<Longrightarrow> res1 = Inr (cr_result (fst en))"
      by (rule run_check_cases) auto
    have ext1: "extends w w1" using extends_step en(6) by (rule extends_trans)
    show ?thesis
    proof (cases res1)
      case (Inl e)
      then show ?thesis using Cons.prems None run1 en ext1 by (intro exI [of _ "[en]"]) auto
    next
      case (Inr v)
      obtain res2 d2 w2 where run2: "run_checks x r i a tr specs d1 w1 = (res2, d2, w2)"
        by (metis prod_cases3)
      obtain log where log: "list_all2 (logged x r i a tr) (take (length log) specs) log"
        "length log \<le> length specs" "executions w2 = executions w1"
        "check_results w2 = check_results w1 @ concat (map entry_rows log)"
        "published w2 = published w1 @ publish_all d1 (concat (map (entry_alerts i a (tr_entity tr)) log))"
        "d2 = dedup_after d1 (concat (map (entry_alerts i a (tr_entity tr)) log))" "extends w1 w2"
        "\<forall>rs. res2 = Inr rs \<longrightarrow> length log = length specs \<and> rs = map (cr_result \<circ> fst) log
              \<and> list_all (\<lambda>en. snd (snd en)) log"
        using Cons.IH [OF run2] by blast
      have final: "(res, d', w') = (case res2 of Inl e \<Rightarrow> Inl e | Inr rest \<Rightarrow> Inr (v # rest), d2, w2)"
        using Cons.prems None run1 Inr run2 by (auto split: sum.splits)
      show ?thesis
        using final en log Inr extends_trans [OF ext1 log(7)]
        by (intro exI [of _ "en # log"])
          (auto simp: publish_all_append dedup_after_append split: sum.splits)
    qed
  qed
qed

text \<open>With no cancellation and no failed write the loop always returns results.\<close>

lemma run_checks_total:
  assumes "\<forall>t. ctx_err x t = None" and "\<forall>t. put_err x t = None"
  shows "\<exists>rs d' w'. run_checks x r i a tr specs d w = (Inr rs, d', w')"
proof (induction specs arbitrary: d w)
  case (Cons spec specs)
  obtain res1 d1 w1 where run1: "run_check x r i a tr spec d (step w) = (res1, d1, w1)"
    by (metis prod_cases3)
  then obtain en where "logged x r i a tr spec en" "isl res1 \<longleftrightarrow> \<not> snd (snd en)"
    by (rule run_check_cases) auto
  then have "\<not> isl res1" using assms(2) by (auto simp: logged_def)
  then show ?case using run1 Cons.IH [of d1 w1] assms(1) by (cases res1) auto
qed simp

section \<open>Run: lemmas\<close>

text \<open>The execution id of a trigger under a runner's default ruleset version.\<close>

definition trigger_id :: "Runner \<Rightarrow> TriggerRequest \<Rightarrow> string result" where
  "trigger_id r tr =
    (let tr = effective r tr
     in Compute (tr_ruleset_version tr) (tr_entity tr) (tr_window_start tr) (tr_window_end tr) (tr_source tr))"

definition attempt_of :: "Runner \<Rightarrow> TriggerRequest \<Rightarrow> world \<Rightarrow> string" where
  "attempt_of r tr w = (case tr_attempt_id tr of Some a \<Rightarrow> a | None \<Rightarrow> rn_attempt_id r (tick w))"

definition mint_ticks :: "TriggerRequest \<Rightarrow> nat" where
  "mint_ticks tr = (if tr_attempt_id tr = None then 1 else 0)"

text \<open>The state after minting the attempt id, reading the clock and asking the pre-check.\<close>

definition started :: "TriggerRequest \<Rightarrow> world \<Rightarrow> world" where
  "started tr w = w\<lparr>tick := tick w + mint_ticks tr + 2\<rparr>"

lemma started_simps [simp]:
  "tick (started tr w) = tick w + mint_ticks tr + 2" "executions (started tr w) = executions w"
  "check_results (started tr w) = check_results w" "published (started tr w) = published w"
  "samples (started tr w) = samples w"
  by (simp_all add: started_def)

lemma extends_started [append_only]: "extends w (started tr w)"
  by (simp add: extends_def)

lemma effective_simps [simp]:
  "tr_entity (effective r tr) = tr_entity tr" "tr_window_start (effective r tr) = tr_window_start tr"
  "tr_window_end (effective r tr) = tr_window_end tr" "tr_source (effective r tr) = tr_source tr"
  "tr_checks (effective r tr) = tr_checks tr" "tr_supersedes (effective r tr) = tr_supersedes tr"
  "tr_attempt_id (effective r tr) = tr_attempt_id tr" "triggerMode (effective r tr) = triggerMode tr"
  by (simp_all add: effective_def triggerMode_def)

lemma Run_eq:
  assumes "validateTrigger tr = None" and "trigger_id r tr = Inr i"
  shows "Run x r tr w =
    (let a = attempt_of r tr w; st = UTC (clock x (tick w + mint_ticks tr));
         p = rn_precheck r (tick w + mint_ticks tr + 1) (tr_entity tr)
     in case snd p of
          Some e \<Rightarrow> finish ''write pre-check error row: %w'' x r NewAttemptDeduper i a st (effective r tr) StatusError
                      (Some (''pre-check operational failure: '' @ Error e)) (started tr w)
        | None \<Rightarrow> if \<not> fst p
                  then finish ''write pre-check error row: %w'' x r NewAttemptDeduper i a st (effective r tr) StatusError
                         (Some ''pre-check entity-level: source not present (ADR-0007 CC8)'') (started tr w)
                  else run_present x r i a st (effective r tr) NewAttemptDeduper (started tr w))"
  using assms
  by (auto simp: Run_def trigger_id_def Let_def attempt_of_def mint_ticks_def started_def now_def step_def
      writePreCheckErrorRow_eq split: option.splits prod.splits)

lemma Run_invalid:
  assumes "validateTrigger tr \<noteq> None \<or> isl (trigger_id r tr)"
  shows "isl (fst (Run x r tr w))" "snd (Run x r tr w) = w"
  using assms by (auto simp: Run_def trigger_id_def Let_def split: option.splits sum.splits)

text \<open>The status and summary of the terminal row, from the results of the checks.\<close>

definition verdict :: "CheckResult list \<Rightarrow> ExecutionStatus \<times> string option" where
  "verdict rs = (case MapStatus rs of
     Inl e \<Rightarrow> (StatusError, Some ''trigger contained zero checks (ADR-0004 CC2 branch 2)'')
   | Inr s \<Rightarrow> (s, terminalErrorSummary s rs))"

lemma verdict_status: "fst (verdict rs) \<in> {StatusSuccess, StatusFailed, StatusError}"
  by (simp add: verdict_def MapStatus_eq)

lemma verdict_summary: "snd (verdict rs) = None \<longleftrightarrow> fst (verdict rs) = StatusSuccess"
  by (auto simp: verdict_def MapStatus_eq terminalErrorSummary_def)

lemma run_present_cases:
  assumes "run_present x r i a st tr d w = (res, w')"
  obtains (running_failed) "isl res"
      "executions w' = executions w @ replicate (inserted x (tick w)) (toExecutionRecord (buildRunningRow r i a st tr))"
      "check_results w' = check_results w" "published w' = published w" "extends w w'"
  | (interrupted) log where "put_err x (tick w) = None" "isl res"
      "list_all2 (logged x r i a tr) (take (length log) (tr_checks tr)) log"
      "executions w' = executions w @ replicate (inserted x (tick w)) (toExecutionRecord (buildRunningRow r i a st tr))"
      "check_results w' = check_results w @ concat (map entry_rows log)"
      "published w' = published w @ publish_all d (concat (map (entry_alerts i a (tr_entity tr)) log))" "extends w w'"
  | (ran) log w1 where "put_err x (tick w) = None"
      "list_all2 (logged x r i a tr) (tr_checks tr) log" "list_all (\<lambda>en. snd (snd en)) log"
      "executions w1 = executions w @ replicate (inserted x (tick w)) (toExecutionRecord (buildRunningRow r i a st tr))"
      "check_results w1 = check_results w @ concat (map entry_rows log)"
      "published w1 = published w @ publish_all d (concat (map (entry_alerts i a (tr_entity tr)) log))"
      "extends w w1" "tick w < tick w1"
      "finish ''write terminal row: %w'' x r (dedup_after d (concat (map (entry_alerts i a (tr_entity tr)) log))) i a st tr
         (fst (verdict (map (cr_result \<circ> fst) log))) (snd (verdict (map (cr_result \<circ> fst) log))) w1 = (res, w')"
proof -
  define w0 where "w0 = snd (WriteExecutionRow x (buildRunningRow r i a st tr) w)"
  have w0: "executions w0 = executions w @ replicate (inserted x (tick w)) (toExecutionRecord (buildRunningRow r i a st tr))"
    "check_results w0 = check_results w" "published w0 = published w" "tick w0 = Suc (tick w)"
    by (simp_all add: w0_def WriteExecutionRow_eq)
  have e0: "extends w w0" unfolding w0_def by (rule extends_WriteExecutionRow)
  show thesis
  proof (cases "put_err x (tick w)")
    case (Some e)
    then show thesis using assms w0 e0
      by (intro running_failed) (auto simp: run_present_def WriteExecutionRow_eq extends_def)
  next
    case None
    obtain res1 d1 w1 where run1: "run_checks x r i a tr (tr_checks tr) d w0 = (res1, d1, w1)"
      by (metis prod_cases3)
    then obtain log where log: "list_all2 (logged x r i a tr) (take (length log) (tr_checks tr)) log"
      "length log \<le> length (tr_checks tr)" "executions w1 = executions w0"
      "check_results w1 = check_results w0 @ concat (map entry_rows log)"
      "published w1 = published w0 @ publish_all d (concat (map (entry_alerts i a (tr_entity tr)) log))"
      "d1 = dedup_after d (concat (map (entry_alerts i a (tr_entity tr)) log))" "extends w0 w1"
      "\<forall>rs. res1 = Inr rs \<longrightarrow> length log = length (tr_checks tr) \<and> rs = map (cr_result \<circ> fst) log
            \<and> list_all (\<lambda>en. snd (snd en)) log"
      using run_checks_log [OF run1] by blast
    have ext1: "extends w w1" using e0 log(7) by (rule extends_trans)
    have t1: "tick w < tick w1" using log(7) w0(4) by (simp add: extends_def)
    have run: "run_present x r i a st tr d w = (case res1 of Inl e \<Rightarrow> (Inl e, w1)
        | Inr rs \<Rightarrow> finish ''write terminal row: %w'' x r d1 i a st tr (fst (verdict rs)) (snd (verdict rs)) w1)"
      using None run1
      by (auto simp: run_present_def WriteExecutionRow_eq w0_def verdict_def writeTerminalRow_eq split: sum.splits)
    show thesis
    proof (cases res1)
      case (Inl e)
      show thesis by (rule interrupted) (use None run assms Inl log w0 ext1 in auto)
    next
      case (Inr rs)
      show thesis by (rule ran [of log w1]) (use None run assms Inr log w0 ext1 t1 in auto)
    qed
  qed
qed

lemma extends_Run [append_only]: "extends w (snd (Run x r tr w))"
proof (cases "validateTrigger tr = None \<and> \<not> isl (trigger_id r tr)")
  case False
  then have "snd (Run x r tr w) = w" by (intro Run_invalid) auto
  then show ?thesis by simp
next
  case True
  then obtain i where v: "validateTrigger tr = None" "trigger_id r tr = Inr i"
    by (cases "trigger_id r tr") auto
  have fin: "extends u (snd (finish fmt x r d i a st tr' s m u))" for fmt d a st tr' s m u
  proof (cases "finish fmt x r d i a st tr' s m u")
    case (Pair res u')
    from Pair show ?thesis by (cases rule: finish_cases) (simp_all add: Pair)
  qed
  have pres: "extends u (snd (run_present x r i a st tr' d u))" for a st tr' d u
  proof (cases "run_present x r i a st tr' d u")
    case (Pair res u')
    from Pair show ?thesis
    proof (cases rule: run_present_cases)
      case (ran log w1)
      have "extends w1 u'" using fin ran(9) by (metis snd_conv)
      with ran(7) show ?thesis using Pair by (simp add: extends_trans)
    qed (simp_all add: Pair)
  qed
  have "extends (started tr w) (snd (Run x r tr w))"
    unfolding Run_eq [OF v] Let_def by (auto simp: fin pres split: option.split)
  with extends_started show ?thesis by (rule extends_trans)
qed

section \<open>Properties of the identity and of the status mapping\<close>

text \<open>
  C2. Two triggers get the same \<^verbatim>\<open>execution_id\<close> exactly when they agree on the ruleset version,
  the entity, the trigger source and both window bounds to the second. The windows are in the years
  the layout can print (0 to 9999) and the two preimages are not a SHA-256 collision.
\<close>

theorem Compute_identity:
  assumes "Compute rv e ws we src = Inr i" and "Compute rv' e' ws' we' src' = Inr i'"
    and "{year_of ws, year_of we, year_of ws', year_of we'} \<subseteq> {0..9999}"
    and "sha256_hex (identity_string rv e ws we src) = sha256_hex (identity_string rv' e' ws' we' src')
         \<longrightarrow> identity_string rv e ws we src = identity_string rv' e' ws' we' src'"
  shows "i = i' \<longleftrightarrow> rv = rv' \<and> e = e' \<and> src = src' \<and>
           Truncate ws second = Truncate ws' second \<and> Truncate we second = Truncate we' second"
proof
  assume "i = i'"
  then have "identity_string rv e ws we src = identity_string rv' e' ws' we' src'"
    using assms by (simp add: Compute_Inr_iff)
  then have "rv = rv' \<and> e = e' \<and> Format ws = Format ws' \<and> Format we = Format we' \<and> src = src'"
    using assms(1,2) by (intro identity_string_inject) (simp_all add: Compute_Inr_iff)
  then show "rv = rv' \<and> e = e' \<and> src = src' \<and>
           Truncate ws second = Truncate ws' second \<and> Truncate we second = Truncate we' second"
    using Format_inject assms(3) by auto
next
  assume "rv = rv' \<and> e = e' \<and> src = src' \<and>
           Truncate ws second = Truncate ws' second \<and> Truncate we second = Truncate we' second"
  then show "i = i'"
    using assms(1,2) identity_string_truncates by (metis Compute_Inr_iff)
qed

text \<open>
  \<open>MapStatus\<close> is a function of the multiset of results with the five-branch table of ADR-0004:
  it fails exactly on the empty multiset; otherwise the status is \<open>success\<close> iff every result is
  \<open>pass\<close>, \<open>error\<close> iff every result is \<open>error\<close>, and \<open>failed\<close> iff neither.
\<close>

theorem MapStatus_spec:
  "(MapStatus rs = Inl ErrEmptyResultMultiset \<longleftrightarrow> rs = []) \<and>
   (MapStatus rs = Inr StatusSuccess \<longleftrightarrow> rs \<noteq> [] \<and> set rs = {ResultPass}) \<and>
   (MapStatus rs = Inr StatusError \<longleftrightarrow> rs \<noteq> [] \<and> set rs = {ResultError}) \<and>
   (MapStatus rs = Inr StatusFailed \<longleftrightarrow> rs \<noteq> [] \<and> set rs \<noteq> {ResultPass} \<and> set rs \<noteq> {ResultError}) \<and>
   (mset rs = mset rs' \<longrightarrow> MapStatus rs = MapStatus rs')"
proof -
  have one: "(\<forall>r \<in> set rs. r = c) \<longleftrightarrow> rs = [] \<or> set rs = {c}" for c
    by (cases rs) auto
  have perm: "MapStatus rs = MapStatus rs'" if "mset rs = mset rs'"
    using that mset_eq_setD [OF that] by (auto simp: MapStatus_eq)
  show ?thesis using perm by (auto simp: MapStatus_eq one)
qed

section \<open>Properties of Run\<close>

text \<open>
  C1. A full attempt. When the trigger is valid, the source is present, no write fails and nothing
  is cancelled, \<^verbatim>\<open>Run\<close> appends exactly the running row and the terminal row, and between them one
  check row per check in order, each carrying what the evaluator said (\<^verbatim>\<open>error\<close> where it failed); the
  terminal status and summary are those of the results, and the terminal row is what is returned.
\<close>

theorem Run_trace:
  assumes "validateTrigger tr = None" "trigger_id r tr = Inr i"
    and "\<forall>t. rn_precheck r t (tr_entity tr) = (True, None)"
    and "\<forall>t. ctx_err x t = None" "\<forall>t. put_err x t = None" "put_atomic x"
    and "Run x r tr w = (res, w')"
  shows "\<exists>rows t. let a = attempt_of r tr w; st = UTC (clock x (tick w + mint_ticks tr));
                    (s, m) = verdict (map cr_result rows); row = terminal_row r i a st (effective r tr) s m t
    in list_all2 (\<lambda>c row. \<exists>n u. row = check_row r i a c (evaluated (rn_evaluator r n c (effective r tr))) u)
         (tr_checks tr) rows
       \<and> res = Inr row
       \<and> executions w' = executions w @ [toExecutionRecord (buildRunningRow r i a st (effective r tr)), toExecutionRecord row]
       \<and> check_results w' = check_results w @ map toCheckResultRecord rows"
proof -
  let ?a = "attempt_of r tr w" and ?st = "UTC (clock x (tick w + mint_ticks tr))" and ?tr = "effective r tr"
  have one: "inserted x n = 1" for n using assms(5,6) by (simp add: put_atomic_def)
  have run: "run_present x r i ?a ?st ?tr NewAttemptDeduper (started tr w) = (res, w')"
    using assms(7) Run_eq [OF assms(1,2)] assms(3) by (simp add: Let_def)
  obtain rs d1 w2 where total: "run_checks x r i ?a ?tr (tr_checks ?tr) NewAttemptDeduper
      (snd (WriteExecutionRow x (buildRunningRow r i ?a ?st ?tr) (started tr w))) = (Inr rs, d1, w2)"
    using run_checks_total [OF assms(4,5)] by blast
  have "\<not> isl res"
    using run total assms(5)
    by (auto simp: run_present_def WriteExecutionRow_eq writeTerminalRow_eq finish_def Let_def split: sum.splits)
  with run show ?thesis
  proof (cases rule: run_present_cases)
    case (ran log w1)
    let ?v = "verdict (map (cr_result \<circ> fst) log)"
    from ran(9) show ?thesis
    proof (cases rule: finish_cases)
      case written
      have rows: "concat (map entry_rows log) = map toCheckResultRecord (map fst log)"
        using ran(2) by (induction rule: list_all2_induct) (auto simp: logged_def one)
      have "list_all2 (\<lambda>c row. \<exists>n u. row = check_row r i ?a c (evaluated (rn_evaluator r n c ?tr)) u)
              (tr_checks tr) (map fst log)"
        using ran(2) unfolding list_all2_map2 effective_simps by (rule list_all2_mono) (force simp: logged_def)
      then show ?thesis
        using written ran(4,5) one rows
        by (intro exI [of _ "map fst log"] exI [of _ "UTC (clock x (tick w1))"])
          (simp add: Let_def case_prod_unfold)
    qed (use assms(5) in simp)
  qed auto
qed

text \<open>
  \<^verbatim>\<open>Run\<close> never rewrites history: whatever the services answer, both tables, the emitted alerts
  and the metric samples afterwards start with what they held before.
\<close>

theorem Run_append_only: "extends w (snd (Run x r tr w))"
  by (rule extends_Run)

lemma finish_returns:
  assumes "finish fmt x r d i a st tr s m u = (Inr row, u')" "put_durable x"
  shows "toExecutionRecord row \<in> set (executions u') \<and> er_status row = s \<and> er_error_summary row = m
         \<and> er_execution_id row = i"
  using assms(1)
proof (cases rule: finish_cases)
  case written
  then show ?thesis using assms(2) by (simp add: put_durable_def terminal_row_def)
qed simp

lemma Run_valid:
  assumes "fst (Run x r tr w) = Inr row"
  obtains i where "validateTrigger tr = None" "trigger_id r tr = Inr i"
  using assms Run_invalid(1) [of tr r x w] by (cases "trigger_id r tr"; cases "validateTrigger tr") auto

lemma Run_finishes:
  assumes "Run x r tr w = (Inr row, w')" "validateTrigger tr = None" "trigger_id r tr = Inr i"
  obtains fmt d s m u where "finish fmt x r d i (attempt_of r tr w) (UTC (clock x (tick w + mint_ticks tr)))
      (effective r tr) s m u = (Inr row, w')"
    "s \<in> {StatusSuccess, StatusFailed, StatusError}" "m = None \<longleftrightarrow> s = StatusSuccess"
    "extends (started tr w) u"
    "\<exists>n. executions u = executions w @ replicate n (toExecutionRecord (buildRunningRow r i (attempt_of r tr w)
          (UTC (clock x (tick w + mint_ticks tr))) (effective r tr))) \<and> (0 < n \<longrightarrow> tick (started tr w) < tick u)"
proof (cases "snd (rn_precheck r (tick w + mint_ticks tr + 1) (tr_entity tr)) = None
              \<and> fst (rn_precheck r (tick w + mint_ticks tr + 1) (tr_entity tr))")
  case True
  then have "run_present x r i (attempt_of r tr w) (UTC (clock x (tick w + mint_ticks tr)))
      (effective r tr) NewAttemptDeduper (started tr w) = (Inr row, w')"
    using assms by (simp add: Run_eq Let_def)
  then show thesis
  proof (cases rule: run_present_cases)
    case (ran log w1)
    show thesis by (rule that [OF ran(9)]) (use ran verdict_status verdict_summary in auto)
  qed auto
next
  case False
  then obtain m where "finish ''write pre-check error row: %w'' x r NewAttemptDeduper i (attempt_of r tr w)
      (UTC (clock x (tick w + mint_ticks tr))) (effective r tr) StatusError (Some m) (started tr w) = (Inr row, w')"
    using assms by (auto simp: Run_eq Let_def split: option.splits)
  then show thesis by (rule that) (auto intro: exI [of _ 0])
qed

text \<open>
  What \<^verbatim>\<open>Run\<close> returns is durable and final: the returned row is in the table, its status is
  \<^verbatim>\<open>success\<close>, \<^verbatim>\<open>failed\<close> or \<^verbatim>\<open>error\<close> (never \<^verbatim>\<open>running\<close> or \<^verbatim>\<open>aborted\<close>), and it has an error summary
  unless the status is \<^verbatim>\<open>success\<close>.
\<close>

theorem Run_returns_durable:
  assumes "Run x r tr w = (Inr row, w')" and "put_durable x"
  shows "toExecutionRecord row \<in> set (executions w')
    \<and> er_status row \<in> {StatusSuccess, StatusFailed, StatusError}
    \<and> (er_error_summary row = None \<longleftrightarrow> er_status row = StatusSuccess)
    \<and> trigger_id r tr = Inr (er_execution_id row)"
proof -
  obtain i where v: "validateTrigger tr = None" "trigger_id r tr = Inr i"
    using assms(1) by (auto intro: Run_valid [of x r tr w row])
  from assms(1) v obtain fmt d s m u where "finish fmt x r d i (attempt_of r tr w)
      (UTC (clock x (tick w + mint_ticks tr))) (effective r tr) s m u = (Inr row, w')"
    "s \<in> {StatusSuccess, StatusFailed, StatusError}" "m = None \<longleftrightarrow> s = StatusSuccess"
    by (rule Run_finishes)
  with finish_returns [OF this(1) assms(2)] v show ?thesis by auto
qed

text \<open>
  C5. An attempt whose pre-check fails or reports the source absent writes one terminal \<^verbatim>\<open>error\<close>
  row and nothing else: no running row and no check row. It still emits the execution-level alert.
\<close>

theorem Run_precheck_failure:
  assumes "validateTrigger tr = None" "trigger_id r tr = Inr i"
    and "\<forall>t. rn_precheck r t (tr_entity tr) \<noteq> (True, None)"
    and "\<forall>t. put_err x t = None" "put_atomic x"
    and "Run x r tr w = (res, w')"
  shows "\<exists>row. res = Inr row \<and> executions w' = executions w @ [toExecutionRecord row] \<and> check_results w' = check_results w
    \<and> er_status row = StatusError \<and> er_error_summary row \<noteq> None
    \<and> published w' = published w @ [execution_event i (attempt_of r tr w) (tr_entity tr) StatusError
                                       (er_recorded_at row) (er_error_summary row)]"
proof -
  have one: "inserted x n = 1" for n using assms(4,5) by (simp add: put_atomic_def)
  have "rn_precheck r (tick w + mint_ticks tr + 1) (tr_entity tr) \<noteq> (True, None)" using assms(3) by simp
  then obtain m where "finish ''write pre-check error row: %w'' x r NewAttemptDeduper i (attempt_of r tr w)
      (UTC (clock x (tick w + mint_ticks tr))) (effective r tr) StatusError (Some m) (started tr w) = (res, w')"
    using assms(6) Run_eq [OF assms(1,2)]
    by (cases "rn_precheck r (tick w + mint_ticks tr + 1) (tr_entity tr)") (auto simp: Let_def split: option.splits if_splits)
  then show ?thesis
  proof (cases rule: finish_cases)
    case written
    then show ?thesis
      by (auto simp: one terminal_row_def execution_alerts_def ShouldPublish_def NewAttemptDeduper_def)
  qed (use assms(4) in simp)
qed

text \<open>
  An alert is backed when the row it reports is in the table: the check row with its result for a
  check-level alert, the execution row with its status for an execution-level one.
\<close>

definition backed :: "world \<Rightarrow> Event \<Rightarrow> bool" where
  "backed w e \<longleftrightarrow>
    (case ev_check_id e of
       Some c \<Rightarrow> (\<exists>rec \<in> set (check_results w). ev_execution_id e = Some (kr_execution_id rec)
                  \<and> ev_attempt_id e = Some (kr_attempt_id rec) \<and> c = kr_check_id rec
                  \<and> ev_result e = Some (kr_result rec) \<and> kr_result rec \<noteq> ResultPass
                  \<and> ev_recorded_at e = kr_executed_at rec)
     | None \<Rightarrow> (\<exists>rec \<in> set (executions w). ev_execution_id e = Some (xr_execution_id rec)
                  \<and> ev_attempt_id e = Some (xr_attempt_id rec) \<and> ev_status e = Some (xr_status rec)
                  \<and> xr_status rec \<notin> {StatusSuccess, StatusRunning} \<and> ev_recorded_at e = xr_recorded_at rec))"

lemma publish_all_subset: "set (publish_all d es) \<subseteq> set es"
  by (induction es arbitrary: d) (auto simp: Let_def split: prod.splits if_splits)

lemma backed_mono: "backed w e \<Longrightarrow> extends w w' \<Longrightarrow> backed w' e"
  unfolding backed_def extends_def by (fastforce split: option.splits dest: set_mono_prefix)

lemma entry_alerts_backed:
  assumes "logged x r i a tr spec en" "e \<in> set (entry_alerts i a ent en)" "put_durable x"
    and "set (entry_rows en) \<subseteq> set (check_results w)"
  shows "backed w e"
proof -
  obtain row n where en: "en = (row, n, True)" "0 < n" "cr_execution_id row = i" "cr_attempt_id row = a"
    using assms(1-3) by (auto simp: logged_def put_durable_def check_row_def split: if_splits)
  then have "toCheckResultRecord row \<in> set (check_results w)" using assms(4) by auto
  moreover have "e = check_event i a ent (cr_check_id row) (cr_result row) (cr_executed_at row)" "cr_result row \<noteq> ResultPass"
    using assms(2) en(1) by (auto simp: check_alerts_def split: if_splits)
  ultimately show ?thesis using en(3,4)
    by (auto simp: backed_def check_event_def intro!: bexI [of _ "toCheckResultRecord row"])
qed

lemma log_alerts_backed:
  assumes "list_all2 (logged x r i a tr) specs l" "put_durable x"
    and "e \<in> set (publish_all d (concat (map (entry_alerts i a ent) l)))"
    and "check_results w = cs @ concat (map entry_rows l)"
  shows "backed w e"
proof -
  obtain en where en: "en \<in> set l" "e \<in> set (entry_alerts i a ent en)"
    using assms(3) publish_all_subset by fastforce
  then obtain spec where "logged x r i a tr spec en"
    using assms(1) by (auto simp: list_all2_conv_all_nth in_set_conv_nth)
  then show ?thesis by (rule entry_alerts_backed [OF _ en(2) assms(2)]) (use assms(4) en in auto)
qed

lemma finish_alerts_backed:
  assumes "finish fmt x r d i a st tr s m u = (res, u')" "put_durable x"
    and "e \<in> set (published u')" "e \<notin> set (published u)"
  shows "backed u' e"
  using assms(1)
proof (cases rule: finish_cases)
  case failed
  then show ?thesis using assms by simp
next
  case written
  then have "e \<in> set (execution_alerts i a (tr_entity tr) s (UTC (clock x (tick u))) m)"
    using assms(3,4) publish_all_subset by fastforce
  then have e: "e = execution_event i a (tr_entity tr) s (UTC (clock x (tick u))) m" "s \<notin> {StatusSuccess, StatusRunning}"
    by (auto simp: execution_alerts_def split: if_splits)
  let ?row = "terminal_row r i a st tr s m (UTC (clock x (tick u)))"
  have "toExecutionRecord ?row \<in> set (executions u')" using written assms(2) by (simp add: put_durable_def)
  then show ?thesis using e
    by (auto simp: backed_def execution_event_def terminal_row_def intro!: bexI [of _ "toExecutionRecord ?row"])
qed

text \<open>
  No alert without its row: every alert \<^verbatim>\<open>Run\<close> emits, on any path, reports a row that is in the
  tables when it returns.
\<close>

theorem Run_alerts_backed:
  assumes "Run x r tr w = (res, w')" "put_durable x"
    and "e \<in> set (published w')" "e \<notin> set (published w)"
  shows "backed w' e"
proof (cases "validateTrigger tr = None \<and> \<not> isl (trigger_id r tr)")
  case False
  then have "snd (Run x r tr w) = w" by (intro Run_invalid) auto
  then show ?thesis using assms by simp
next
  case True
  then obtain i where v: "validateTrigger tr = None" "trigger_id r tr = Inr i"
    by (cases "trigger_id r tr") auto
  let ?a = "attempt_of r tr w" and ?st = "UTC (clock x (tick w + mint_ticks tr))" and ?tr = "effective r tr"
  consider m where "finish ''write pre-check error row: %w'' x r NewAttemptDeduper i ?a ?st ?tr StatusError m (started tr w) = (res, w')"
    | "run_present x r i ?a ?st ?tr NewAttemptDeduper (started tr w) = (res, w')"
    using assms(1) Run_eq [OF v] by (auto simp: Let_def split: option.splits if_splits)
  then show ?thesis
  proof cases
    case 1
    then show ?thesis using finish_alerts_backed [OF 1 assms(2,3)] assms(4) by simp
  next
    case 2
    then show ?thesis
    proof (cases rule: run_present_cases)
      case running_failed
      then show ?thesis using assms(3,4) by simp
    next
      case (interrupted log)
      then show ?thesis using assms(2-4) by (intro log_alerts_backed) auto
    next
      case (ran log w1)
      show ?thesis
      proof (cases "e \<in> set (published w1)")
        case True
        then have "backed w1 e" using ran assms(2,4) by (intro log_alerts_backed) auto
        moreover have "extends w1 w'" using ran(9) by (cases rule: finish_cases) auto
        ultimately show ?thesis by (rule backed_mono)
      next
        case False
        then show ?thesis using finish_alerts_backed [OF ran(9) assms(2,3)] by simp
      qed
    qed
  qed
qed

definition row_alert :: "string \<Rightarrow> CheckResultRow \<Rightarrow> Event" where
  "row_alert entity row = check_event (cr_execution_id row) (cr_attempt_id row) entity
     (cr_check_id row) (cr_result row) (cr_executed_at row)"

lemma entry_alerts_rows:
  assumes "list_all2 (logged x r i a tr) specs l" "list_all (\<lambda>en. snd (snd en)) l"
  shows "concat (map (entry_alerts i a entity) l) =
    map (row_alert entity) (filter (\<lambda>row. cr_result row \<noteq> ResultPass) (map fst l))"
  using assms
  by (induction rule: list_all2_induct) (auto simp: logged_def check_alerts_def row_alert_def check_row_def)

text \<open>
  Duplicate suppression within one attempt, as a function of the alerts offered: an alert goes out when no
  earlier one has its check id and result, where an execution-level alert counts as one without either.
\<close>

definition alert_key :: "Event \<Rightarrow> string \<times> string" where
  "alert_key e = (or_empty (ev_check_id e), or_empty (ev_result e))"

fun firsts :: "('a \<Rightarrow> 'k) \<Rightarrow> 'a list \<Rightarrow> 'a list" where
  "firsts key [] = []"
| "firsts key (a # as) = a # filter (\<lambda>b. key b \<noteq> key a) (firsts key as)"

lemma set_firsts: "set (firsts key as) \<subseteq> set as"
  by (induction as) auto

lemma firsts_id: "distinct (map key as) \<Longrightarrow> firsts key as = as"
proof (induction as)
  case (Cons a as)
  have "filter (\<lambda>b. key b \<noteq> key a) as = as" using Cons.prems by (simp add: filter_id_conv rev_image_eqI) (metis image_eqI)
  then show ?case using Cons by simp
qed simp

lemma publish_all_firsts: "publish_all d es = filter (\<lambda>e. dedup_key e \<notin> ad_seen d) (firsts dedup_key es)"
  by (induction es arbitrary: d) (auto simp: ShouldPublish_def Let_def intro!: filter_cong)

lemma firsts_cong:
  assumes "\<And>a b. a \<in> set as \<Longrightarrow> b \<in> set as \<Longrightarrow> key a = key b \<longleftrightarrow> key' a = key' b"
  shows "firsts key as = firsts key' as"
  using assms
proof (induction as)
  case (Cons a as)
  then have "firsts key as = firsts key' as" by auto
  moreover have "filter (\<lambda>b. key b \<noteq> key a) (firsts key' as) = filter (\<lambda>b. key' b \<noteq> key' a) (firsts key' as)"
    using Cons.prems set_firsts [of key' as] by (intro filter_cong) auto
  ultimately show ?case by simp
qed simp

lemma attempt_alerts_deduped:
  assumes "\<forall>e \<in> set es. ev_execution_id e = Some i \<and> ev_attempt_id e = Some a"
  shows "publish_all NewAttemptDeduper es = firsts alert_key es"
proof -
  have "publish_all NewAttemptDeduper es = firsts dedup_key es"
    by (simp add: publish_all_firsts NewAttemptDeduper_def)
  also have "\<dots> = firsts alert_key es"
    using assms by (intro firsts_cong) (auto simp: dedup_key_def alert_key_def)
  finally show ?thesis .
qed

lemma distinct_alert_keys:
  assumes "distinct (map cr_check_id rows)" "[] \<notin> set (map cr_check_id rows)" "\<forall>e \<in> set es. ev_check_id e = None" "length es \<le> 1"
  shows "distinct (map alert_key (map (row_alert ent) (filter P rows) @ es))"
proof -
  have "inj_on cr_check_id (set rows)" "distinct rows" using assms(1) by (auto simp: distinct_map)
  then have "distinct (map (alert_key \<circ> row_alert ent) (filter P rows))"
    by (auto simp: distinct_map inj_on_def alert_key_def row_alert_def check_event_def or_empty_def)
  moreover have "alert_key (row_alert ent row) \<noteq> alert_key e" if "row \<in> set rows" "e \<in> set es" for row e
    using assms(2,3) that by (force simp: alert_key_def row_alert_def check_event_def or_empty_def)
  moreover have "distinct (map alert_key es)" using assms(4) by (cases es) auto
  ultimately show ?thesis by fastforce
qed

text \<open>
  C4. The exact alerts of a full attempt: in check order, one check-level alert per row that is not \<^verbatim>\<open>pass\<close>, then
  one execution-level alert unless the attempt succeeded, of which the deduper lets through the first with each
  pair of check id and result. It drops none when the check ids of the trigger are distinct and not empty; two
  checks that share an id and fail alike raise one alert.
\<close>

theorem Run_alerts_exact:
  assumes "validateTrigger tr = None" "trigger_id r tr = Inr i"
    and "\<forall>t. rn_precheck r t (tr_entity tr) = (True, None)"
    and "put_atomic x" "Run x r tr w = (Inr row, w')"
  shows "\<exists>rows alerts. check_results w' = check_results w @ map toCheckResultRecord rows
    \<and> map cr_check_id rows = map cs_check_id (tr_checks tr)
    \<and> alerts = map (row_alert (tr_entity tr)) (filter (\<lambda>row. cr_result row \<noteq> ResultPass) rows)
        @ (if er_status row = StatusSuccess then []
           else [execution_event i (attempt_of r tr w) (tr_entity tr) (er_status row) (er_recorded_at row) (er_error_summary row)])
    \<and> published w' = published w @ firsts alert_key alerts
    \<and> (distinct (map cs_check_id (tr_checks tr)) \<and> [] \<notin> set (map cs_check_id (tr_checks tr)) \<longrightarrow> published w' = published w @ alerts)"
proof -
  let ?a = "attempt_of r tr w" and ?tr = "effective r tr"
  have "run_present x r i ?a (UTC (clock x (tick w + mint_ticks tr))) ?tr NewAttemptDeduper (started tr w) = (Inr row, w')"
    using assms(5) Run_eq [OF assms(1,2)] assms(3) by (simp add: Let_def)
  then show ?thesis
  proof (cases rule: run_present_cases)
    case (ran l w1)
    let ?rows = "map fst l"
    have ok: "list_all (\<lambda>en. fst (snd en) = 1) l"
      using ran(3) ran(2) [THEN list_all2_imp_all_right] unfolding list_all_iff
      by (metis logged_entry_atomic [OF assms(4)])
    from ran(9) show ?thesis
    proof (cases rule: finish_cases)
      case written
      have rows: "concat (map entry_rows l) = map toCheckResultRecord ?rows"
        using ok by (induction l) auto
      have ids: "map cr_check_id ?rows = map cs_check_id (tr_checks tr)"
        using ran(2) unfolding effective_simps
        by (induction rule: list_all2_induct) (auto simp: logged_def check_row_def)
      have keys: "\<forall>row \<in> set ?rows. cr_execution_id row = i \<and> cr_attempt_id row = ?a"
        using ran(2) by (induction rule: list_all2_induct) (auto simp: logged_def check_row_def)
      let ?s = "fst (verdict (map (cr_result \<circ> fst) l))" and ?m = "snd (verdict (map (cr_result \<circ> fst) l))"
      define ex where "ex = (if er_status row = StatusSuccess then []
        else [execution_event i ?a (tr_entity tr) (er_status row) (er_recorded_at row) (er_error_summary row)])"
      define alerts where "alerts = map (row_alert (tr_entity tr)) (filter (\<lambda>row. cr_result row \<noteq> ResultPass) ?rows) @ ex"
      have "?s \<noteq> StatusRunning" using verdict_status [of "map (cr_result \<circ> fst) l"] by auto
      then have "published w' = published w @ publish_all NewAttemptDeduper alerts"
        using written ran(6) entry_alerts_rows [OF ran(2,3)]
        by (simp add: publish_all_append alerts_def ex_def execution_alerts_def terminal_row_def)
      also have "publish_all NewAttemptDeduper alerts = firsts alert_key alerts"
        using keys by (intro attempt_alerts_deduped [of _ i ?a])
          (auto simp: alerts_def ex_def row_alert_def check_event_def execution_event_def)
      finally have pub: "published w' = published w @ firsts alert_key alerts" .
      have "distinct (map alert_key alerts)" if "distinct (map cs_check_id (tr_checks tr))" "[] \<notin> set (map cs_check_id (tr_checks tr))"
        unfolding alerts_def by (rule distinct_alert_keys) (use that ids in \<open>auto simp: ex_def execution_event_def\<close>)
      then show ?thesis using written ran(5) rows ids pub firsts_id [of alert_key alerts]
        by (intro exI [of _ ?rows] exI [of _ alerts]) (auto simp: alerts_def ex_def)
    qed simp
  qed auto
qed

lemma world_ops_publish_err [simp]:
  "WriteExecutionRow (x\<lparr>publish_err := f\<rparr>) = WriteExecutionRow x"
  "WriteCheckResultRow (x\<lparr>publish_err := f\<rparr>) = WriteCheckResultRow x"
  "now (x\<lparr>publish_err := f\<rparr>) = now x"
  by (auto simp: fun_eq_iff WriteExecutionRow_def WriteCheckResultRow_def now_def)

lemma emit_publish_err [simp]:
  "emitCheckEvent (x\<lparr>publish_err := f\<rparr>) = emitCheckEvent x"
  "emitExecutionEvent (x\<lparr>publish_err := f\<rparr>) = emitExecutionEvent x"
  by (auto simp: fun_eq_iff emitCheckEvent_eq emitExecutionEvent_eq)

lemma writers_publish_err [simp]:
  "writeTerminalRow (x\<lparr>publish_err := f\<rparr>) = writeTerminalRow x"
  "writePreCheckErrorRow (x\<lparr>publish_err := f\<rparr>) = writePreCheckErrorRow x"
  unfolding fun_eq_iff writeTerminalRow_def writePreCheckErrorRow_def world_ops_publish_err emit_publish_err
  by simp_all

lemma run_checks_publish_err [simp]:
  "run_checks (x\<lparr>publish_err := f\<rparr>) r i a tr specs d w = run_checks x r i a tr specs d w"
proof -
  have "run_check (x\<lparr>publish_err := f\<rparr>) r i a tr = run_check x r i a tr"
    unfolding fun_eq_iff run_check_def world_ops_publish_err emit_publish_err by simp
  then show ?thesis
    by (induction specs arbitrary: d w) (auto split: option.splits sum.splits prod.splits)
qed

text \<open>
  The alerting substrate cannot affect an execution: for any answers of the publisher, including
  failures, \<^verbatim>\<open>Run\<close> returns the same row and leaves the same tables, samples and publish calls.
\<close>

theorem Run_publisher_independent: "Run (x\<lparr>publish_err := f\<rparr>) r tr w = Run x r tr w"
proof -
  have rp: "run_present (x\<lparr>publish_err := f\<rparr>) = run_present x"
    unfolding fun_eq_iff run_present_def world_ops_publish_err writers_publish_err run_checks_publish_err by simp
  show ?thesis unfolding Run_def world_ops_publish_err writers_publish_err rp by simp
qed

lemma first_mode_nonempty [simp]: "first_mode cs \<noteq> []"
  by (induction cs) (auto simp: mode_defs)

lemma terminal_row_round_trip:
  "fromExecutionRecord (stored_record q (toExecutionRecord (terminal_row r i a st tr s m t))) = stored_row q (terminal_row r i a st tr s m t)"
  by (simp add: stored_round_trip default_mode_def terminal_row_def triggerMode_def)

text \<open>Every row of the id other than the terminal one was written before the terminal row's time.\<close>

lemma written_rows_earlier:
  assumes "es = us @ replicate k z" "us = ws @ replicate n (toExecutionRecord (buildRunningRow r i a st tr))"
    and "\<forall>y \<in> set ws. xr_execution_id y = i \<longrightarrow> q (xr_recorded_at y) < t'" "q st < t'"
    and "y \<in> set es" "xr_execution_id y = i" "y \<noteq> z"
  shows "q (xr_recorded_at y) < t'"
proof -
  from assms(1,2,5,7) consider "y \<in> set ws" | "y = toExecutionRecord (buildRunningRow r i a st tr)" by auto
  then show ?thesis using assms(3,4,6) by cases (auto simp: buildRunningRow_def UTC_def)
qed

text \<open>With a clock that moves on in the table, a returned row is later than the start of its attempt.\<close>

lemma Run_times:
  assumes "Run x r tr w = (Inr row, w')"
  shows "\<exists>s t. er_started_at row = Some (clock x s) \<and> er_recorded_at row = clock x t \<and> tick w \<le> s \<and> s < t"
proof -
  obtain i where v: "validateTrigger tr = None" "trigger_id r tr = Inr i"
    using assms by (auto intro: Run_valid [of x r tr w row])
  obtain fmt d s m u where "finish fmt x r d i (attempt_of r tr w) (UTC (clock x (tick w + mint_ticks tr))) (effective r tr) s m u = (Inr row, w')"
    and u: "extends (started tr w) u"
    by (rule Run_finishes [OF assms v])
  then have "er_started_at row = Some (clock x (tick w + mint_ticks tr))" "er_recorded_at row = clock x (tick u)"
    by (auto elim!: finish_cases simp: terminal_row_def)
  then show ?thesis using u by (intro exI conjI) (auto simp: extends_def)
qed

text \<open>
  C3. Read your writes: when \<^verbatim>\<open>Run\<close> has returned a row and, at the precision of the table's columns, the attempt
  started and every earlier row of the execution was written before it, \<^verbatim>\<open>QueryCurrentExecution\<close> on its id
  returns that row with each of its times as the column keeps it, and every other field unchanged, whatever
  order the query visits the table in and however many copies a retried insert left.
\<close>

theorem Run_read_back:
  assumes "Run x r tr w = (Inr row, w')" "put_durable x" "scan_permutes x"
    and "\<forall>rec \<in> set (executions w). xr_execution_id rec = er_execution_id row \<longrightarrow>
           timestamp x (xr_recorded_at rec) < timestamp x (er_recorded_at row)"
    and "\<forall>t. er_started_at row = Some t \<longrightarrow> timestamp x t < timestamp x (er_recorded_at row)"
    and "read_err x (tick w') = None" "next_fail x (tick w') = None"
  shows "fst (QueryCurrentExecution x (er_execution_id row) w') = Inr (stored_row (timestamp x) row)"
proof -
  let ?q = "timestamp x"
  obtain i where v: "validateTrigger tr = None" "trigger_id r tr = Inr i"
    using assms(1) by (auto intro: Run_valid [of x r tr w row])
  let ?st = "UTC (clock x (tick w + mint_ticks tr))" and ?a = "attempt_of r tr w" and ?tr = "effective r tr"
  obtain fmt d s m u where fin: "finish fmt x r d i ?a ?st ?tr s m u = (Inr row, w')"
    and "\<exists>n. executions u = executions w @ replicate n (toExecutionRecord (buildRunningRow r i ?a ?st ?tr))
       \<and> (0 < n \<longrightarrow> tick (started tr w) < tick u)"
    by (rule Run_finishes [OF assms(1) v])
  then obtain n where n: "executions u = executions w @ replicate n (toExecutionRecord (buildRunningRow r i ?a ?st ?tr))"
    by (elim exE conjE)
  from fin show ?thesis
  proof (cases rule: finish_cases)
    case written
    let ?row = "terminal_row r i ?a ?st ?tr s m (UTC (clock x (tick u)))"
    have row: "row = ?row" "er_execution_id row = i" "er_started_at row = Some ?st"
      using written by (simp_all add: terminal_row_def)
    have "toExecutionRecord ?row \<in> set (executions w')" using written assms(2) by (simp add: put_durable_def)
    then have "stored_record ?q (toExecutionRecord ?row) \<in> set (visible x w')" by (simp add: visible_def)
    moreover have "xr_recorded_at y < ?q (er_recorded_at row)"
      if y: "y \<in> set (visible x w')" "xr_execution_id y = i" "y \<noteq> stored_record ?q (toExecutionRecord ?row)" for y
    proof -
      obtain z where z: "y = stored_record ?q z" "z \<in> set (executions w')" using y(1) by (auto simp: visible_def)
      have "?q (xr_recorded_at z) < ?q (er_recorded_at row)"
        by (rule written_rows_earlier [OF written(3) n _ _ z(2)]) (use assms(4,5) row y(2,3) z(1) in auto)
      then show ?thesis using z(1) by simp
    qed
    ultimately have "fst (QueryCurrentExecution x i w') = Inr (fromExecutionRecord (stored_record ?q (toExecutionRecord ?row)))"
      using assms(3,6,7) row(1,2) by (intro QueryCurrentExecution_ok) (auto simp: terminal_row_def)
    then show ?thesis using row by (simp add: terminal_row_round_trip)
  qed simp
qed

section \<open>Witnesses\<close>

text \<open>A runner with one passing and one failing check, and a trigger for one second.\<close>

definition demo_check :: "string \<Rightarrow> CheckSpec" where
  "demo_check c = \<lparr>cs_check_id = c, cs_kind = ''set.row_count_positive'', cs_mode = ModeSet,
                   cs_source = None, cs_params = None\<rparr>"

definition demo_runner :: "bool \<Rightarrow> Runner" where
  "demo_runner present =
    \<lparr>rn_precheck = (\<lambda>t e. (present, None)),
     rn_evaluator = (\<lambda>t c tr. (\<lparr>el_result = (if cs_check_id c = ''a'' then ResultPass else ResultFail),
                                el_evidence = None, el_samples = None\<rparr>, None)),
     rn_engine_version = ''1.0.0'', rn_ruleset_version = ''r1'', rn_attempt_id = (\<lambda>t. ''attempt'')\<rparr>"

definition demo_trigger :: TriggerRequest where
  "demo_trigger =
    \<lparr>tr_entity = ''orders'', tr_window_start = 0, tr_window_end = second, tr_source = TriggerManual,
     tr_supersedes = None, tr_checks = [demo_check ''a'', demo_check ''b''], tr_ruleset_version = ''r1'',
     tr_attempt_id = None, tr_records = [], tr_late_dropped = 0\<rparr>"

definition demo_id :: string where
  "demo_id = sha256_hex (identity_string ''r1'' ''orders'' 0 second TriggerManual)"

lemma demo_valid [simp]: "validateTrigger demo_trigger = None"
  by (simp add: validateTrigger_def demo_trigger_def source_defs second_def)

lemma demo_trigger_id [simp]: "trigger_id (demo_runner p) demo_trigger = Inr demo_id"
  by (simp add: trigger_id_def effective_def demo_trigger_def Compute_Inr_iff demo_id_def source_defs Let_def)

lemma demo_precheck [simp]: "rn_precheck (demo_runner p) t e = (p, None)"
  by (simp add: demo_runner_def)

lemma demo_trigger_simps [simp]:
  "map cs_check_id (tr_checks demo_trigger) = [''a'', ''b'']"
  "length (tr_checks demo_trigger) = 2" "tr_entity demo_trigger = ''orders''"
  by (simp_all add: demo_trigger_def demo_check_def)

theorem Compute_identity_witness:
  "sha256_hex (identity_string ''r1'' ''orders'' 0 second TriggerManual)
   = sha256_hex (identity_string ''r1'' ''orders'' 5 second TriggerManual)"
proof -
  have same: "identity_string ''r1'' ''orders'' 5 second TriggerManual = identity_string ''r1'' ''orders'' 0 second TriggerManual"
    using identity_string_truncates [of _ _ 5 second] identity_string_truncates [of _ _ 0 second]
    by (simp add: Truncate_def second_def)
  have "year_of 0 = 1" "year_of 5 = 1" "year_of second = 1" by code_simp+
  then show ?thesis
    using Compute_identity [of "''r1''" "''orders''" 0 second TriggerManual _ "''r1''" "''orders''" 5 second TriggerManual] same
    by (simp add: Compute_Inr_iff source_defs)
qed

theorem MapStatus_spec_witness:
  "MapStatus [ResultPass, ResultFail] = MapStatus [ResultFail, ResultPass] \<and>
   MapStatus [ResultPass, ResultFail] = Inr StatusFailed"
  using MapStatus_spec [of "[ResultPass, ResultFail]" "[ResultFail, ResultPass]"]
  by (auto simp: add_mset_commute doubleton_eq_iff)

theorem Run_trace_witness:
  "length (check_results (snd (Run quiet (demo_runner True) demo_trigger empty_world))) = 2 \<and>
   length (executions (snd (Run quiet (demo_runner True) demo_trigger empty_world))) = 2"
  using Run_trace [OF demo_valid demo_trigger_id, of True quiet empty_world]
  by (cases "Run quiet (demo_runner True) demo_trigger empty_world")
    (auto simp: Let_def case_prod_unfold dest: list_all2_lengthD)

lemma demo_Run_returns:
  "\<exists>row w'. Run quiet (demo_runner True) demo_trigger empty_world = (Inr row, w')
     \<and> er_execution_id row = demo_id"
proof -
  obtain rs d w where "run_checks quiet (demo_runner True) demo_id (attempt_of (demo_runner True) demo_trigger empty_world)
      (effective (demo_runner True) demo_trigger) (tr_checks demo_trigger) NewAttemptDeduper
      (snd (WriteExecutionRow quiet (buildRunningRow (demo_runner True) demo_id
         (attempt_of (demo_runner True) demo_trigger empty_world)
         (UTC (clock quiet (tick empty_world + mint_ticks demo_trigger))) (effective (demo_runner True) demo_trigger))
         (started demo_trigger empty_world))) = (Inr rs, d, w)"
    using run_checks_total [of quiet] by (metis quiet_simps(3,4))
  then show ?thesis
    by (simp add: Run_eq [OF demo_valid demo_trigger_id] Let_def run_present_def WriteExecutionRow_eq
        writeTerminalRow_eq finish_def terminal_row_def split: sum.split)
qed

theorem Run_returns_durable_witness:
  "\<exists>row \<in> set (executions (snd (Run quiet (demo_runner True) demo_trigger empty_world))).
     xr_status row \<in> {StatusSuccess, StatusFailed, StatusError}"
proof -
  obtain row w' where run: "Run quiet (demo_runner True) demo_trigger empty_world = (Inr row, w')"
    using demo_Run_returns by blast
  show ?thesis using Run_returns_durable [OF run quiet_laws(2)] run
    by (auto intro!: bexI [of _ "toExecutionRecord row"])
qed

theorem Run_precheck_failure_witness:
  "length (executions (snd (Run quiet (demo_runner False) demo_trigger empty_world))) = 1 \<and>
   check_results (snd (Run quiet (demo_runner False) demo_trigger empty_world)) = []"
  using Run_precheck_failure [OF demo_valid demo_trigger_id, of False quiet empty_world]
  by (cases "Run quiet (demo_runner False) demo_trigger empty_world") auto

theorem Run_alerts_backed_witness:
  "list_all (backed (snd (Run quiet (demo_runner True) demo_trigger empty_world)))
     (published (snd (Run quiet (demo_runner True) demo_trigger empty_world)))"
  using Run_alerts_backed [of quiet "demo_runner True" demo_trigger empty_world]
  by (cases "Run quiet (demo_runner True) demo_trigger empty_world") (simp add: list_all_iff)

theorem Run_alerts_exact_witness:
  "\<exists>rows alerts. map cr_check_id rows = [''a'', ''b''] \<and>
     check_results (snd (Run quiet (demo_runner True) demo_trigger empty_world)) = map toCheckResultRecord rows \<and>
     published (snd (Run quiet (demo_runner True) demo_trigger empty_world)) = firsts alert_key alerts \<and> firsts alert_key alerts = alerts"
proof -
  obtain row w' where run: "Run quiet (demo_runner True) demo_trigger empty_world = (Inr row, w')"
    using demo_Run_returns by blast
  have pre: "\<forall>t. rn_precheck (demo_runner True) t (tr_entity demo_trigger) = (True, None)"
    "map cs_check_id (tr_checks demo_trigger) = [''a'', ''b'']"
    by simp_all
  obtain rows alerts where "check_results w' = check_results empty_world @ map toCheckResultRecord rows"
    "map cr_check_id rows = [''a'', ''b'']" "published w' = published empty_world @ firsts alert_key alerts"
    "distinct [''a'', ''b''] \<and> [] \<notin> set [''a'', ''b''] \<longrightarrow> published w' = published empty_world @ alerts"
    using Run_alerts_exact [OF demo_valid demo_trigger_id pre(1) quiet_laws(1) run] unfolding pre(2) by (elim exE conjE)
  then show ?thesis using run by (intro exI [of _ rows] exI [of _ alerts]) simp
qed

theorem Run_read_back_witness:
  "\<exists>row. er_execution_id row = demo_id \<and>
     fst (QueryCurrentExecution quiet demo_id (snd (Run quiet (demo_runner True) demo_trigger empty_world))) = Inr (stored_row (timestamp quiet) row)"
proof -
  obtain row w' where run: "Run quiet (demo_runner True) demo_trigger empty_world = (Inr row, w')" "er_execution_id row = demo_id"
    using demo_Run_returns by blast
  have "\<forall>t. er_started_at row = Some t \<longrightarrow> timestamp quiet t < timestamp quiet (er_recorded_at row)"
    using Run_times [OF run(1)] by auto
  then show ?thesis using Run_read_back [OF run(1)] run by auto
qed

end
