(* ===== verification/Go_Duration.thy ===== *)
theory Go_Duration
  imports Go_Time Go_Value
begin

text \<open>
  \<^verbatim>\<open>time.ParseDuration\<close>: a signed sequence of decimal numbers with units, in nanoseconds, with the
  64-bit overflow checks of the standard library. A fraction is scaled in binary64, as Go does it.
\<close>

text \<open>Multiplication and division of binary64, for the non-negative operands that occur here.\<close>

fun f_mul :: "float64 \<Rightarrow> float64 \<Rightarrow> float64" where
  "f_mul (Fin a) (Fin b) = fl (a * b)"
| "f_mul NaN _ = NaN"
| "f_mul _ NaN = NaN"
| "f_mul (Fin a) b = (if a = 0 then NaN else if (0 < a) = (b = PInf) then PInf else NInf)"
| "f_mul b (Fin a) = (if a = 0 then NaN else if (0 < a) = (b = PInf) then PInf else NInf)"
| "f_mul a b = (if a = b then PInf else NInf)"

fun f_div :: "float64 \<Rightarrow> float64 \<Rightarrow> float64" where
  "f_div (Fin a) (Fin b) = (if b = 0 then (if a = 0 then NaN else if 0 < a then PInf else NInf) else fl (a / b))"
| "f_div NaN _ = NaN"
| "f_div _ NaN = NaN"
| "f_div (Fin a) _ = Fin 0"
| "f_div PInf (Fin b) = (if b < 0 then NInf else PInf)"
| "f_div NInf (Fin b) = (if b < 0 then PInf else NInf)"
| "f_div _ _ = NaN"

text \<open>
  Conversion of a float to a 64-bit integer: truncation towards zero. Outside the range the language
  leaves the result to the implementation; \<open>int_indefinite\<close> is what amd64 yields.
\<close>

definition int_indefinite :: int where "int_indefinite = - (2 ^ 63)"

fun int_of_float :: "float64 \<Rightarrow> int" where
  "int_of_float (Fin r) =
    (let t = (if r < 0 then - \<lfloor>- r\<rfloor> else \<lfloor>r\<rfloor>) in if - (2 ^ 63) \<le> t \<and> t < 2 ^ 63 then t else int_indefinite)"
| "int_of_float _ = int_indefinite"

section \<open>Parsing\<close>

text \<open>The loops of \<^verbatim>\<open>leadingInt\<close> and \<^verbatim>\<open>leadingFraction\<close>; \<open>None\<close> is overflow.\<close>

fun leadingInt :: "string \<Rightarrow> nat \<Rightarrow> (nat \<times> string) option" where
  "leadingInt [] x = Some (x, [])"
| "leadingInt (c # cs) x =
    (if \<not> is_digit c then Some (x, c # cs)
     else if 2 ^ 63 div 10 < x then None
     else if 2 ^ 63 < x * 10 + digit_val c then None
     else leadingInt cs (x * 10 + digit_val c))"

fun leadingFraction :: "string \<Rightarrow> nat \<Rightarrow> nat \<Rightarrow> bool \<Rightarrow> nat \<times> nat \<times> string" where
  "leadingFraction [] x digits overflow = (x, digits, [])"
| "leadingFraction (c # cs) x digits overflow =
    (if \<not> is_digit c then (x, digits, c # cs)
     else if overflow then leadingFraction cs x digits True
     else if (2 ^ 63 - 1) div 10 < x then leadingFraction cs x digits True
     else if 2 ^ 63 < x * 10 + digit_val c then leadingFraction cs x digits True
     else leadingFraction cs (x * 10 + digit_val c) (digits + 1) False)"

definition micro_sign :: string where "micro_sign = [char_of (194::nat), char_of (181::nat)]"
definition greek_mu :: string where "greek_mu = [char_of (206::nat), char_of (188::nat)]"

definition unitMap :: "string \<rightharpoonup> nat" where
  "unitMap = map_of [(''ns'', 1), (''us'', 1000), (micro_sign @ ''s'', 1000), (greek_mu @ ''s'', 1000),
     (''ms'', 1000000), (''s'', 1000000000), (''m'', 60000000000), (''h'', 3600000000000)]"

definition unit_char :: "char \<Rightarrow> bool" where
  "unit_char c \<longleftrightarrow> c \<noteq> CHR ''.'' \<and> \<not> is_digit c"

definition invalid_duration :: "string \<Rightarrow> goerr" where
  "invalid_duration orig = errors_New (''time: invalid duration '' @ quote orig)"

text \<open>One number with its unit: the nanoseconds it adds, and the rest of the text.\<close>

definition duration_item :: "string \<Rightarrow> string \<Rightarrow> (nat \<times> string) result" where
  "duration_item orig s =
    (if s = [] \<or> \<not> (hd s = CHR ''.'' \<or> is_digit (hd s)) then Inl (invalid_duration orig)
     else case leadingInt s 0 of
       None \<Rightarrow> Inl (invalid_duration orig)
     | Some (v, s1) \<Rightarrow>
         (let pre = (length s1 \<noteq> length s);
              (f, digits, s2, post) =
                (if s1 \<noteq> [] \<and> hd s1 = CHR ''.''
                 then (case leadingFraction (tl s1) 0 0 False of (f, digits, s2) \<Rightarrow> (f, digits, s2, length s2 \<noteq> length (tl s1)))
                 else (0, 0, s1, False))
          in if \<not> pre \<and> \<not> post then Inl (invalid_duration orig)
             else (let u = takeWhile unit_char s2; s3 = dropWhile unit_char s2
                   in if u = [] then Inl (errors_New (''time: missing unit in duration '' @ quote orig))
                      else case unitMap u of
                        None \<Rightarrow> Inl (errors_New (''time: unknown unit '' @ quote u @ '' in duration '' @ quote orig))
                      | Some unit \<Rightarrow>
                          (if 2 ^ 63 div unit < v then Inl (invalid_duration orig)
                           else (let v = v * unit +
                                   (if 0 < f
                                    then nat (int_of_float (f_mul (float64_of_int (int f))
                                               (f_div (float64_of_int (int unit)) (fl (10 ^ digits)))))
                                    else 0)
                                 in if 2 ^ 63 < v then Inl (invalid_duration orig) else Inr (v, s3))))))"

text \<open>An accepted item consumes at least its unit.\<close>

lemma leadingInt_length: "leadingInt s x = Some (v, r) \<Longrightarrow> length r \<le> length s"
  by (induction s x rule: leadingInt.induct) (auto split: if_splits)

lemma leadingFraction_length: "leadingFraction s x n o' = (f, d, r) \<Longrightarrow> length r \<le> length s"
  by (induction s x n o' rule: leadingFraction.induct) (auto split: if_splits)

lemma duration_item_shorter:
  assumes "duration_item orig s = Inr (v, r)"
  shows "length r < length s"
proof -
  obtain v1 s1 where i: "leadingInt s 0 = Some (v1, s1)"
    using assms by (auto simp: duration_item_def split: if_splits option.splits)
  obtain s2 where s2: "takeWhile unit_char s2 \<noteq> []" "r = dropWhile unit_char s2" "length s2 \<le> length s1"
    using assms i leadingFraction_length [of "tl s1" 0 0 False]
    by (auto simp: duration_item_def Let_def split: if_splits option.splits prod.splits)
  have "length s2 = length (takeWhile unit_char s2) + length r" using s2(2) by (metis length_append takeWhile_dropWhile_id)
  then show ?thesis using s2(1,3) leadingInt_length [OF i] by (cases "takeWhile unit_char s2") auto
qed

function parse_items :: "string \<Rightarrow> string \<Rightarrow> nat \<Rightarrow> nat result" where
  "parse_items orig s d =
    (if s = [] then Inr d
     else case duration_item orig s of
       Inl e \<Rightarrow> Inl e
     | Inr (v, r) \<Rightarrow> (if 2 ^ 63 < d + v then Inl (invalid_duration orig) else parse_items orig r (d + v)))"
  by pat_completeness auto
termination by (relation "measure (\<lambda>(orig, s, d). length s)") (auto dest: duration_item_shorter)

declare parse_items.simps [simp del]

definition ParseDuration :: "string \<Rightarrow> duration result" where
  "ParseDuration s =
    (case split_sign s of (neg, t) \<Rightarrow>
       if t = ''0'' then Inr 0
       else if t = [] then Inl (invalid_duration s)
       else case parse_items s t 0 of
         Inl e \<Rightarrow> Inl e
       | Inr d \<Rightarrow> (if neg then Inr (- int d) else if 2 ^ 63 - 1 < d then Inl (invalid_duration s) else Inr (int d)))"

section \<open>Printing\<close>

text \<open>\<^verbatim>\<open>Duration.String\<close>: fraction digits without trailing zeros, then the unit.\<close>

definition frac_text :: "nat \<Rightarrow> nat \<Rightarrow> string" where
  "frac_text v prec =
    (let ds = rev (dropWhile (\<lambda>c. c = CHR ''0'') (rev (append_int (int (v mod 10 ^ prec)) prec)))
     in if ds = [] then [] else CHR ''.'' # ds)"

definition Duration_String :: "duration \<Rightarrow> string" where
  "Duration_String d =
    (let u = nat \<bar>d\<bar>; sgn = (if d < 0 then ''-'' else []);
         scaled = (\<lambda>prec unit. sgn @ show_nat (u div 10 ^ prec) @ frac_text u prec @ unit)
     in if u = 0 then ''0s''
        else if u < 1000 then scaled 0 ''ns''
        else if u < 1000000 then scaled 3 (micro_sign @ ''s'')
        else if u < 1000000000 then scaled 6 ''ms''
        else (let secs = u div 10 ^ 9; m = secs div 60; h = m div 60
              in sgn @ (if 0 < h then show_nat h @ ''h'' else []) @ (if 0 < m then show_nat (m mod 60) @ ''m'' else [])
                 @ show_nat (secs mod 60) @ frac_text u 9 @ ''s''))"

section \<open>The duration grammar of the rule language\<close>

text \<open>\<^verbatim>\<open>^[0-9]+(ms|s|m|h)$\<close>: a number and one of four units.\<close>

definition durationGrammar :: "string \<Rightarrow> bool" where
  "durationGrammar s \<longleftrightarrow>
    (let ds = takeWhile is_digit s; u = dropWhile is_digit s in ds \<noteq> [] \<and> u \<in> {''ms'', ''s'', ''m'', ''h''})"

definition grammar_value :: "string \<Rightarrow> nat" where
  "grammar_value s = digits_val (takeWhile is_digit s) * the (unitMap (dropWhile is_digit s))"

lemma digits_val_append: "digits_val (xs @ ys) = digits_val xs * 10 ^ length ys + digits_val ys"
proof (induction ys rule: rev_induct)
  case (snoc y ys)
  have "digits_val (xs @ ys @ [y]) = 10 * digits_val (xs @ ys) + digit_val y"
    using digits_val_snoc [of "xs @ ys" y] by simp
  then show ?case using snoc digits_val_snoc [of ys y] by (simp add: algebra_simps)
qed (simp add: digits_val_def)

text \<open>Reading a run of digits: the number, or overflow exactly when it exceeds \<open>2^63\<close>.\<close>

lemma leadingInt_digits:
  assumes "list_all is_digit ds" "r = [] \<or> \<not> is_digit (hd r)" "x \<le> 2 ^ 63"
  shows "leadingInt (ds @ r) x =
    (if x * 10 ^ length ds + digits_val ds \<le> 2 ^ 63 then Some (x * 10 ^ length ds + digits_val ds, r) else None)"
  using assms(1,3)
proof (induction ds arbitrary: x)
  case Nil
  then show ?case using assms(2) by (cases r) (auto simp: digits_val_def)
next
  case (Cons c ds)
  let ?y = "x * 10 + digit_val c"
  have d: "digits_val (c # ds) = digit_val c * 10 ^ length ds + digits_val ds"
    using digits_val_append [of "[c]" ds] by (simp add: digits_val_def)
  have tot: "x * 10 ^ length (c # ds) + digits_val (c # ds) = ?y * 10 ^ length ds + digits_val ds"
    by (simp add: d algebra_simps)
  have ge: "?y \<le> ?y * 10 ^ length ds + digits_val ds" by (simp add: trans_le_add1)
  show ?case
  proof (cases "?y \<le> 2 ^ 63")
    case True
    then have "\<not> 2 ^ 63 div 10 < x" by simp
    then show ?thesis using Cons True tot by simp
  next
    case False
    then show ?thesis using Cons.prems ge tot by auto
  qed
qed

text \<open>
  A text of the grammar is its number of units, unless it is out of the range of an \<^verbatim>\<open>int64\<close>: then it
  is refused. The grammar alone does not bound the value.
\<close>

lemma ParseDuration_grammar:
  assumes "durationGrammar s"
  shows "ParseDuration s = (if grammar_value s < 2 ^ 63 then Inr (int (grammar_value s)) else Inl (invalid_duration s))"
proof -
  define ds where "ds = takeWhile is_digit s"
  define u where "u = dropWhile is_digit s"
  have s: "s = ds @ u" by (simp add: ds_def u_def)
  have ds: "ds \<noteq> []" "list_all is_digit ds" using assms by (auto simp: durationGrammar_def Let_def ds_def list_all_iff dest: set_takeWhileD)
  have u: "u \<in> {''ms'', ''s'', ''m'', ''h''}" using assms by (simp add: durationGrammar_def Let_def u_def)
  then have un: "u \<noteq> []" "takeWhile unit_char u = u" "dropWhile unit_char u = []" "hd u \<noteq> CHR ''.''" "\<not> is_digit (hd u)"
    by (auto simp: unit_char_def is_digit_def)
  obtain k where k: "unitMap u = Some k" "1 < k" "k \<le> 3600000000000"
    using u by (auto simp: unitMap_def micro_sign_def greek_mu_def)
  have hd: "is_digit (hd s)" "s \<noteq> []" using ds by (auto simp: s list_all_iff hd_append)
  then have sign: "split_sign s = (False, s)"
    by (cases s) (auto simp: split_sign_def is_digit_def)
  have "length s \<ge> 2" using ds(1) un(1) by (cases ds; cases u) (auto simp: s)
  then have n0: "s \<noteq> ''0''" by auto
  have li: "leadingInt s 0 = (if digits_val ds \<le> 2 ^ 63 then Some (digits_val ds, u) else None)"
    using leadingInt_digits [OF ds(2), of u 0] un(5) by (simp add: s)
  have gv: "grammar_value s = digits_val ds * k" using k(1) by (simp add: grammar_value_def ds_def u_def)
  have len: "length u \<noteq> length s" using ds(1) by (simp add: s)
  have item: "duration_item s s = (if 2 ^ 63 div k < digits_val ds \<or> 2 ^ 63 < digits_val ds then Inl (invalid_duration s)
      else Inr (digits_val ds * k, []))"
  proof -
    have "2 ^ 63 div k < digits_val ds \<or> digits_val ds * k \<le> 2 ^ 63"
      by (metis div_times_less_eq_dividend le_trans mult_le_mono1 not_less)
    then show ?thesis
      using hd li un k len by (auto simp: duration_item_def Let_def simp del: takeWhile_eq_all_conv dropWhile_eq_Nil_conv)
  qed
  have over: "2 ^ 63 div k < digits_val ds \<longleftrightarrow> 2 ^ 63 < grammar_value s"
    unfolding gv using k(2) by (metis div_less_iff_less_mult less_trans zero_less_one)
  have big: "2 ^ 63 < digits_val ds \<Longrightarrow> 2 ^ 63 < grammar_value s"
    unfolding gv using k(2) by (metis less_le_trans mult_le_mono2 nat_mult_1_right less_imp_le_nat)
  have items: "parse_items s s 0 = (if 2 ^ 63 < grammar_value s then Inl (invalid_duration s) else Inr (grammar_value s))"
    using item over big hd(2) by (auto simp: parse_items.simps gv)
  show ?thesis
    using sign n0 hd(2) items by (auto simp: ParseDuration_def)
qed

end
