(* ===== verification/Dsl_Spec.thy ===== *)
theory Dsl_Spec
  imports Runner Go_Duration
begin

text \<open>
  The rule language (\<^verbatim>\<open>engine/internal/dsl/spec\<close>): the parsed rule, its per-version validation, the
  translation to the runner's check list and the record-mode cost guardrails. The strict YAML decoder
  is the parameter \<open>decode\<close>.
\<close>

section \<open>Data\<close>

definition SchemaVersionV1 :: int where "SchemaVersionV1 = 1"
definition SchemaVersionV2 :: int where "SchemaVersionV2 = 2"
definition SpecModeSet :: string where "SpecModeSet = ''set''"
definition SpecModeRecord :: string where "SpecModeRecord = ''record''"
definition SourceTypeBigQuery :: string where "SourceTypeBigQuery = ''bigquery''"
definition SourceTypeKafka :: string where "SourceTypeKafka = ''kafka''"
definition WindowTypeTumbling :: string where "WindowTypeTumbling = ''tumbling''"

lemmas spec_constants = SchemaVersionV1_def SchemaVersionV2_def SpecModeSet_def SpecModeRecord_def SourceTypeBigQuery_def
  SourceTypeKafka_def WindowTypeTumbling_def

record Window =
  wi_Type :: string
  wi_Duration :: string
  wi_LatenessTolerance :: string

record Source =
  so_Type :: string
  so_ProjectID :: string
  so_DatasetID :: string
  so_TableID :: string
  so_PartitionColumn :: string
  so_Topic :: string
  so_ConsumerGroup :: string
  so_Window :: "Window option"

record Check =
  ck_CheckID :: string
  ck_Kind :: string
  ck_Description :: string
  ck_Params :: "go_map option"

record RuleSpec =
  ru_Version :: int
  ru_Entity :: string
  ru_Mode :: string
  ru_Source :: "Source option"
  ru_Description :: string
  ru_Checks :: "Check list"

section \<open>Lexical rules\<close>

definition maxIdentifierLen :: nat where "maxIdentifierLen = 200"

definition word_char :: "char \<Rightarrow> bool" where
  "word_char c \<longleftrightarrow> is_alnum c \<or> c = CHR ''_''"

definition identifierPattern :: "string \<Rightarrow> bool" where
  "identifierPattern = matches_plus (\<lambda>c. is_alnum c \<or> c = CHR ''_'' \<or> c = CHR ''.'' \<or> c = CHR ''-'')"

definition v2KindPattern :: "string \<Rightarrow> bool" where
  "v2KindPattern s \<longleftrightarrow>
    HasPrefix s ''set.'' \<and> matches_plus word_char (drop 4 s) \<or>
    HasPrefix s ''record.'' \<and> matches_plus word_char (drop 7 s)"

definition v2DurationPattern :: "string \<Rightarrow> bool" where
  "v2DurationPattern = durationGrammar"

definition v2BigQueryProjectPattern :: "string \<Rightarrow> bool" where
  "v2BigQueryProjectPattern = matches_plus (\<lambda>c. is_lower c \<or> is_digit c \<or> c = CHR ''-'')"
definition v2BigQueryDatasetPattern :: "string \<Rightarrow> bool" where
  "v2BigQueryDatasetPattern = matches_plus word_char"
definition v2BigQueryTablePattern :: "string \<Rightarrow> bool" where
  "v2BigQueryTablePattern = matches_plus word_char"
definition v2BigQueryColumnPattern :: "string \<Rightarrow> bool" where
  "v2BigQueryColumnPattern = matches_plus word_char"
definition v2KafkaTopicPattern :: "string \<Rightarrow> bool" where
  "v2KafkaTopicPattern = matches_plus (\<lambda>c. is_alnum c \<or> c = CHR ''.'' \<or> c = CHR ''_'' \<or> c = CHR ''-'')"
definition v2KafkaConsumerGrpPattern :: "string \<Rightarrow> bool" where
  "v2KafkaConsumerGrpPattern = matches_plus (\<lambda>c. is_alnum c \<or> c = CHR ''.'' \<or> c = CHR ''_'' \<or> c = CHR ''-'')"

lemmas pattern_defs = identifierPattern_def v2KindPattern_def v2DurationPattern_def v2BigQueryProjectPattern_def
  v2BigQueryDatasetPattern_def v2BigQueryTablePattern_def v2BigQueryColumnPattern_def v2KafkaTopicPattern_def
  v2KafkaConsumerGrpPattern_def

section \<open>Validation\<close>

definition validateIdentifier :: "string \<Rightarrow> string \<Rightarrow> goerr option" where
  "validateIdentifier field v =
    (if v = [] then Some (Errorf ''rule yaml: %s must be a non-empty string'' [S field])
     else if maxIdentifierLen < length v then Some (Errorf ''rule yaml: %s exceeds %d bytes'' [S field, S (show_nat maxIdentifierLen)])
     else if ContainsRune v (CHR ''|'')
     then Some (Errorf (''rule yaml: %s contains forbidden ASCII pipe character (ADR-0002 '' @ section_sign @ ''2)'') [S field])
     else if \<not> identifierPattern v
     then Some (Errorf ''rule yaml: %s %q does not match %s'' [S field, S v, S ''^[A-Za-z0-9_.-]+$''])
     else None)"

definition expectedSourceTypeForMode :: "string \<Rightarrow> string option" where
  "expectedSourceTypeForMode mode =
    (if mode = SpecModeSet then Some SourceTypeBigQuery
     else if mode = SpecModeRecord then Some SourceTypeKafka
     else None)"

definition validateWindow :: "Window \<Rightarrow> goerr option" where
  "validateWindow w =
    (if wi_Type w \<noteq> WindowTypeTumbling
     then Some (Errorf ''rule yaml: window.type %q is not one of [tumbling] (ADR-0024)'' [S (wi_Type w)])
     else if \<not> v2DurationPattern (wi_Duration w)
     then Some (Errorf ''rule yaml: window.duration %q does not match duration grammar %s'' [S (wi_Duration w), S ''^[0-9]+(ms|s|m|h)$''])
     else if \<not> v2DurationPattern (wi_LatenessTolerance w)
     then Some (Errorf ''rule yaml: window.lateness_tolerance %q does not match duration grammar %s''
                  [S (wi_LatenessTolerance w), S ''^[0-9]+(ms|s|m|h)$''])
     else None)"

definition validateBigQuerySource :: "Source \<Rightarrow> goerr option" where
  "validateBigQuerySource s =
    (if so_ProjectID s = [] \<or> \<not> v2BigQueryProjectPattern (so_ProjectID s)
     then Some (Errorf ''rule yaml: source.project_id %q does not match %s'' [S (so_ProjectID s), S ''^[a-z0-9-]+$''])
     else if so_DatasetID s = [] \<or> \<not> v2BigQueryDatasetPattern (so_DatasetID s)
     then Some (Errorf ''rule yaml: source.dataset_id %q does not match %s'' [S (so_DatasetID s), S ''^[A-Za-z0-9_]+$''])
     else if so_TableID s = [] \<or> \<not> v2BigQueryTablePattern (so_TableID s)
     then Some (Errorf ''rule yaml: source.table_id %q does not match %s'' [S (so_TableID s), S ''^[A-Za-z0-9_]+$''])
     else if so_PartitionColumn s \<noteq> [] \<and> \<not> v2BigQueryColumnPattern (so_PartitionColumn s)
     then Some (Errorf ''rule yaml: source.partition_column %q does not match %s'' [S (so_PartitionColumn s), S ''^[A-Za-z0-9_]+$''])
     else if so_Topic s \<noteq> [] \<or> so_ConsumerGroup s \<noteq> [] \<or> so_Window s \<noteq> None
     then Some (errors_New ''rule yaml: bigquery source must not carry kafka fields (topic/consumer_group/window)'')
     else None)"

definition validateKafkaSource :: "Source \<Rightarrow> goerr option" where
  "validateKafkaSource s =
    (if so_Topic s = [] \<or> \<not> v2KafkaTopicPattern (so_Topic s)
     then Some (Errorf ''rule yaml: source.topic %q does not match %s'' [S (so_Topic s), S ''^[A-Za-z0-9._-]+$''])
     else if so_ConsumerGroup s = [] \<or> \<not> v2KafkaConsumerGrpPattern (so_ConsumerGroup s)
     then Some (Errorf ''rule yaml: source.consumer_group %q does not match %s'' [S (so_ConsumerGroup s), S ''^[A-Za-z0-9._-]+$''])
     else case so_Window s of
       None \<Rightarrow> Some (errors_New ''rule yaml: kafka source requires `window` (ADR-0024)'')
     | Some w \<Rightarrow>
         (case validateWindow w of
            Some e \<Rightarrow> Some e
          | None \<Rightarrow>
              (if so_ProjectID s \<noteq> [] \<or> so_DatasetID s \<noteq> [] \<or> so_TableID s \<noteq> [] \<or> so_PartitionColumn s \<noteq> []
               then Some (errors_New ''rule yaml: kafka source must not carry bigquery fields (project_id/dataset_id/table_id/partition_column)'')
               else None)))"

definition validateSourceV2 :: "string \<Rightarrow> Source \<Rightarrow> goerr option" where
  "validateSourceV2 mode s =
    (case expectedSourceTypeForMode mode of
       None \<Rightarrow> Some (Errorf ''rule yaml: unknown mode %q (cannot align with source.type)'' [S mode])
     | Some expectedType \<Rightarrow>
         (if so_Type s \<noteq> expectedType
          then Some (Errorf ''rule yaml: mode %q requires source.type %q but found %q (ADR-0023 cross-check #7)''
                       [S mode, S expectedType, S (so_Type s)])
          else if so_Type s = SourceTypeBigQuery then validateBigQuerySource s
          else if so_Type s = SourceTypeKafka then validateKafkaSource s
          else Some (Errorf ''rule yaml: source.type %q is not one of [bigquery, kafka] (ADR-0023)'' [S (so_Type s)])))"

definition check_field :: "nat \<Rightarrow> string" where
  "check_field i = ''checks['' @ show_nat i @ ''].check_id''"

definition validateCheckV1 :: "nat \<Rightarrow> Check \<Rightarrow> goerr option" where
  "validateCheckV1 i c =
    (case validateIdentifier (check_field i) (ck_CheckID c) of
       Some e \<Rightarrow> Some e
     | None \<Rightarrow>
         (if ck_Kind c = [] then Some (Errorf ''rule yaml: checks[%d].kind must be a non-empty string'' [S (show_nat i)])
          else if ck_Params c \<noteq> None \<and> ck_Params c \<noteq> Some []
          then Some (Errorf ''rule yaml: checks[%d].params is v2-only (ADR-0022)'' [S (show_nat i)])
          else None))"

definition validateCheckV2 :: "nat \<Rightarrow> Check \<Rightarrow> string \<Rightarrow> goerr option" where
  "validateCheckV2 i c ruleMode =
    (case validateIdentifier (check_field i) (ck_CheckID c) of
       Some e \<Rightarrow> Some e
     | None \<Rightarrow>
         (if \<not> v2KindPattern (ck_Kind c)
          then Some (Errorf ''rule yaml: checks[%d].kind %q does not match %s''
                       [S (show_nat i), S (ck_Kind c), S (''^(set|record)'' @ [char_of (92::nat)] @ ''.[A-Za-z0-9_]+$'')])
          else (let pre = takeWhile (\<lambda>ch. ch \<noteq> CHR ''.'') (ck_Kind c)
                in if pre \<noteq> ruleMode
                   then Some (Errorf ''rule yaml: checks[%d].kind %q has prefix %q which does not match rule mode %q (ADR-0022 cross-check #4)''
                                [S (show_nat i), S (ck_Kind c), S pre, S ruleMode])
                   else None)))"

fun each_check :: "(nat \<Rightarrow> Check \<Rightarrow> goerr option) \<Rightarrow> nat \<Rightarrow> Check list \<Rightarrow> goerr option" where
  "each_check f i [] = None"
| "each_check f i (c # cs) = (case f i c of Some e \<Rightarrow> Some e | None \<Rightarrow> each_check f (i + 1) cs)"

definition validateV1 :: "RuleSpec \<Rightarrow> goerr option" where
  "validateV1 r =
    (if ru_Mode r \<noteq> [] then Some (errors_New ''rule yaml: v1 must not carry `mode` (v2 only; ADR-0021)'')
     else if ru_Source r \<noteq> None then Some (errors_New ''rule yaml: v1 must not carry `source` (v2 only; ADR-0023)'')
     else case validateIdentifier ''entity'' (ru_Entity r) of
       Some e \<Rightarrow> Some e
     | None \<Rightarrow>
         (if ru_Checks r = [] then Some (errors_New ''rule yaml: checks must be a non-empty array'')
          else each_check validateCheckV1 0 (ru_Checks r)))"

definition validateV2 :: "RuleSpec \<Rightarrow> goerr option" where
  "validateV2 r =
    (case validateIdentifier ''entity'' (ru_Entity r) of
       Some e \<Rightarrow> Some e
     | None \<Rightarrow>
         (if ru_Mode r = SpecModeSet \<or> ru_Mode r = SpecModeRecord then
            (case ru_Source r of
               None \<Rightarrow> Some (errors_New ''rule yaml: v2 requires `source` (per ADR-0023)'')
             | Some s \<Rightarrow>
                 (case validateSourceV2 (ru_Mode r) s of
                    Some e \<Rightarrow> Some e
                  | None \<Rightarrow>
                      (if ru_Checks r = [] then Some (errors_New ''rule yaml: checks must be a non-empty array'')
                       else each_check (\<lambda>i c. validateCheckV2 i c (ru_Mode r)) 0 (ru_Checks r))))
          else if ru_Mode r = [] then Some (errors_New ''rule yaml: v2 requires `mode` (one of set|record per ADR-0021)'')
          else Some (Errorf ''rule yaml: mode %q is not one of [set, record] (ADR-0021)'' [S (ru_Mode r)])))"

definition validate :: "RuleSpec \<Rightarrow> goerr option" where
  "validate r =
    (if ru_Version r = SchemaVersionV1 then validateV1 r
     else if ru_Version r = SchemaVersionV2 then validateV2 r
     else Some (Errorf ''rule yaml: version %d is not supported (engine accepts v1 or v2 per ADR-0001)'' [S (show_int (ru_Version r))]))"

definition Parse :: "(string \<Rightarrow> RuleSpec result) \<Rightarrow> string \<Rightarrow> RuleSpec result" where
  "Parse decode body =
    (case decode body of
       Inl e \<Rightarrow> Inl (Errorf ''rule yaml decode: %w'' [W e])
     | Inr r \<Rightarrow> (case validate r of Some e \<Rightarrow> Inl e | None \<Rightarrow> Inr r))"

section \<open>Translation to the runner\<close>

definition to_RuleSource :: "Source \<Rightarrow> RuleSource" where
  "to_RuleSource s =
    \<lparr>rs_type = so_Type s, rs_project_id = so_ProjectID s, rs_dataset_id = so_DatasetID s, rs_table_id = so_TableID s,
     rs_partition_column = so_PartitionColumn s, rs_topic = so_Topic s, rs_consumer_group = so_ConsumerGroup s,
     rs_window = map_option (\<lambda>w. \<lparr>rw_type = wi_Type w, rw_duration = wi_Duration w, rw_lateness_tolerance = wi_LatenessTolerance w\<rparr>)
                   (so_Window s)\<rparr>"

definition ToCheckSpecs :: "RuleSpec \<Rightarrow> CheckSpec list" where
  "ToCheckSpecs r =
    (let mode = (if ru_Mode r = [] then SpecModeSet else ru_Mode r);
         source = map_option to_RuleSource (ru_Source r)
     in map (\<lambda>c. \<lparr>cs_check_id = ck_CheckID c, cs_kind = ck_Kind c, cs_mode = mode, cs_source = source, cs_params = ck_Params c\<rparr>)
          (ru_Checks r))"

section \<open>Cost guardrails\<close>

record CostGuardrails =
  cg_MaxEvidenceSampleSize :: int
  cg_MaxLatenessTolerance :: duration

definition evidenceSampleSize :: "go_map option \<Rightarrow> int option" where
  "evidenceSampleSize params =
    (case map_get params ''aggregation'' of
       Some (AMap agg) \<Rightarrow>
         (case map_of agg ''evidence_sample_size'' of
            Some (AInt KInt i) \<Rightarrow> Some i
          | Some (AInt KInt64 i) \<Rightarrow> Some i
          | Some (AFloat f) \<Rightarrow> Some (int_of_float f)
          | _ \<Rightarrow> None)
     | _ \<Rightarrow> None)"

fun cost_of_checks :: "string \<Rightarrow> int \<Rightarrow> Check list \<Rightarrow> goerr option" where
  "cost_of_checks entity bound [] = None"
| "cost_of_checks entity bound (c # cs) =
    (case evidenceSampleSize (ck_Params c) of
       None \<Rightarrow> cost_of_checks entity bound cs
     | Some n \<Rightarrow>
         (if bound < n
          then Some (Errorf ''rule %q check %q: params.aggregation.evidence_sample_size %d exceeds deployment ceiling %d (ADR-0027)''
                       [S entity, S (ck_CheckID c), S (show_int n), S (show_int bound)])
          else cost_of_checks entity bound cs))"

definition EvaluateCost :: "RuleSpec \<Rightarrow> CostGuardrails \<Rightarrow> goerr option" where
  "EvaluateCost r g =
    (if ru_Mode r \<noteq> SpecModeRecord then None
     else (let rest = (if cg_MaxEvidenceSampleSize g \<le> 0 then None
                       else cost_of_checks (ru_Entity r) (cg_MaxEvidenceSampleSize g) (ru_Checks r))
           in case (ru_Source r, cg_MaxLatenessTolerance g > 0) of
             (Some s, True) \<Rightarrow>
               (case so_Window s of
                  None \<Rightarrow> rest
                | Some w \<Rightarrow>
                    (case ParseDuration (wi_LatenessTolerance w) of
                       Inl e \<Rightarrow> Some (Errorf ''rule %q: parse lateness_tolerance: %w'' [S (ru_Entity r), W e])
                     | Inr lt \<Rightarrow>
                         (if cg_MaxLatenessTolerance g < lt
                          then Some (Errorf ''rule %q: source.window.lateness_tolerance %s exceeds deployment ceiling %s (ADR-0027)''
                                       [S (ru_Entity r), S (Duration_String lt), S (Duration_String (cg_MaxLatenessTolerance g))])
                          else rest)))
           | _ \<Rightarrow> rest))"

section \<open>Well-formed rules\<close>

definition identifier_ok :: "string \<Rightarrow> bool" where
  "identifier_ok v \<longleftrightarrow> length v \<le> maxIdentifierLen \<and> identifierPattern v"

definition bigquery_ok :: "Source \<Rightarrow> bool" where
  "bigquery_ok s \<longleftrightarrow>
    so_Type s = SourceTypeBigQuery \<and> v2BigQueryProjectPattern (so_ProjectID s) \<and> v2BigQueryDatasetPattern (so_DatasetID s) \<and>
    v2BigQueryTablePattern (so_TableID s) \<and> (so_PartitionColumn s = [] \<or> v2BigQueryColumnPattern (so_PartitionColumn s)) \<and>
    so_Topic s = [] \<and> so_ConsumerGroup s = [] \<and> so_Window s = None"

definition kafka_ok :: "Source \<Rightarrow> bool" where
  "kafka_ok s \<longleftrightarrow>
    so_Type s = SourceTypeKafka \<and> v2KafkaTopicPattern (so_Topic s) \<and> v2KafkaConsumerGrpPattern (so_ConsumerGroup s) \<and>
    (\<exists>w. so_Window s = Some w \<and> wi_Type w = WindowTypeTumbling \<and> v2DurationPattern (wi_Duration w) \<and>
       v2DurationPattern (wi_LatenessTolerance w)) \<and>
    so_ProjectID s = [] \<and> so_DatasetID s = [] \<and> so_TableID s = [] \<and> so_PartitionColumn s = []"

definition wf_rule :: "RuleSpec \<Rightarrow> bool" where
  "wf_rule r \<longleftrightarrow>
    identifier_ok (ru_Entity r) \<and> ru_Checks r \<noteq> [] \<and> list_all (\<lambda>c. identifier_ok (ck_CheckID c)) (ru_Checks r) \<and>
    (ru_Version r = 1 \<and> ru_Mode r = [] \<and> ru_Source r = None \<and>
       list_all (\<lambda>c. ck_Kind c \<noteq> [] \<and> (ck_Params c = None \<or> ck_Params c = Some [])) (ru_Checks r) \<or>
     ru_Version r = 2 \<and>
       (\<exists>s. ru_Source r = Some s \<and> (ru_Mode r = ''set'' \<and> bigquery_ok s \<or> ru_Mode r = ''record'' \<and> kafka_ok s)) \<and>
       list_all (\<lambda>c. \<exists>name. ck_Kind c = ru_Mode r @ ''.'' @ name \<and> matches_plus word_char name) (ru_Checks r))"

lemma matches_plus_nonempty [simp]: "\<not> matches_plus p []"
  by (simp add: matches_plus_def)

lemma identifier_no_pipe: "identifier_ok v \<Longrightarrow> CHR ''|'' \<notin> set v"
  by (auto simp: identifier_ok_def identifierPattern_def matches_plus_def list_all_iff)

lemma validateIdentifier_None: "validateIdentifier f v = None \<longleftrightarrow> identifier_ok v"
proof -
  have "identifierPattern v \<Longrightarrow> v \<noteq> [] \<and> CHR ''|'' \<notin> set v"
    by (auto simp: identifierPattern_def matches_plus_def list_all_iff)
  then show ?thesis by (auto simp: validateIdentifier_def identifier_ok_def ContainsRune_def)
qed

lemma validateBigQuerySource_None: "so_Type s = SourceTypeBigQuery \<Longrightarrow> validateBigQuerySource s = None \<longleftrightarrow> bigquery_ok s"
  by (auto simp: validateBigQuerySource_def bigquery_ok_def pattern_defs)

lemma validateWindow_None:
  "validateWindow w = None \<longleftrightarrow> wi_Type w = WindowTypeTumbling \<and> v2DurationPattern (wi_Duration w) \<and> v2DurationPattern (wi_LatenessTolerance w)"
  by (simp add: validateWindow_def)

lemma validateKafkaSource_None: "so_Type s = SourceTypeKafka \<Longrightarrow> validateKafkaSource s = None \<longleftrightarrow> kafka_ok s"
proof (cases "so_Window s")
  case (Some w)
  assume ty: "so_Type s = SourceTypeKafka"
  have "kafka_ok s \<longleftrightarrow> v2KafkaTopicPattern (so_Topic s) \<and> v2KafkaConsumerGrpPattern (so_ConsumerGroup s) \<and> validateWindow w = None \<and>
      so_ProjectID s = [] \<and> so_DatasetID s = [] \<and> so_TableID s = [] \<and> so_PartitionColumn s = []"
    using Some ty by (simp add: kafka_ok_def validateWindow_None)
  then show ?thesis using Some
    by (cases "validateWindow w") (auto simp: validateKafkaSource_def v2KafkaTopicPattern_def v2KafkaConsumerGrpPattern_def)
qed (auto simp: validateKafkaSource_def kafka_ok_def)

lemma source_types_distinct [simp]: "SourceTypeBigQuery \<noteq> SourceTypeKafka" "SourceTypeKafka \<noteq> SourceTypeBigQuery"
  "SpecModeSet \<noteq> SpecModeRecord" "SpecModeRecord \<noteq> SpecModeSet"
  by (simp_all add: spec_constants)

lemma validateSourceV2_None:
  "validateSourceV2 mode s = None \<longleftrightarrow> mode = SpecModeSet \<and> bigquery_ok s \<or> mode = SpecModeRecord \<and> kafka_ok s"
proof -
  have "bigquery_ok s \<Longrightarrow> so_Type s = SourceTypeBigQuery" "kafka_ok s \<Longrightarrow> so_Type s = SourceTypeKafka"
    by (simp_all add: bigquery_ok_def kafka_ok_def)
  then show ?thesis
    by (auto simp: validateSourceV2_def expectedSourceTypeForMode_def validateBigQuerySource_None validateKafkaSource_None
        split: if_splits option.splits)
qed

lemma each_check_None: "each_check f i cs = None \<longleftrightarrow> (\<forall>k < length cs. f (i + k) (cs ! k) = None)"
proof (induction cs arbitrary: i)
  case (Cons c cs)
  have "(\<forall>k < length (c # cs). f (i + k) ((c # cs) ! k) = None) \<longleftrightarrow> f i c = None \<and> (\<forall>k < length cs. f (i + 1 + k) (cs ! k) = None)"
    by (auto simp: less_Suc_eq_0_disj)
  then show ?case using Cons.IH [of "i + 1"] by (simp split: option.split)
qed simp

lemma each_check_all:
  assumes "\<And>i c. f i c = None \<longleftrightarrow> P c"
  shows "each_check f i cs = None \<longleftrightarrow> list_all P cs"
  using assms by (simp add: each_check_None list_all_length)

lemma kind_prefix:
  assumes "mode = ''set'' \<or> mode = ''record''"
  shows "v2KindPattern k \<and> takeWhile (\<lambda>c. c \<noteq> CHR ''.'') k = mode \<longleftrightarrow> (\<exists>name. k = mode @ ''.'' @ name \<and> matches_plus word_char name)"
    (is "?L \<longleftrightarrow> ?R")
proof
  assume ?L
  then have "(\<exists>name. k = ''set'' @ ''.'' @ name \<and> matches_plus word_char name) \<or> (\<exists>name. k = ''record'' @ ''.'' @ name \<and> matches_plus word_char name)"
    by (auto simp: v2KindPattern_def HasPrefix_iff_prefix prefix_def)
  then obtain m name where m: "m = ''set'' \<or> m = ''record''" "k = m @ ''.'' @ name" "matches_plus word_char name"
    by blast
  then have "takeWhile (\<lambda>c. c \<noteq> CHR ''.'') k = m" by auto
  then show ?R using m \<open>?L\<close> by blast
next
  assume ?R
  then show ?L using assms by (auto simp: v2KindPattern_def HasPrefix_def)
qed

lemma validateCheckV1_None:
  "validateCheckV1 i c = None \<longleftrightarrow> identifier_ok (ck_CheckID c) \<and> ck_Kind c \<noteq> [] \<and> (ck_Params c = None \<or> ck_Params c = Some [])"
  unfolding validateIdentifier_None [of "check_field i", symmetric]
  by (auto simp: validateCheckV1_def split: option.split)

lemma validateCheckV2_None:
  assumes "mode = ''set'' \<or> mode = ''record''"
  shows "validateCheckV2 i c mode = None \<longleftrightarrow>
    identifier_ok (ck_CheckID c) \<and> (\<exists>name. ck_Kind c = mode @ ''.'' @ name \<and> matches_plus word_char name)"
  unfolding kind_prefix [OF assms, symmetric] validateIdentifier_None [of "check_field i", symmetric]
  by (auto simp: validateCheckV2_def Let_def split: option.split if_splits)

lemma rule_valid_iff: "validate r = None \<longleftrightarrow> wf_rule r"
proof -
  have v1: "validateV1 r = None \<longleftrightarrow> ru_Mode r = [] \<and> ru_Source r = None \<and> identifier_ok (ru_Entity r) \<and> ru_Checks r \<noteq> [] \<and>
      list_all (\<lambda>c. identifier_ok (ck_CheckID c) \<and> ck_Kind c \<noteq> [] \<and> (ck_Params c = None \<or> ck_Params c = Some [])) (ru_Checks r)"
    using validateIdentifier_None [of "''entity''" "ru_Entity r"] each_check_all [of validateCheckV1, OF validateCheckV1_None]
    by (auto simp: validateV1_def split: option.splits)
  have modes: "SpecModeSet = ''set''" "SpecModeRecord = ''record''" by (simp_all add: spec_constants)
  have v2: "validateV2 r = None \<longleftrightarrow> identifier_ok (ru_Entity r) \<and>
      (\<exists>s. ru_Source r = Some s \<and> (ru_Mode r = ''set'' \<and> bigquery_ok s \<or> ru_Mode r = ''record'' \<and> kafka_ok s)) \<and> ru_Checks r \<noteq> [] \<and>
      list_all (\<lambda>c. identifier_ok (ck_CheckID c) \<and> (\<exists>name. ck_Kind c = ru_Mode r @ ''.'' @ name \<and> matches_plus word_char name)) (ru_Checks r)"
  proof (cases "ru_Mode r = ''set'' \<or> ru_Mode r = ''record''")
    case True
    note checks = each_check_all [of "\<lambda>i c. validateCheckV2 i c (ru_Mode r)", OF validateCheckV2_None [OF True]]
    show ?thesis
    proof (cases "ru_Source r")
      case None
      then show ?thesis using True validateIdentifier_None [of "''entity''" "ru_Entity r"]
        by (simp add: validateV2_def modes split: option.split)
    next
      case (Some s)
      have "validateV2 r = None \<longleftrightarrow> validateIdentifier ''entity'' (ru_Entity r) = None \<and> validateSourceV2 (ru_Mode r) s = None \<and>
          ru_Checks r \<noteq> [] \<and> each_check (\<lambda>i c. validateCheckV2 i c (ru_Mode r)) 0 (ru_Checks r) = None"
        using True Some by (simp add: validateV2_def modes split: option.split)
      then show ?thesis using Some checks by (simp add: validateIdentifier_None validateSourceV2_None modes)
    qed
  next
    case False
    then show ?thesis by (auto simp: validateV2_def modes split: option.split)
  qed
  show ?thesis
    unfolding validate_def wf_rule_def v1 v2 using v1 v2
    by (auto simp: spec_constants list_all_iff)
qed

lemma Parse_Inr: "Parse decode body = Inr r \<longleftrightarrow> decode body = Inr r \<and> wf_rule r"
  by (auto simp: Parse_def rule_valid_iff [symmetric] split: sum.splits option.splits)

text \<open>
  C26. \<^verbatim>\<open>Parse\<close> returns exactly the well-formed rules the decoder yields: valid identifiers for the entity
  and every check (so no pipe can reach the execution identity), at least one check, and per version
  either the legacy shape or a mode aligned with its source descriptor and with the prefix of every
  check's kind.
\<close>

theorem Parse_wellformed: "Parse decode body = Inr r \<longleftrightarrow> decode body = Inr r \<and> wf_rule r"
  by (rule Parse_Inr)

lemma cost_of_checks_None:
  "cost_of_checks e b cs = None \<longleftrightarrow> list_all (\<lambda>c. case evidenceSampleSize (ck_Params c) of None \<Rightarrow> True | Some n \<Rightarrow> n \<le> b) cs"
  by (induction cs) (auto split: option.splits)

text \<open>
  The cost guardrails bound what a parsed record-mode rule may ask for: with both ceilings set, the
  rule is admitted exactly when its lateness tolerance, read as the number of units its grammar
  denotes, and the evidence sample size of each of its checks are within them. A tolerance the grammar
  admits and 64-bit nanoseconds cannot represent is above every ceiling, so it is refused.
\<close>

theorem EvaluateCost_bounds:
  assumes "Parse decode body = Inr r" "ru_Mode r = SpecModeRecord"
    and "0 < cg_MaxLatenessTolerance g" "cg_MaxLatenessTolerance g < 2 ^ 63" "0 < cg_MaxEvidenceSampleSize g"
  shows "\<exists>s w. ru_Source r = Some s \<and> so_Window s = Some w \<and>
    (EvaluateCost r g = None \<longleftrightarrow>
       int (grammar_value (wi_LatenessTolerance w)) \<le> cg_MaxLatenessTolerance g \<and>
       list_all (\<lambda>c. case evidenceSampleSize (ck_Params c) of None \<Rightarrow> True | Some n \<Rightarrow> n \<le> cg_MaxEvidenceSampleSize g) (ru_Checks r))"
proof -
  have "wf_rule r" using assms(1) by (simp add: Parse_Inr)
  then obtain s w where sw: "ru_Source r = Some s" "so_Window s = Some w" "v2DurationPattern (wi_LatenessTolerance w)"
    using assms(2) by (auto simp: wf_rule_def kafka_ok_def spec_constants)
  then have p: "ParseDuration (wi_LatenessTolerance w) = (if grammar_value (wi_LatenessTolerance w) < 2 ^ 63
      then Inr (int (grammar_value (wi_LatenessTolerance w))) else Inl (invalid_duration (wi_LatenessTolerance w)))"
    by (simp add: ParseDuration_grammar v2DurationPattern_def)
  have "EvaluateCost r g = None \<longleftrightarrow>
       int (grammar_value (wi_LatenessTolerance w)) \<le> cg_MaxLatenessTolerance g \<and>
       cost_of_checks (ru_Entity r) (cg_MaxEvidenceSampleSize g) (ru_Checks r) = None"
    using assms(2-) sw p by (auto simp: EvaluateCost_def Let_def)
  then show ?thesis using sw by (simp add: cost_of_checks_None)
qed

text \<open>A record-mode rule at its ceilings.\<close>

definition demo_rule :: RuleSpec where
  "demo_rule = \<lparr>ru_Version = 2, ru_Entity = ''orders'', ru_Mode = ''record'',
     ru_Source = Some \<lparr>so_Type = ''kafka'', so_ProjectID = [], so_DatasetID = [], so_TableID = [], so_PartitionColumn = [],
       so_Topic = ''orders.v1'', so_ConsumerGroup = ''dq'',
       so_Window = Some \<lparr>wi_Type = ''tumbling'', wi_Duration = ''5m'', wi_LatenessTolerance = ''30s''\<rparr>\<rparr>,
     ru_Description = [],
     ru_Checks = [\<lparr>ck_CheckID = ''shape'', ck_Kind = ''record.schema_conformance'', ck_Description = [],
       ck_Params = Some [(''aggregation'', AMap [(''evidence_sample_size'', AInt KInt 10)])]\<rparr>]\<rparr>"

definition demo_guardrails :: CostGuardrails where
  "demo_guardrails = \<lparr>cg_MaxEvidenceSampleSize = 10, cg_MaxLatenessTolerance = 30000000000\<rparr>"

lemma demo_rule_parses: "Parse (\<lambda>_. Inr demo_rule) [] = Inr demo_rule"
  by code_simp

theorem EvaluateCost_bounds_witness: "EvaluateCost demo_rule demo_guardrails = None"
proof -
  have g: "0 < cg_MaxLatenessTolerance demo_guardrails" "cg_MaxLatenessTolerance demo_guardrails < 2 ^ 63"
    "0 < cg_MaxEvidenceSampleSize demo_guardrails" "ru_Mode demo_rule = SpecModeRecord"
    by (simp_all add: demo_guardrails_def demo_rule_def SpecModeRecord_def)
  have v: "grammar_value ''30s'' = 30000000000"
    by (simp add: grammar_value_def unitMap_def micro_sign_def greek_mu_def is_digit_def digits_val_def digit_val_def)
  show ?thesis
    using EvaluateCost_bounds [OF demo_rule_parses g(4,1-3)] v
    by (auto simp: demo_rule_def demo_guardrails_def evidenceSampleSize_def map_get_def)
qed

end
