(* ===== verification/Go_Float.thy ===== *)
theory Go_Float
  imports Go_Duration
begin

text \<open>
  The rest of binary64 the evaluator uses: subtraction, absolute value, \<^verbatim>\<open>strconv.ParseFloat\<close> on decimal
  and hexadecimal text, and the shortest printing \<^verbatim>\<open>%v\<close> gives a \<^verbatim>\<open>float64\<close>.
\<close>

fun f_neg :: "float64 \<Rightarrow> float64" where
  "f_neg (Fin a) = Fin (- a)"
| "f_neg PInf = NInf"
| "f_neg NInf = PInf"
| "f_neg NaN = NaN"

definition f_sub :: "float64 \<Rightarrow> float64 \<Rightarrow> float64" where
  "f_sub a b = f_add a (f_neg b)"

fun f_abs :: "float64 \<Rightarrow> float64" where
  "f_abs (Fin a) = Fin \<bar>a\<bar>"
| "f_abs NaN = NaN"
| "f_abs _ = PInf"

section \<open>ParseFloat\<close>

definition lower :: "char \<Rightarrow> char" where
  "lower c = (if is_upper c then char_of (of_char c + 32 :: nat) else c)"

definition hex_val :: "char \<Rightarrow> nat option" where
  "hex_val c = (let n = (of_char (lower c) :: nat)
                in if is_digit c then Some (n - 48) else if 97 \<le> n \<and> n \<le> 102 then Some (n - 87) else None)"

text \<open>
  The mantissa loop of \<^verbatim>\<open>readFloat\<close>: digits and underscores with at most one point. The result is the
  integer read, the number of digits after the point, whether a digit was seen, and the rest.
\<close>

fun read_mantissa :: "nat \<Rightarrow> string \<Rightarrow> bool \<Rightarrow> nat \<Rightarrow> nat \<Rightarrow> bool \<Rightarrow> nat \<times> nat \<times> bool \<times> string" where
  "read_mantissa base [] sawdot m nf saw = (m, nf, saw, [])"
| "read_mantissa base (c # cs) sawdot m nf saw =
    (if c = CHR ''_'' then read_mantissa base cs sawdot m nf saw
     else if c = CHR ''.'' then (if sawdot then (m, nf, saw, c # cs) else read_mantissa base cs True m nf saw)
     else case hex_val c of
       Some d \<Rightarrow> (if d < base then read_mantissa base cs sawdot (m * base + d) (if sawdot then nf + 1 else nf) True
                  else (m, nf, saw, c # cs))
     | None \<Rightarrow> (m, nf, saw, c # cs))"

text \<open>The exponent digits: once the number reaches 10000 further digits are skipped.\<close>

fun read_exponent :: "string \<Rightarrow> nat \<Rightarrow> nat \<times> string" where
  "read_exponent [] e = (e, [])"
| "read_exponent (c # cs) e =
    (if c = CHR ''_'' then read_exponent cs e
     else if is_digit c then read_exponent cs (if e < 10000 then e * 10 + digit_val c else e)
     else (e, c # cs))"

text \<open>\<^verbatim>\<open>underscoreOK\<close>: underscores only between digits, or between the base prefix and a digit.\<close>

fun underscore_scan :: "bool \<Rightarrow> char \<Rightarrow> string \<Rightarrow> bool" where
  "underscore_scan hex prev [] = (prev \<noteq> CHR ''_'')"
| "underscore_scan hex prev (c # cs) =
    (if is_digit c \<or> hex \<and> hex_val c \<noteq> None then underscore_scan hex (CHR ''0'') cs
     else if c = CHR ''_'' then prev = CHR ''0'' \<and> underscore_scan hex (CHR ''_'') cs
     else prev \<noteq> CHR ''_'' \<and> underscore_scan hex (CHR ''!'') cs)"

definition underscoreOK :: "string \<Rightarrow> bool" where
  "underscoreOK s =
    (case split_sign s of (_, t) \<Rightarrow>
       if 2 \<le> length t \<and> hd t = CHR ''0'' \<and> lower (t ! 1) \<in> {CHR ''b'', CHR ''o'', CHR ''x''}
       then underscore_scan (lower (t ! 1) = CHR ''x'') (CHR ''0'') (drop 2 t)
       else underscore_scan False (CHR ''^'') t)"

definition parse_err :: "string \<Rightarrow> goerr \<Rightarrow> goerr" where
  "parse_err s e = Errorf ''strconv.ParseFloat: parsing %q: %w'' [S s, W e]"

definition special_float :: "string \<Rightarrow> float64 option" where
  "special_float s =
    (case split_sign (map lower s) of (neg, t) \<Rightarrow>
       if t = ''inf'' \<or> t = ''infinity'' then Some (if neg then NInf else PInf)
       else if map lower s = ''nan'' then Some NaN else None)"

definition readFloat :: "string \<Rightarrow> rat option" where
  "readFloat s =
    (case split_sign s of (neg, t) \<Rightarrow>
       let hex = (2 < length t \<and> hd t = CHR ''0'' \<and> lower (t ! 1) = CHR ''x'');
           base = (if hex then 16 else 10);
           (m, nf, saw, r) = read_mantissa base (if hex then drop 2 t else t) False 0 0 False;
           value = (\<lambda>e::int. (let v = (rat_of_nat m / of_nat base ^ nf) *
                                (if hex then pow2 e else if 0 \<le> e then 10 ^ nat e else 1 / 10 ^ nat (- e))
                             in if neg then - v else v))
       in if \<not> saw \<or> CHR ''_'' \<in> set s \<and> \<not> underscoreOK s then None
          else if r = [] then (if hex then None else Some (value 0))
          else if lower (hd r) \<noteq> (if hex then CHR ''p'' else CHR ''e'') then None
          else (case split_sign (tl r) of (eneg, ds) \<Rightarrow>
                  if ds = [] \<or> \<not> is_digit (hd ds) then None
                  else (case read_exponent ds 0 of (e, rest) \<Rightarrow>
                          if rest \<noteq> [] then None else Some (value (if eneg then - int e else int e)))))"

definition ParseFloat :: "string \<Rightarrow> float64 result" where
  "ParseFloat s =
    (case special_float s of
       Some f \<Rightarrow> Inr f
     | None \<Rightarrow>
         (case readFloat s of
            None \<Rightarrow> Inl (parse_err s strconv_ErrSyntax)
          | Some r \<Rightarrow> (case fl r of Fin v \<Rightarrow> Inr (Fin v) | _ \<Rightarrow> Inl (parse_err s strconv_ErrRange))))"

section \<open>Printing\<close>

text \<open>
  The decimal exponent of a positive rational: \<open>10^e \<le> r < 10^(e+1)\<close>, searched upwards from the
  estimate that the digit counts of its numerator and denominator give.
\<close>

definition pow10 :: "int \<Rightarrow> rat" where
  "pow10 e = (if 0 \<le> e then 10 ^ nat e else 1 / 10 ^ nat (- e))"

definition ilog10 :: "rat \<Rightarrow> int" where
  "ilog10 r = (let (p, q) = quotient_of r; k = int (length (show_int p)) - int (length (show_int q))
               in if pow10 k \<le> r then k else k - 1)"

text \<open>The least number of significant digits whose decimal reads back as the float, at most 17.\<close>

fun shortest :: "nat \<Rightarrow> nat \<Rightarrow> rat \<Rightarrow> int \<times> int" where
  "shortest 0 p r = (round_half_even (r / pow10 (ilog10 r - 16)), ilog10 r - 16)"
| "shortest (Suc n) p r =
    (let e = ilog10 r - int p; d = round_half_even (r / pow10 e)
     in if fl (of_int d * pow10 e) = Fin r then (d, e) else shortest n (p + 1) r)"

definition show_float :: "float64 \<Rightarrow> string" where
  "show_float f =
    (case f of
       NaN \<Rightarrow> ''NaN'' | PInf \<Rightarrow> ''+Inf'' | NInf \<Rightarrow> ''-Inf''
     | Fin r \<Rightarrow>
         (if r = 0 then ''0''
          else (let (d, e) = shortest 16 0 \<bar>r\<bar>;
                    ds = rev (dropWhile (\<lambda>c. c = CHR ''0'') (rev (show_int d)));
                    x = e + int (length (show_int d)) - 1;
                    sgn = (if r < 0 then ''-'' else [])
                in if x < - 4 \<or> 6 \<le> x
                   then sgn @ [hd ds] @ (if tl ds = [] then [] else CHR ''.'' # tl ds) @ ''e'' @ (if x < 0 then ''-'' else ''+'')
                        @ (if \<bar>x\<bar> < 10 then ''0'' else []) @ show_int \<bar>x\<bar>
                   else if x < 0 then sgn @ ''0.'' @ replicate (nat (- x) - 1) (CHR ''0'') @ ds
                   else (let n = nat x + 1; i = take n ds @ replicate (n - length ds) (CHR ''0''); f = drop n ds
                         in sgn @ i @ (if f = [] then [] else CHR ''.'' # f)))))"

text \<open>64-bit wrap-around, as Go's integer arithmetic has it.\<close>

definition wrap64 :: "int \<Rightarrow> int" where
  "wrap64 x = (x + 2 ^ 63) mod 2 ^ 64 - 2 ^ 63"

lemma wrap64_id: "- (2 ^ 63) \<le> x \<Longrightarrow> x < 2 ^ 63 \<Longrightarrow> wrap64 x = x"
  by (simp add: wrap64_def)

lemma wrap64_range: "- (2 ^ 63) \<le> wrap64 x \<and> wrap64 x < 2 ^ 63"
  by (simp add: wrap64_def)

section \<open>Rounding\<close>

lemma pow2_pos [simp]: "0 < pow2 e"
  by (simp add: pow2_def)

lemma pow2_add: "pow2 (a + int n) = pow2 a * 2 ^ n"
proof (cases "0 \<le> a")
  case True
  then show ?thesis by (simp add: pow2_def nat_add_distrib power_add)
next
  case False
  show ?thesis
  proof (cases "0 \<le> a + int n")
    case True
    then have "n = nat (a + int n) + nat (- a)" using False by simp
    then have "(2::rat) ^ n = 2 ^ nat (a + int n) * 2 ^ nat (- a)" by (metis power_add)
    then show ?thesis using False True by (simp add: pow2_def)
  next
    case neg: False
    then have "nat (- a) = nat (- (a + int n)) + n" using False by simp
    then have "(2::rat) ^ nat (- a) = 2 ^ nat (- (a + int n)) * 2 ^ n" by (metis power_add)
    then show ?thesis using False neg by (simp add: pow2_def)
  qed
qed

lemma pow2_mono: "a \<le> b \<Longrightarrow> pow2 a \<le> pow2 b"
  using pow2_add [of a "nat (b - a)"] by simp

lemma pow2_nat: "pow2 (int n) = 2 ^ n"
  by (simp add: pow2_def)

lemma ilog2_le:
  assumes "0 < r"
  shows "pow2 (ilog2 r) \<le> r"
proof -
  obtain p q where pq: "quotient_of r = (p, q)" by (rule prod.exhaust)
  have q: "0 < q" and r: "r = of_int p / of_int q" using quotient_of_denom_pos [OF pq] quotient_of_div [OF pq] by simp_all
  have p: "0 < p" using assms q r by (simp add: zero_less_divide_iff)
  define a where "a = floorlog 2 (nat p)"
  define b where "b = floorlog 2 (nat q)"
  have "0 < a" using p by (simp add: a_def floorlog_def)
  have "2 ^ (a - 1) \<le> nat p" using floorlog_bounds [of "nat p" 2] p by (simp add: a_def)
  then have "2 ^ (a - 1) \<le> p" using p by (metis of_nat_le_iff of_nat_numeral of_nat_power int_nat_eq less_imp_le)
  then have a: "2 ^ (a - 1) \<le> rat_of_int p" by (metis of_int_le_iff of_int_numeral of_int_power)
  have "nat q < 2 ^ b" using floorlog_bounds [of "nat q" 2] q by (simp add: b_def)
  then have "q < 2 ^ b" using q by (metis of_nat_less_iff of_nat_numeral of_nat_power int_nat_eq less_imp_le)
  then have b: "rat_of_int q < 2 ^ b" by (metis of_int_less_iff of_int_numeral of_int_power)
  have "pow2 (int a - int b - 1) * 2 ^ b = 2 ^ (a - 1)"
    using pow2_add [of "int a - int b - 1" b] pow2_nat [of "a - 1"] \<open>0 < a\<close> by (simp add: of_nat_diff)
  then have "pow2 (int a - int b - 1) * of_int q \<le> of_int p"
    using a b by (metis less_imp_le mult_left_mono order_trans pow2_pos)
  then have "pow2 (int a - int b - 1) \<le> r" using q r by (simp add: pos_le_divide_eq)
  then show ?thesis by (auto simp: ilog2_def pq a_def b_def Let_def)
qed

lemma round_half_even_int [simp]: "round_half_even (of_int i) = i"
  by (simp add: round_half_even_def Let_def)

lemma round_half_even_bounds: "0 \<le> r \<Longrightarrow> 0 \<le> round_half_even r" "of_int (round_half_even r) \<le> r + 1"
proof -
  show "0 \<le> r \<Longrightarrow> 0 \<le> round_half_even r" by (simp add: round_half_even_def Let_def)
  have "of_int \<lfloor>r\<rfloor> \<le> r" by simp
  then have "of_int \<lfloor>r\<rfloor> \<le> r + 1" "of_int (\<lfloor>r\<rfloor> + 1) \<le> r + 1" by (simp_all only: of_int_add of_int_1 add_le_cancel_right)
  then show "of_int (round_half_even r) \<le> r + 1" by (auto simp only: round_half_even_def Let_def split: if_split)
qed

lemma below_overflow: "x \<le> 2 ^ 65 \<Longrightarrow> \<not> 2 ^ 1024 \<le> (x::rat)"
proof -
  have "(2::rat) ^ 65 < 2 ^ 1024" by (rule power_strict_increasing) simp_all
  then show "x \<le> 2 ^ 65 \<Longrightarrow> \<not> 2 ^ 1024 \<le> x" by linarith
qed

text \<open>Integers below \<open>2^53\<close> are exact.\<close>

lemma fl_exact:
  assumes "\<bar>i\<bar> < 2 ^ 53"
  shows "fl (of_int i) = Fin (of_int i)"
proof (cases "i = 0")
  case False
  define e where "e = ilog2 \<bar>of_int i\<bar>"
  define k where "k = max e (- 1022) - 52"
  have lt: "\<bar>rat_of_int i\<bar> < 2 ^ 53" using assms by (metis of_int_abs of_int_less_iff of_int_numeral of_int_power)
  have "e \<le> 52"
  proof (rule ccontr)
    assume "\<not> e \<le> 52"
    then have "pow2 53 \<le> pow2 e" by (intro pow2_mono) simp
    also have "\<dots> \<le> \<bar>of_int i\<bar>" using False by (simp add: e_def ilog2_le)
    finally show False using lt by (simp add: pow2_def)
  qed
  then have k: "pow2 k = 1 / 2 ^ nat (- k)" by (simp add: k_def pow2_def)
  have "of_int i / pow2 k = of_int (i * 2 ^ nat (- k))" by (simp add: k)
  then have v: "of_int (round_half_even (of_int i / pow2 k)) * pow2 k = of_int i"
    using round_half_even_int [of "i * 2 ^ nat (- k)"] by (simp add: k)
  have "\<bar>rat_of_int i\<bar> \<le> 2 ^ 65" using lt by simp
  then have "\<not> 2 ^ 1024 \<le> rat_of_int i" "\<not> rat_of_int i \<le> - (2 ^ 1024)"
    using below_overflow [of "\<bar>of_int i\<bar>"] by (auto simp: abs_le_iff le_minus_iff dest: order_trans)
  then show ?thesis using False v by (simp add: fl_def Let_def e_def [symmetric] k_def [symmetric])
qed (simp add: fl_def)

text \<open>A non-negative number in range rounds to a non-negative finite one.\<close>

lemma fl_nonneg:
  assumes "0 \<le> r" "r \<le> 2 ^ 64"
  shows "\<exists>v \<ge> 0. fl r = Fin v"
proof (cases "r = 0")
  case False
  define k where "k = max (ilog2 \<bar>r\<bar>) (- 1022) - 52"
  define v where "v = of_int (round_half_even (r / pow2 k)) * pow2 k"
  have u: "pow2 k \<le> r + 1"
  proof -
    have "pow2 k \<le> pow2 (max (ilog2 r) 0)" using assms(1) by (intro pow2_mono) (simp add: k_def)
    also have "\<dots> \<le> r + 1" using ilog2_le [of r] assms(1) False by (auto simp: max_def pow2_def)
    finally show ?thesis .
  qed
  have nonneg: "0 \<le> v" using round_half_even_bounds(1) [of "r / pow2 k"] assms(1)
    by (simp add: v_def pow2_pos [THEN less_imp_le])
  have "v \<le> (r / pow2 k + 1) * pow2 k"
    unfolding v_def using round_half_even_bounds(2) by (rule mult_right_mono) (simp add: less_imp_le)
  also have "\<dots> = r + pow2 k" using pow2_pos [of k] by (simp add: distrib_right less_imp_neq [symmetric])
  also have "\<dots> \<le> 2 ^ 65 + 1" using u assms(2) by simp
  finally have "v < 2 ^ 66" by simp
  moreover have "(2::rat) ^ 66 < 2 ^ 1024" by (rule power_strict_increasing) simp_all
  ultimately have "\<not> 2 ^ 1024 \<le> v" "\<not> v \<le> - (2 ^ 1024)" using nonneg by (auto simp: not_le intro: le_less_trans less_le_trans)
  then show ?thesis using False nonneg
    by (auto simp: fl_def Let_def k_def [symmetric] v_def [symmetric])
qed (simp add: fl_def)

end
