(* ===== verification/Eval.thy ===== *)
theory Eval
  imports Runner Dsl_Spec Go_Float
begin

text \<open>
  The check evaluator (\<^verbatim>\<open>engine/internal/eval\<close>): dispatch on the check kind, the two set-mode kinds over
  BigQuery, the baseline framework, and the record-mode schema check with its threshold function.

  BigQuery and the JSON Schema library are the parameter \<open>backend\<close>: what a query, run with its bound
  parameters at a tick, yields when it is read and its first row scanned; what the schema compiler
  makes of a schema, and what its result says of a decoded record.
\<close>

section \<open>Parameters\<close>

datatype qparam = PTime time | PStr string

record backend =
  b_count :: "nat \<Rightarrow> string \<Rightarrow> (string \<times> qparam) list \<Rightarrow> int result result"
  b_baseline :: "nat \<Rightarrow> string \<Rightarrow> (string \<times> qparam) list \<Rightarrow> (float64 option \<times> int) result result"
  b_marshal :: "any \<Rightarrow> string result"
  b_unmarshal :: "string \<Rightarrow> any result"
  b_add_resource :: "string \<Rightarrow> string \<Rightarrow> goerr option"
  b_compile :: "string \<Rightarrow> string \<Rightarrow> (any \<Rightarrow> goerr option) result"

definition iterator_Done :: goerr where
  "iterator_Done = errors_New ''no more items in iterator''"

section \<open>Evaluator\<close>

definition KindSetRowCountPositive :: string where "KindSetRowCountPositive = ''set.row_count_positive''"
definition KindSetRowCountWithinBaseline :: string where "KindSetRowCountWithinBaseline = ''set.row_count_within_baseline''"
definition KindRecordSchemaConformance :: string where "KindRecordSchemaConformance = ''record.schema_conformance''"

text \<open>The evaluator's settings, which every handler receives.\<close>

record eval_config =
  ec_client :: bool
  ec_resultsProject :: string
  ec_resultsDataset :: string
  ec_resultsRetention :: duration

type_synonym eval_handler = "backend \<Rightarrow> eval_config \<Rightarrow> nat \<Rightarrow> CheckSpec \<Rightarrow> TriggerRequest \<Rightarrow> Evaluation \<times> goerr option"

record Evaluator =
  ev_config :: eval_config
  ev_handlers :: "(string \<times> eval_handler) list"

definition eval_error :: "(string \<times> any) list \<Rightarrow> goerr \<Rightarrow> Evaluation \<times> goerr option" where
  "eval_error evidence e = (\<lparr>el_result = ResultError, el_evidence = Some evidence, el_samples = None\<rparr>, Some e)"

section \<open>set.row_count_positive\<close>

definition rowCountPositiveThreshold :: int where "rowCountPositiveThreshold = 0"

definition bqIdentifierPattern :: "string \<Rightarrow> bool" where
  "bqIdentifierPattern = matches_plus (\<lambda>c. is_alnum c \<or> c = CHR ''_'' \<or> c = CHR ''-'')"

definition bqColumnPattern :: "string \<Rightarrow> bool" where
  "bqColumnPattern s \<longleftrightarrow> s \<noteq> [] \<and> \<not> is_digit (hd s) \<and> list_all word_char s"

definition errSourceMissing :: goerr where
  "errSourceMissing = errors_New ''eval: set-mode check requires a BigQuery source descriptor (v2 rule.source per ADR-0023; v1 rules pre-migration cannot run set-mode evaluations on the post-Wave-S engine)''"

definition validateBQIdentifiers :: "RuleSource \<Rightarrow> goerr option" where
  "validateBQIdentifiers s =
    (if \<not> bqIdentifierPattern (rs_project_id s)
     then Some (Errorf ''source.project_id %q does not match %s'' [S (rs_project_id s), S ''^[A-Za-z0-9_-]+$''])
     else if \<not> bqIdentifierPattern (rs_dataset_id s)
     then Some (Errorf ''source.dataset_id %q does not match %s'' [S (rs_dataset_id s), S ''^[A-Za-z0-9_-]+$''])
     else if \<not> bqIdentifierPattern (rs_table_id s)
     then Some (Errorf ''source.table_id %q does not match %s'' [S (rs_table_id s), S ''^[A-Za-z0-9_-]+$''])
     else if rs_partition_column s \<noteq> [] \<and> \<not> bqColumnPattern (rs_partition_column s)
     then Some (Errorf ''source.partition_column %q does not match %s'' [S (rs_partition_column s), S ''^[A-Za-z_][A-Za-z0-9_]*$''])
     else None)"

definition table_ref :: "RuleSource \<Rightarrow> string" where
  "table_ref s = rs_project_id s @ ''.'' @ rs_dataset_id s @ ''.'' @ rs_table_id s"

definition rowCountPositiveSQL :: "string \<Rightarrow> string \<Rightarrow> string" where
  "rowCountPositiveSQL tableRef partitionColumn =
    (if partitionColumn = [] then ''SELECT COUNT(*) AS row_count FROM `'' @ tableRef @ ''`''
     else ''SELECT COUNT(*) AS row_count FROM `'' @ tableRef @ ''` WHERE `'' @ partitionColumn @ ''` >= @window_start AND `''
          @ partitionColumn @ ''` < @window_end'')"

definition window_params :: "RuleSource \<Rightarrow> TriggerRequest \<Rightarrow> (string \<times> qparam) list" where
  "window_params s trigger =
    (if rs_partition_column s = [] then []
     else [(''window_start'', PTime (tr_window_start trigger)), (''window_end'', PTime (tr_window_end trigger))])"

definition evaluateRowCountPositive :: eval_handler where
  "evaluateRowCountPositive b e t spec trigger =
    (case cs_source spec of
       None \<Rightarrow> eval_error [(''kind'', AStr (cs_kind spec)), (''reason'', AStr ''missing_or_non_bigquery_source'')] errSourceMissing
     | Some s \<Rightarrow>
         (if rs_type s \<noteq> ''bigquery''
          then eval_error [(''kind'', AStr (cs_kind spec)), (''reason'', AStr ''missing_or_non_bigquery_source'')] errSourceMissing
          else case validateBQIdentifiers s of
            Some err \<Rightarrow> eval_error [(''kind'', AStr (cs_kind spec)), (''reason'', AStr ''invalid_source_identifier''),
                          (''error'', AStr (Error err))] err
          | None \<Rightarrow>
              (let tableRef = table_ref s
               in case b_count b t (rowCountPositiveSQL tableRef (rs_partition_column s)) (window_params s trigger) of
                    Inl err \<Rightarrow> eval_error [(''kind'', AStr (cs_kind spec)), (''table_ref'', AStr tableRef),
                                 (''reason'', AStr ''query_read_failed''), (''error'', AStr (Error err))]
                                 (Errorf ''row_count_positive: query %q: %w'' [S tableRef, W err])
                  | Inr (Inl err) \<Rightarrow> eval_error [(''kind'', AStr (cs_kind spec)), (''table_ref'', AStr tableRef),
                                 (''reason'', AStr ''no_rows_from_count_query''), (''error'', AStr (Error err))]
                                 (Errorf ''row_count_positive: %q returned no rows: %w'' [S tableRef, W err])
                  | Inr (Inr rowCount) \<Rightarrow>
                      (\<lparr>el_result = (if rowCount \<le> rowCountPositiveThreshold then ResultFail else ResultPass),
                        el_evidence = Some [(''kind'', AStr (cs_kind spec)), (''table_ref'', AStr tableRef),
                          (''row_count'', AInt KInt64 rowCount), (''threshold'', AInt KInt64 rowCountPositiveThreshold)],
                        el_samples = None\<rparr>, None))))"

section \<open>Baselines\<close>

definition BaselineSourcePlatformHistory :: string where "BaselineSourcePlatformHistory = ''platform_history''"
definition BaselineSourceStatic :: string where "BaselineSourceStatic = ''static''"

definition AggregationMean :: string where "AggregationMean = ''mean''"
definition AggregationMedian :: string where "AggregationMedian = ''median''"
definition AggregationMin :: string where "AggregationMin = ''min''"
definition AggregationMax :: string where "AggregationMax = ''max''"
definition AggregationP50 :: string where "AggregationP50 = ''p50''"
definition AggregationP90 :: string where "AggregationP90 = ''p90''"
definition AggregationP95 :: string where "AggregationP95 = ''p95''"
definition AggregationP99 :: string where "AggregationP99 = ''p99''"

definition TolerancePercent :: string where "TolerancePercent = ''percent''"
definition ToleranceAbsolute :: string where "ToleranceAbsolute = ''absolute''"
definition ToleranceStddev :: string where "ToleranceStddev = ''stddev''"

record Tolerance =
  to_Type :: string
  to_Value :: float64

record BaselineSpec =
  bs_Source :: string
  bs_ReferenceWindow :: duration
  bs_MinSamples :: int
  bs_Aggregation :: string
  bs_Value :: float64
  bs_Tolerance :: Tolerance
  bs_HistoryFieldName :: string

record BaselineResult =
  br_Baseline :: float64
  br_SamplesUsed :: int
  br_EffectiveReferenceWindow :: duration

text \<open>The two groups of \<^verbatim>\<open>^([0-9]+)(ms|s|m|h|d)$\<close>.\<close>

definition referenceWindowPattern :: "string \<Rightarrow> (string \<times> string) option" where
  "referenceWindowPattern raw =
    (let ds = takeWhile is_digit raw; u = dropWhile is_digit raw
     in if ds \<noteq> [] \<and> u \<in> {''ms'', ''s'', ''m'', ''h'', ''d''} then Some (ds, u) else None)"

text \<open>\<^verbatim>\<open>strconv.ParseInt(s, 10, 64)\<close> on a run of digits.\<close>

definition ParseInt :: "string \<Rightarrow> int result" where
  "ParseInt ds =
    (if digits_val ds < 2 ^ 63 then Inr (int (digits_val ds))
     else Inl (Errorf ''strconv.ParseInt: parsing %q: %w'' [S ds, W strconv_ErrRange]))"

definition ParseReferenceWindow :: "string \<Rightarrow> duration result" where
  "ParseReferenceWindow raw =
    (case referenceWindowPattern raw of
       None \<Rightarrow> Inl (Errorf ''reference_window %q does not match grammar %s'' [S raw, S ''^([0-9]+)(ms|s|m|h|d)$''])
     | Some (ds, u) \<Rightarrow>
         (case ParseInt ds of
            Inl e \<Rightarrow> Inl (Errorf ''reference_window %q: %w'' [S raw, W e])
          | Inr n \<Rightarrow>
              (if n \<le> 0 then Inl (Errorf ''reference_window %q must be positive'' [S raw])
               else if u = ''ms'' then Inr (wrap64 (n * 1000000))
               else if u = ''s'' then Inr (wrap64 (n * 1000000000))
               else if u = ''m'' then Inr (wrap64 (n * 60000000000))
               else if u = ''h'' then Inr (wrap64 (n * 3600000000000))
               else if u = ''d'' then Inr (wrap64 (wrap64 (n * 24) * 3600000000000))
               else Inl (Errorf ''reference_window %q: unreachable suffix'' [S raw]))))"

definition numericValue :: "any option \<Rightarrow> float64 option" where
  "numericValue v =
    (case v of
       Some (AFloat x) \<Rightarrow> Some x
     | Some (AInt KInt x) \<Rightarrow> Some (float64_of_int x)
     | Some (AInt KInt64 x) \<Rightarrow> Some (float64_of_int x)
     | Some (AStr x) \<Rightarrow> (case ParseFloat (TrimSpace x) of Inl _ \<Rightarrow> None | Inr f \<Rightarrow> Some f)
     | _ \<Rightarrow> None)"

text \<open>\<^verbatim>\<open>v, _ := m[k].(string)\<close>: the zero value when absent or of another type.\<close>

definition str_of :: "any option \<Rightarrow> string" where
  "str_of v = (case v of Some (AStr s) \<Rightarrow> s | _ \<Rightarrow> [])"

definition ParseBaselineSpec :: "go_map \<Rightarrow> string \<Rightarrow> BaselineSpec result" where
  "ParseBaselineSpec raw historyFieldName =
    (if historyFieldName = [] then Inl (errors_New ''ParseBaselineSpec: historyFieldName is required (kind-specific)'')
     else let src = str_of (map_of raw ''source'') in
       if src = [] then Inl (errors_New ''params.baseline.source is required (one of platform_history|static)'')
       else if src \<noteq> BaselineSourcePlatformHistory \<and> src \<noteq> BaselineSourceStatic
       then Inl (Errorf ''params.baseline.source %q is not one of [platform_history, static]'' [S src])
       else case map_of raw ''tolerance'' of
         Some (AMap tolRaw) \<Rightarrow>
           (let tolType = str_of (map_of tolRaw ''type'');
                tolVal = (case numericValue (map_of tolRaw ''value'') of Some f \<Rightarrow> f | None \<Rightarrow> Fin 0);
                spec = \<lparr>bs_Source = src, bs_ReferenceWindow = 0, bs_MinSamples = 0, bs_Aggregation = [], bs_Value = Fin 0,
                        bs_Tolerance = \<lparr>to_Type = tolType, to_Value = tolVal\<rparr>, bs_HistoryFieldName = historyFieldName\<rparr>
            in if tolType \<notin> {TolerancePercent, ToleranceAbsolute, ToleranceStddev}
               then Inl (Errorf ''params.baseline.tolerance.type %q is not one of [percent, absolute, stddev]'' [S tolType])
               else if src = BaselineSourceStatic
               then (case numericValue (map_of raw ''value'') of
                       None \<Rightarrow> Inl (errors_New ''params.baseline.value (numeric) is required for source=static'')
                     | Some v \<Rightarrow>
                         (if tolType = ToleranceStddev then Inl (errors_New ''tolerance.type=stddev is only valid for source=platform_history'')
                          else Inr (spec\<lparr>bs_Value := v\<rparr>)))
               else let refWindow = str_of (map_of raw ''reference_window'') in
                 if refWindow = [] then Inl (errors_New ''params.baseline.reference_window is required for source=platform_history'')
                 else case ParseReferenceWindow refWindow of
                   Inl e \<Rightarrow> Inl e
                 | Inr d \<Rightarrow>
                     (let agg = str_of (map_of raw ''aggregation'')
                      in if agg = [] then Inl (errors_New ''params.baseline.aggregation is required for source=platform_history'')
                         else if agg \<notin> {AggregationMean, AggregationMedian, AggregationMin, AggregationMax, AggregationP50,
                                          AggregationP90, AggregationP95, AggregationP99}
                         then Inl (Errorf ''params.baseline.aggregation %q is not one of [mean, median, min, max, p50, p90, p95, p99]'' [S agg])
                         else Inr (spec\<lparr>bs_ReferenceWindow := d, bs_Aggregation := agg,
                                bs_MinSamples := (case numericValue (map_of raw ''min_samples'') of
                                   Some v \<Rightarrow> (if f_lt (Fin 0) v then int_of_float v else 5) | None \<Rightarrow> 5)\<rparr>)))
       | _ \<Rightarrow> Inl (errors_New ''params.baseline.tolerance is required''))"

definition aggregationExpr :: "string \<Rightarrow> string \<Rightarrow> string" where
  "aggregationExpr agg inner =
    (if agg = AggregationMean then ''AVG('' @ inner @ '')''
     else if agg = AggregationMin then ''MIN('' @ inner @ '')''
     else if agg = AggregationMax then ''MAX('' @ inner @ '')''
     else if agg = AggregationMedian \<or> agg = AggregationP50 then ''APPROX_QUANTILES('' @ inner @ '', 100)[OFFSET(50)]''
     else if agg = AggregationP90 then ''APPROX_QUANTILES('' @ inner @ '', 100)[OFFSET(90)]''
     else if agg = AggregationP95 then ''APPROX_QUANTILES('' @ inner @ '', 100)[OFFSET(95)]''
     else if agg = AggregationP99 then ''APPROX_QUANTILES('' @ inner @ '', 100)[OFFSET(99)]''
     else ''AVG('' @ inner @ '')'')"

definition nl :: string where "nl = [char_of (10::nat)]"
definition apos :: string where "apos = [char_of (39::nat)]"

definition buildBaselineSQL :: "string \<Rightarrow> string \<Rightarrow> string \<Rightarrow> string \<Rightarrow> string" where
  "buildBaselineSQL project dataset historyField agg =
    ''SELECT'' @ nl
    @ ''  '' @ aggregationExpr agg (''CAST(JSON_VALUE(cr.evidence_summary, '' @ apos @ ''$.'' @ historyField @ apos @ '') AS FLOAT64)'')
    @ '' AS baseline_value,'' @ nl
    @ ''  COUNT(*) AS samples_used'' @ nl
    @ ''FROM `'' @ project @ ''.'' @ dataset @ ''.dq_check_results` cr'' @ nl
    @ ''JOIN `'' @ project @ ''.'' @ dataset @ ''.dq_executions` ex'' @ nl
    @ ''  ON ex.execution_id = cr.execution_id'' @ nl
    @ '' AND ex.attempt_id   = cr.attempt_id'' @ nl
    @ ''WHERE'' @ nl
    @ ''  ex.entity = @entity'' @ nl
    @ ''  AND cr.check_id = @check_id'' @ nl
    @ ''  AND cr.result = '' @ apos @ ''pass'' @ apos @ nl
    @ ''  AND cr.executed_at <  @window_end'' @ nl
    @ ''  AND cr.executed_at >= @window_start_cutoff''"

definition ComputeBaseline ::
  "backend \<Rightarrow> eval_config \<Rightarrow> nat \<Rightarrow> CheckSpec \<Rightarrow> TriggerRequest \<Rightarrow> BaselineSpec \<Rightarrow> BaselineResult result" where
  "ComputeBaseline b e t spec trigger baseline =
    (if bs_Source baseline = BaselineSourceStatic
     then Inr \<lparr>br_Baseline = bs_Value baseline, br_SamplesUsed = 0, br_EffectiveReferenceWindow = 0\<rparr>
     else if ec_resultsProject e = [] \<or> ec_resultsDataset e = []
     then Inl (errors_New ''ComputeBaseline: ResultsProject + ResultsDataset are required for platform_history baselines (wire from EnvConfig in main.go)'')
     else (let effective = (if 0 < ec_resultsRetention e \<and> ec_resultsRetention e < bs_ReferenceWindow baseline
                            then ec_resultsRetention e else bs_ReferenceWindow baseline)
           in case b_baseline b t
                  (buildBaselineSQL (ec_resultsProject e) (ec_resultsDataset e) (bs_HistoryFieldName baseline) (bs_Aggregation baseline))
                  [(''entity'', PStr (tr_entity trigger)), (''check_id'', PStr (cs_check_id spec)),
                   (''window_end'', PTime (tr_window_end trigger)),
                   (''window_start_cutoff'', PTime (tr_window_end trigger + wrap64 (- effective)))] of
                Inl err \<Rightarrow> Inl (Errorf ''ComputeBaseline: query: %w'' [W err])
              | Inr (Inl err) \<Rightarrow>
                  (if errors_Is err iterator_Done
                   then Inr \<lparr>br_Baseline = Fin 0, br_SamplesUsed = 0, br_EffectiveReferenceWindow = effective\<rparr>
                   else Inl (Errorf ''ComputeBaseline: scan: %w'' [W err]))
              | Inr (Inr (value, n)) \<Rightarrow>
                  Inr \<lparr>br_Baseline = (case value of Some v \<Rightarrow> v | None \<Rightarrow> Fin 0), br_SamplesUsed = n,
                       br_EffectiveReferenceWindow = effective\<rparr>))"

section \<open>set.row_count_within_baseline\<close>

definition rowCountWithinBaselineField :: string where "rowCountWithinBaselineField = ''row_count''"

definition allowedDeviation :: "Tolerance \<Rightarrow> float64 \<Rightarrow> float64" where
  "allowedDeviation tol baseline =
    (if to_Type tol = TolerancePercent then f_mul (f_div (to_Value tol) (Fin 100)) (f_abs baseline)
     else if to_Type tol = ToleranceAbsolute then to_Value tol
     else Fin 0)"

definition compare_baseline ::
  "CheckSpec \<Rightarrow> string \<Rightarrow> int \<Rightarrow> BaselineSpec \<Rightarrow> BaselineResult \<Rightarrow> Evaluation" where
  "compare_baseline spec tableRef rowCount baseline br =
    (if bs_Source baseline = BaselineSourcePlatformHistory \<and> br_SamplesUsed br < bs_MinSamples baseline
     then \<lparr>el_result = ResultDegraded,
           el_evidence = Some [(''kind'', AStr (cs_kind spec)), (''table_ref'', AStr tableRef),
             (''reason'', AStr ''insufficient_baseline_samples''), (''row_count'', AInt KInt64 rowCount),
             (''samples_used'', AInt KInt (br_SamplesUsed br)), (''min_samples'', AInt KInt (bs_MinSamples baseline)),
             (''effective_reference_window'', AStr (Duration_String (br_EffectiveReferenceWindow br)))],
           el_samples = None\<rparr>
     else (let deviation = f_abs (f_sub (float64_of_int rowCount) (br_Baseline br));
               allowance = allowedDeviation (bs_Tolerance baseline) (br_Baseline br)
           in \<lparr>el_result = (if f_lt allowance deviation then ResultFail else ResultPass),
               el_evidence = Some [(''kind'', AStr (cs_kind spec)), (''table_ref'', AStr tableRef),
                 (''row_count'', AInt KInt64 rowCount), (''baseline'', AFloat (br_Baseline br)),
                 (''deviation'', AFloat deviation), (''allowed_deviation'', AFloat allowance),
                 (''tolerance_type'', AStr (to_Type (bs_Tolerance baseline))),
                 (''tolerance_value'', AFloat (to_Value (bs_Tolerance baseline))),
                 (''samples_used'', AInt KInt (br_SamplesUsed br)),
                 (''effective_reference_window'', AStr (Duration_String (br_EffectiveReferenceWindow br))),
                 (''baseline_source'', AStr (bs_Source baseline))],
               el_samples = None\<rparr>))"

definition evaluateRowCountWithinBaseline :: eval_handler where
  "evaluateRowCountWithinBaseline b e t spec trigger =
    (let fail = (\<lambda>reason more. eval_error ([(''kind'', AStr (cs_kind spec)), (''reason'', AStr reason)] @ more))
     in case cs_params spec of
       None \<Rightarrow> fail ''missing_params'' [] (errors_New ''set.row_count_within_baseline: params is required (baseline block)'')
     | Some ps \<Rightarrow>
         (case map_of ps ''baseline'' of
            Some (AMap baselineRaw) \<Rightarrow>
              (case ParseBaselineSpec baselineRaw rowCountWithinBaselineField of
                 Inl err \<Rightarrow> fail ''invalid_baseline_block'' [(''error'', AStr (Error err))]
                              (Errorf ''set.row_count_within_baseline: %w'' [W err])
               | Inr baseline \<Rightarrow>
                   (case cs_source spec of
                      None \<Rightarrow> fail ''missing_or_non_bigquery_source'' [] errSourceMissing
                    | Some s \<Rightarrow>
                        (if rs_type s \<noteq> ''bigquery'' then fail ''missing_or_non_bigquery_source'' [] errSourceMissing
                         else case validateBQIdentifiers s of
                           Some err \<Rightarrow> fail ''invalid_source_identifier'' [(''error'', AStr (Error err))] err
                         | None \<Rightarrow>
                             (let tableRef = table_ref s;
                                  failq = (\<lambda>reason err. fail reason [(''table_ref'', AStr tableRef), (''error'', AStr (Error err))])
                              in case b_count b t (rowCountPositiveSQL tableRef (rs_partition_column s)) (window_params s trigger) of
                                   Inl err \<Rightarrow> failq ''current_value_query_failed'' err
                                                (Errorf ''set.row_count_within_baseline: current-value query: %w'' [W err])
                                 | Inr (Inl err) \<Rightarrow> failq ''current_value_no_rows'' err
                                                (Errorf ''set.row_count_within_baseline: current-value scan: %w'' [W err])
                                 | Inr (Inr rowCount) \<Rightarrow>
                                     (case ComputeBaseline b e t spec trigger baseline of
                                        Inl err \<Rightarrow> failq ''baseline_query_failed'' err
                                                     (Errorf ''set.row_count_within_baseline: %w'' [W err])
                                      | Inr br \<Rightarrow> (compare_baseline spec tableRef rowCount baseline br, None))))))
          | _ \<Rightarrow> fail ''missing_baseline_block'' [] (errors_New ''set.row_count_within_baseline: params.baseline is required'')))"

section \<open>record.schema_conformance\<close>

record recordSchemaConformanceParams =
  rp_Schema :: "go_map option"
  rp_FailRate :: float64
  rp_WarnRate :: "float64 option"
  rp_SampleSize :: int

definition recordSchemaConformanceCatalogDefaults :: recordSchemaConformanceParams where
  "recordSchemaConformanceCatalogDefaults = \<lparr>rp_Schema = None, rp_FailRate = Fin 0, rp_WarnRate = None, rp_SampleSize = 10\<rparr>"

fun asFloat :: "any \<Rightarrow> string \<Rightarrow> float64 result" where
  "asFloat (AFloat t) field = Inr t"
| "asFloat (AInt KInt t) field = Inr (float64_of_int t)"
| "asFloat (AInt KInt64 t) field = Inr (float64_of_int t)"
| "asFloat v field = Inl (Errorf ''%s must be a number; got %T'' [S field, S (fmt_T v)])"

fun asInt :: "any \<Rightarrow> string \<Rightarrow> int result" where
  "asInt (AInt KInt t) field = Inr t"
| "asInt (AInt KInt64 t) field = Inr t"
| "asInt (AFloat t) field =
    (if f_lt t (Fin 0) \<or> f_lt (Fin (2 ^ 63)) t then Inl (Errorf ''%s %v out of int range'' [S field, S (show_float t)])
     else Inr (int_of_float t))"
| "asInt v field = Inl (Errorf ''%s must be an integer; got %T'' [S field, S (fmt_T v)])"

definition parse_aggregation :: "go_map \<Rightarrow> recordSchemaConformanceParams \<Rightarrow> recordSchemaConformanceParams result" where
  "parse_aggregation agg p =
    res_bind (case map_of agg ''fail_if_violation_rate'' of
                None \<Rightarrow> Inr (rp_FailRate p)
              | Some v \<Rightarrow> asFloat v ''params.aggregation.fail_if_violation_rate'') (\<lambda>failRate.
    res_bind (case map_of agg ''warn_if_violation_rate'' of
                None \<Rightarrow> Inr (rp_WarnRate p)
              | Some ANil \<Rightarrow> Inr None
              | Some v \<Rightarrow> res_bind (asFloat v ''params.aggregation.warn_if_violation_rate'') (\<lambda>f. Inr (Some f))) (\<lambda>warnRate.
    res_bind (case map_of agg ''evidence_sample_size'' of
                None \<Rightarrow> Inr (rp_SampleSize p)
              | Some v \<Rightarrow> asInt v ''params.aggregation.evidence_sample_size'') (\<lambda>n.
    Inr (p\<lparr>rp_FailRate := failRate, rp_WarnRate := warnRate, rp_SampleSize := n\<rparr>))))"

definition out_of_unit :: "float64 \<Rightarrow> bool" where
  "out_of_unit f \<longleftrightarrow> f_lt f (Fin 0) \<or> f_lt (Fin 1) f"

definition parseRecordSchemaConformanceParams :: "go_map option \<Rightarrow> recordSchemaConformanceParams result" where
  "parseRecordSchemaConformanceParams raw =
    (case raw of
       None \<Rightarrow> Inl (errors_New ''params is required (params.schema must be set)'')
     | Some m \<Rightarrow>
         (case map_of m ''schema'' of
            None \<Rightarrow> Inl (errors_New ''params.schema is required'')
          | Some (AMap schemaMap) \<Rightarrow>
              res_bind
                (let p = recordSchemaConformanceCatalogDefaults\<lparr>rp_Schema := Some schemaMap\<rparr>
                 in case map_of m ''aggregation'' of
                      None \<Rightarrow> Inr p
                    | Some (AMap agg) \<Rightarrow> parse_aggregation agg p
                    | Some _ \<Rightarrow> Inl (errors_New ''params.aggregation must be an object''))
                (\<lambda>p. if out_of_unit (rp_FailRate p)
                     then Inl (Errorf ''params.aggregation.fail_if_violation_rate %v is not in [0, 1]'' [S (show_float (rp_FailRate p))])
                     else case rp_WarnRate p of
                       Some w \<Rightarrow>
                         (if out_of_unit w
                          then Inl (Errorf ''params.aggregation.warn_if_violation_rate %v is not in [0, 1]'' [S (show_float w)])
                          else if rp_SampleSize p < 0
                          then Inl (Errorf ''params.aggregation.evidence_sample_size %d is negative'' [S (show_int (rp_SampleSize p))])
                          else Inr p)
                     | None \<Rightarrow>
                         (if rp_SampleSize p < 0
                          then Inl (Errorf ''params.aggregation.evidence_sample_size %d is negative'' [S (show_int (rp_SampleSize p))])
                          else Inr p))
          | Some _ \<Rightarrow> Inl (errors_New ''params.schema must be a JSON Schema object'')))"

definition compileRecordSchema :: "backend \<Rightarrow> string \<Rightarrow> go_map option \<Rightarrow> (any \<Rightarrow> goerr option) result" where
  "compileRecordSchema b checkID schema =
    (case b_marshal b (case schema of None \<Rightarrow> ANil | Some m \<Rightarrow> AMap m) of
       Inl e \<Rightarrow> Inl (Errorf ''marshal params.schema: %w'' [W e])
     | Inr raw \<Rightarrow>
         (let i = ''rule://'' @ checkID @ ''/params_schema''
          in case b_add_resource b i raw of
               Some e \<Rightarrow> Inl (Errorf ''add params.schema resource: %w'' [W e])
             | None \<Rightarrow> (case b_compile b i raw of
                          Inl e \<Rightarrow> Inl (Errorf ''compile params.schema: %w'' [W e])
                        | Inr v \<Rightarrow> Inr v)))"

text \<open>Why one record violates the schema, if it does.\<close>

definition record_violation :: "backend \<Rightarrow> (any \<Rightarrow> goerr option) \<Rightarrow> Record \<Rightarrow> string option" where
  "record_violation b validator rec =
    (case b_unmarshal b (rc_body rec) of
       Inl e \<Rightarrow> Some (''json decode: '' @ Error e)
     | Inr body \<Rightarrow> (case validator body of Some e \<Rightarrow> Some (Error e) | None \<Rightarrow> None))"

definition violation_sample :: "Record \<Rightarrow> string \<Rightarrow> go_map" where
  "violation_sample rec reason =
    [(''partition'', AInt KInt32 (rc_partition rec)), (''offset'', AInt KInt64 (rc_offset rec)), (''reason'', AStr reason)]"

fun scan_records ::
  "backend \<Rightarrow> (any \<Rightarrow> goerr option) \<Rightarrow> int \<Rightarrow> Record list \<Rightarrow> int \<Rightarrow> go_map list \<Rightarrow> int \<times> go_map list" where
  "scan_records b validator cap [] violations acc = (violations, acc)"
| "scan_records b validator cap (rec # rs) violations acc =
    (case record_violation b validator rec of
       None \<Rightarrow> scan_records b validator cap rs violations acc
     | Some reason \<Rightarrow>
         scan_records b validator cap rs (violations + 1)
           (if int (length acc) < cap then acc @ [violation_sample rec reason] else acc))"

definition violation_rate :: "int \<Rightarrow> int \<Rightarrow> float64" where
  "violation_rate violations recordsEvaluated = f_div (float64_of_int violations) (float64_of_int recordsEvaluated)"

definition classifyThreshold :: "int \<Rightarrow> int \<Rightarrow> int \<Rightarrow> recordSchemaConformanceParams \<Rightarrow> CheckResult" where
  "classifyThreshold recordsEvaluated violations lateDropped params =
    (if recordsEvaluated = 0 then (if 0 < lateDropped then ResultDegraded else ResultPass)
     else if violations = 0 then ResultPass
     else (let rate = violation_rate violations recordsEvaluated
           in if f_le (rp_FailRate params) rate then ResultFail
              else case rp_WarnRate params of
                Some w \<Rightarrow> (if f_le w rate then ResultDegraded else ResultPass)
              | None \<Rightarrow> ResultPass))"

definition warnRateForEvidence :: "float64 option \<Rightarrow> any" where
  "warnRateForEvidence p = (case p of None \<Rightarrow> ANil | Some f \<Rightarrow> AFloat f)"

definition recordSchemaConformanceHandler :: eval_handler where
  "recordSchemaConformanceHandler b e t spec trigger =
    (case parseRecordSchemaConformanceParams (cs_params spec) of
       Inl err \<Rightarrow> eval_error [(''kind'', AStr (cs_kind spec)), (''reason'', AStr ''invalid_params''), (''error'', AStr (Error err))] err
     | Inr params \<Rightarrow>
         (case compileRecordSchema b (cs_check_id spec) (rp_Schema params) of
            Inl err \<Rightarrow> eval_error [(''kind'', AStr (cs_kind spec)), (''reason'', AStr ''schema_compile_failed''), (''error'', AStr (Error err))] err
          | Inr validator \<Rightarrow>
              (let recordsEvaluated = int (length (tr_records trigger));
                   (violations, found) = scan_records b validator (rp_SampleSize params) (tr_records trigger) 0 []
               in (\<lparr>el_result = classifyThreshold recordsEvaluated violations (tr_late_dropped trigger) params,
                    el_evidence = Some [(''kind'', AStr (cs_kind spec)),
                      (''records_evaluated'', AInt KInt recordsEvaluated),
                      (''records_passed'', AInt KInt (recordsEvaluated - violations)),
                      (''violations'', AInt KInt violations),
                      (''violation_rate'', AFloat (if 0 < recordsEvaluated then violation_rate violations recordsEvaluated else Fin 0)),
                      (''late_dropped_count'', AInt KInt (tr_late_dropped trigger)),
                      (''fail_if_rate'', AFloat (rp_FailRate params)),
                      (''warn_if_rate'', warnRateForEvidence (rp_WarnRate params)),
                      (''evidence_sample_cap'', AInt KInt (rp_SampleSize params))],
                    el_samples = Some found\<rparr>, None))))"

section \<open>Dispatch\<close>

definition Register :: "Evaluator \<Rightarrow> string \<Rightarrow> eval_handler \<Rightarrow> Evaluator" where
  "Register e kind h = e\<lparr>ev_handlers := (kind, h) # filter (\<lambda>(k, _). k \<noteq> kind) (ev_handlers e)\<rparr>"

definition New :: "eval_config \<Rightarrow> Evaluator result" where
  "New cfg =
    (if \<not> ec_client cfg then Inl (errors_New ''eval: Client is required'')
     else Inr (Register (Register (Register \<lparr>ev_config = cfg, ev_handlers = []\<rparr>
                 KindSetRowCountPositive evaluateRowCountPositive)
                 KindSetRowCountWithinBaseline evaluateRowCountWithinBaseline)
                 KindRecordSchemaConformance recordSchemaConformanceHandler))"

definition RegisteredKinds :: "Evaluator \<Rightarrow> string list" where
  "RegisteredKinds e = sort (map fst (ev_handlers e))"

definition Evaluate :: "backend \<Rightarrow> Evaluator \<Rightarrow> nat \<Rightarrow> CheckSpec \<Rightarrow> TriggerRequest \<Rightarrow> Evaluation \<times> goerr option" where
  "Evaluate b e t spec trigger =
    (case map_of (ev_handlers e) (cs_kind spec) of
       None \<Rightarrow> eval_error [(''kind'', AStr (cs_kind spec)), (''reason'', AStr ''unsupported_kind'')]
                 (Errorf ''unsupported check kind %q (registered kinds: %v)'' [S (cs_kind spec), S (show_strings (RegisteredKinds e))])
     | Some handler \<Rightarrow> handler b (ev_config e) t spec trigger)"

section \<open>Verdict of the schema check\<close>

definition violating :: "backend \<Rightarrow> (any \<Rightarrow> goerr option) \<Rightarrow> Record list \<Rightarrow> Record list" where
  "violating b validator = filter (\<lambda>r. record_violation b validator r \<noteq> None)"

definition sample_of :: "backend \<Rightarrow> (any \<Rightarrow> goerr option) \<Rightarrow> Record \<Rightarrow> go_map" where
  "sample_of b validator r = violation_sample r (the (record_violation b validator r))"

lemma scan_records_eq:
  "scan_records b validator cap rs n acc =
    (n + int (length (violating b validator rs)),
     acc @ take (nat cap - length acc) (map (sample_of b validator) (violating b validator rs)))"
proof (induction rs arbitrary: n acc)
  case (Cons r rs)
  show ?case
  proof (cases "record_violation b validator r")
    case (Some reason)
    then have "sample_of b validator r = violation_sample r reason" by (simp add: sample_of_def)
    then show ?thesis using Cons Some
      by (cases "int (length acc) < cap") (auto simp: violating_def take_Cons' Suc_diff_Suc zless_nat_eq_int_zless)
  qed (simp add: Cons violating_def)
qed (simp add: violating_def)

lemma violation_rate_exact:
  assumes "m \<le> n" "n < 2 ^ 53" "0 < n"
  shows "violation_rate (int m) (int n) = fl (of_nat m / of_nat n)"
proof -
  have "int n < 2 ^ 53" using assms(2) by (metis of_nat_less_iff of_nat_numeral of_nat_power)
  then have "fl (of_int (int n)) = Fin (of_nat n)" "fl (of_int (int m)) = Fin (of_nat m)"
    using assms(1) fl_exact [of "int n"] fl_exact [of "int m"] by simp_all
  then show ?thesis using assms(3) by (simp add: violation_rate_def float64_of_int_def)
qed

lemma rate_nonneg:
  assumes "m \<le> n" "0 < n"
  shows "f_le (Fin 0) (fl (of_nat m / of_nat n))"
proof -
  have "rat_of_nat m \<le> of_nat n" using assms(1) by simp
  then have "rat_of_nat m / of_nat n \<le> 1" using assms(2) by simp
  then show ?thesis using fl_nonneg [of "of_nat m / of_nat n"] by auto
qed

text \<open>
  C27. The verdict of \<^verbatim>\<open>record.schema_conformance\<close> on a window, once its parameters are accepted and its
  schema compiles: never an error; \<^verbatim>\<open>fail\<close> exactly when some record violates the schema and the
  violation rate (correctly rounded) reaches the fail rate; \<^verbatim>\<open>degraded\<close> exactly when nothing arrived
  in time but something arrived late, or the rate is below the fail rate and reaches the warn rate; \<^verbatim>\<open>pass\<close>
  otherwise. With the default fail rate any violation fails. The evidence counts the violating records
  and samples the first of them, in order, up to the cap.
\<close>

theorem record_conformance_verdict:
  assumes "parseRecordSchemaConformanceParams (cs_params spec) = Inr p"
    and "compileRecordSchema b (cs_check_id spec) (rp_Schema p) = Inr validator"
    and "length (tr_records trigger) < 2 ^ 53"
  shows "let bad = violating b validator (tr_records trigger); n = length (tr_records trigger);
             rate = fl (of_nat (length bad) / of_nat n);
             (ev, err) = recordSchemaConformanceHandler b e t spec trigger
         in err = None \<and> el_result ev \<noteq> ResultError \<and>
            (el_result ev = ResultFail \<longleftrightarrow> bad \<noteq> [] \<and> f_le (rp_FailRate p) rate) \<and>
            (el_result ev = ResultDegraded \<longleftrightarrow>
               n = 0 \<and> 0 < tr_late_dropped trigger \<or>
               bad \<noteq> [] \<and> \<not> f_le (rp_FailRate p) rate \<and> (\<exists>w. rp_WarnRate p = Some w \<and> f_le w rate)) \<and>
            (rp_FailRate p = Fin 0 \<longrightarrow> (el_result ev = ResultFail \<longleftrightarrow> bad \<noteq> [])) \<and>
            map_get (el_evidence ev) ''violations'' = Some (AInt KInt (int (length bad))) \<and>
            map_get (el_evidence ev) ''records_passed'' = Some (AInt KInt (int (n - length bad))) \<and>
            el_samples ev = Some (take (nat (rp_SampleSize p)) (map (sample_of b validator) bad))"
proof -
  define bad where "bad = violating b validator (tr_records trigger)"
  define n where "n = length (tr_records trigger)"
  define rate where "rate = fl (of_nat (length bad) / of_nat n)"
  have le: "length bad \<le> n" by (simp add: bad_def n_def violating_def)
  have rate: "n \<noteq> 0 \<Longrightarrow> violation_rate (int (length bad)) (int n) = rate"
    using violation_rate_exact [OF le] assms(3) by (simp add: n_def rate_def)
  have nonneg: "n \<noteq> 0 \<Longrightarrow> f_le (Fin 0) rate" using rate_nonneg [OF le] by (simp add: rate_def)
  have empty: "n = 0 \<Longrightarrow> bad = []" using le by simp
  define res where "res = classifyThreshold (int n) (int (length bad)) (tr_late_dropped trigger) p"
  have res: "res = (if n = 0 then (if 0 < tr_late_dropped trigger then ResultDegraded else ResultPass)
     else if bad = [] then ResultPass
     else if f_le (rp_FailRate p) rate then ResultFail
     else case rp_WarnRate p of Some w \<Rightarrow> (if f_le w rate then ResultDegraded else ResultPass) | None \<Rightarrow> ResultPass)"
    using rate by (simp add: res_def classifyThreshold_def Let_def)
  have verdict: "res \<noteq> ResultError" "res = ResultFail \<longleftrightarrow> bad \<noteq> [] \<and> f_le (rp_FailRate p) rate"
    "res = ResultDegraded \<longleftrightarrow> n = 0 \<and> 0 < tr_late_dropped trigger \<or>
       bad \<noteq> [] \<and> \<not> f_le (rp_FailRate p) rate \<and> (\<exists>w. rp_WarnRate p = Some w \<and> f_le w rate)"
    using empty by (auto simp: res split: option.split)
  have strict: "rp_FailRate p = Fin 0 \<longrightarrow> (res = ResultFail \<longleftrightarrow> bad \<noteq> [])"
    using verdict(2) nonneg empty by auto
  show ?thesis
    using verdict strict assms(1,2) le
    by (simp add: recordSchemaConformanceHandler_def scan_records_eq Let_def bad_def [symmetric] n_def [symmetric]
        rate_def [symmetric] res_def [symmetric] map_get_def of_nat_diff)
qed

text \<open>A window of three records, the second of which is not what the schema asks for.\<close>

definition demo_backend :: "int \<Rightarrow> backend" where
  "demo_backend rows = \<lparr>b_count = (\<lambda>t sql ps. Inr (Inr rows)), b_baseline = (\<lambda>t sql ps. Inr (Inl iterator_Done)),
     b_marshal = (\<lambda>v. Inr []), b_unmarshal = (\<lambda>s. Inr (AStr s)), b_add_resource = (\<lambda>i raw. None),
     b_compile = (\<lambda>i raw. Inr (\<lambda>v. if v = AStr ''ok'' then None else Some (errors_New ''bad record'')))\<rparr>"

definition demo_eval_config :: eval_config where
  "demo_eval_config = \<lparr>ec_client = True, ec_resultsProject = ''p'', ec_resultsDataset = ''d'', ec_resultsRetention = 0\<rparr>"

definition demo_record_spec :: CheckSpec where
  "demo_record_spec = \<lparr>cs_check_id = ''shape'', cs_kind = ''record.schema_conformance'', cs_mode = ''record'', cs_source = None,
     cs_params = Some [(''schema'', AMap [])]\<rparr>"

definition demo_batch :: TriggerRequest where
  "demo_batch = demo_trigger\<lparr>tr_records := map (\<lambda>(i, body). \<lparr>rc_partition = 0, rc_offset = i, rc_timestamp = 0, rc_body = body\<rparr>)
     [(1, ''ok''), (2, ''ko''), (3, ''ok'')]\<rparr>"

theorem record_conformance_verdict_witness:
  "let (ev, err) = recordSchemaConformanceHandler (demo_backend 0) demo_eval_config 0 demo_record_spec demo_batch
   in err = None \<and> el_result ev = ResultFail \<and>
      el_samples ev = Some [[(''partition'', AInt KInt32 0), (''offset'', AInt KInt64 2), (''reason'', AStr ''bad record'')]]"
proof -
  let ?b = "demo_backend 0"
  define p where "p = recordSchemaConformanceCatalogDefaults\<lparr>rp_Schema := Some []\<rparr>"
  define v where "v = (\<lambda>v. if v = AStr ''ok'' then None else Some (errors_New ''bad record''))"
  have 1: "parseRecordSchemaConformanceParams (cs_params demo_record_spec) = Inr p"
    by (simp add: parseRecordSchemaConformanceParams_def demo_record_spec_def p_def recordSchemaConformanceCatalogDefaults_def out_of_unit_def)
  have 2: "compileRecordSchema ?b (cs_check_id demo_record_spec) (rp_Schema p) = Inr v"
    by (simp add: compileRecordSchema_def demo_backend_def v_def Let_def)
  have 3: "length (tr_records demo_batch) < 2 ^ 53" by (simp add: demo_batch_def)
  have e: "Error (errors_New ''bad record'') = ''bad record''" by code_simp
  have bad: "violating ?b v (tr_records demo_batch) = [\<lparr>rc_partition = 0, rc_offset = 2, rc_timestamp = 0, rc_body = ''ko''\<rparr>]"
    by (simp add: violating_def record_violation_def demo_batch_def demo_backend_def v_def)
  have s: "map (sample_of ?b v) (violating ?b v (tr_records demo_batch)) =
      [[(''partition'', AInt KInt32 0), (''offset'', AInt KInt64 2), (''reason'', AStr ''bad record'')]]"
    unfolding bad using e by (simp add: sample_of_def violation_sample_def record_violation_def demo_backend_def v_def)
  show ?thesis
    using record_conformance_verdict [OF 1 2 3, of demo_eval_config 0] bad s
    by (simp add: Let_def p_def recordSchemaConformanceCatalogDefaults_def split: prod.splits)
qed

section \<open>Verdict against a static baseline\<close>

lemma count_deviation_exact:
  assumes "\<bar>c\<bar> < 2 ^ 52" "\<bar>v\<bar> < 2 ^ 52"
  shows "f_abs (f_sub (float64_of_int c) (float64_of_int v)) = Fin \<bar>of_int (c - v)\<bar>"
proof -
  have "\<bar>c - v\<bar> < 2 ^ 53" using assms by simp
  note fl_exact [OF this]
  moreover have "fl (of_int c) = Fin (of_int c)" "fl (of_int v) = Fin (of_int v)"
    using assms by (auto intro!: fl_exact)
  ultimately show ?thesis by (simp add: f_sub_def float64_of_int_def)
qed

text \<open>
  C28. Against a static baseline with an absolute tolerance, \<^verbatim>\<open>set.row_count_within_baseline\<close> decides by exact
  integer arithmetic: the check passes if and only if the count is within the tolerance of the
  baseline. The passage through binary64 loses nothing for numbers below \<open>2^52\<close>.
\<close>

theorem static_baseline_verdict:
  assumes "map_get (cs_params spec) ''baseline'' = Some (AMap raw)"
    and "map_of raw ''source'' = Some (AStr BaselineSourceStatic)" "map_of raw ''value'' = Some (AInt KInt v)"
    and "map_of raw ''tolerance'' = Some (AMap tol)"
    and "map_of tol ''type'' = Some (AStr ToleranceAbsolute)" "map_of tol ''value'' = Some (AInt KInt d)"
    and "cs_source spec = Some s" "rs_type s = ''bigquery''" "validateBQIdentifiers s = None"
    and "b_count b t (rowCountPositiveSQL (table_ref s) (rs_partition_column s)) (window_params s trigger) = Inr (Inr c)"
    and "\<bar>c\<bar> < 2 ^ 52" "\<bar>v\<bar> < 2 ^ 52" "\<bar>d\<bar> < 2 ^ 53"
  shows "\<exists>ev. evaluateRowCountWithinBaseline b e t spec trigger = (ev, None) \<and>
    el_result ev = (if \<bar>c - v\<bar> \<le> d then ResultPass else ResultFail)"
proof -
  define bs where "bs = \<lparr>bs_Source = BaselineSourceStatic, bs_ReferenceWindow = 0, bs_MinSamples = 0, bs_Aggregation = [],
     bs_Value = float64_of_int v, bs_Tolerance = \<lparr>to_Type = ToleranceAbsolute, to_Value = float64_of_int d\<rparr>,
     bs_HistoryFieldName = rowCountWithinBaselineField\<rparr>"
  have parse: "ParseBaselineSpec raw rowCountWithinBaselineField = Inr bs"
    using assms(2-6) by (simp add: ParseBaselineSpec_def bs_def rowCountWithinBaselineField_def str_of_def numericValue_def
        BaselineSourceStatic_def BaselineSourcePlatformHistory_def ToleranceAbsolute_def ToleranceStddev_def TolerancePercent_def)
  obtain ps where ps: "cs_params spec = Some ps" "map_of ps ''baseline'' = Some (AMap raw)"
    using assms(1) by (auto simp: map_get_def split: option.splits)
  define br where "br = \<lparr>br_Baseline = float64_of_int v, br_SamplesUsed = 0, br_EffectiveReferenceWindow = 0\<rparr>"
  have base: "ComputeBaseline b e t spec trigger bs = Inr br"
    by (simp add: ComputeBaseline_def bs_def br_def)
  have "float64_of_int d = Fin (of_int d)" using fl_exact [OF assms(13)] by (simp add: float64_of_int_def)
  then have "el_result (compare_baseline spec (table_ref s) c bs br) = (if \<bar>c - v\<bar> \<le> d then ResultPass else ResultFail)"
    using count_deviation_exact [OF assms(11,12)]
    by (simp add: compare_baseline_def allowedDeviation_def bs_def br_def BaselineSourceStatic_def BaselineSourcePlatformHistory_def
        ToleranceAbsolute_def TolerancePercent_def Let_def of_int_abs [symmetric] del: of_int_abs of_int_diff)
  moreover have "evaluateRowCountWithinBaseline b e t spec trigger = (compare_baseline spec (table_ref s) c bs br, None)"
    using assms(7-10) ps parse base by (simp add: evaluateRowCountWithinBaseline_def Let_def)
  ultimately show ?thesis by simp
qed

definition demo_table :: RuleSource where
  "demo_table = \<lparr>rs_type = ''bigquery'', rs_project_id = ''p'', rs_dataset_id = ''d'', rs_table_id = ''t'', rs_partition_column = [],
     rs_topic = [], rs_consumer_group = [], rs_window = None\<rparr>"

definition demo_baseline_spec :: CheckSpec where
  "demo_baseline_spec = \<lparr>cs_check_id = ''volume'', cs_kind = ''set.row_count_within_baseline'', cs_mode = ''set'',
     cs_source = Some demo_table,
     cs_params = Some [(''baseline'', AMap [(''source'', AStr ''static''), (''value'', AInt KInt 1000),
       (''tolerance'', AMap [(''type'', AStr ''absolute''), (''value'', AInt KInt 50)])])]\<rparr>"

theorem static_baseline_verdict_witness:
  "\<exists>ev. evaluateRowCountWithinBaseline (demo_backend 1051) demo_eval_config 0 demo_baseline_spec demo_batch = (ev, None) \<and>
    el_result ev = ResultFail"
proof -
  have v: "validateBQIdentifiers demo_table = None" by code_simp
  show ?thesis
    using static_baseline_verdict [of demo_baseline_spec "[(''source'', AStr ''static''), (''value'', AInt KInt 1000),
        (''tolerance'', AMap [(''type'', AStr ''absolute''), (''value'', AInt KInt 50)])]" 1000
        "[(''type'', AStr ''absolute''), (''value'', AInt KInt 50)]" 50 demo_table "demo_backend 1051" 0 demo_batch 1051 demo_eval_config] v
    by (simp add: demo_baseline_spec_def map_get_def BaselineSourceStatic_def ToleranceAbsolute_def demo_backend_def)
      (simp add: demo_table_def)
qed

section \<open>Query texts\<close>

lemma safe_identifier: "bqIdentifierPattern s \<Longrightarrow> count_list s (CHR ''`'') = 0"
  by (auto simp: bqIdentifierPattern_def matches_plus_def list_all_iff count_list_0_iff is_alnum_def is_digit_def is_lower_def is_upper_def)

lemma safe_column: "bqColumnPattern s \<Longrightarrow> count_list s (CHR ''`'') = 0"
  by (auto simp: bqColumnPattern_def word_char_def list_all_iff count_list_0_iff is_alnum_def is_digit_def is_lower_def is_upper_def)

lemma validated_sql_quotes:
  assumes "validateBQIdentifiers s = None"
  shows "count_list (rowCountPositiveSQL (table_ref s) (rs_partition_column s)) (CHR ''`'') = (if rs_partition_column s = [] then 2 else 6)"
  using assms safe_identifier safe_column
  by (auto simp: validateBQIdentifiers_def rowCountPositiveSQL_def table_ref_def split: if_splits)

lemma bigquery_ok_identifiers:
  assumes "bigquery_ok s"
  shows "validateBQIdentifiers (to_RuleSource s) = None \<longleftrightarrow>
    so_PartitionColumn s = [] \<or> \<not> is_digit (hd (so_PartitionColumn s))"
proof -
  have mono: "matches_plus p v \<Longrightarrow> (\<And>c. p c \<Longrightarrow> is_alnum c \<or> c = CHR ''_'' \<or> c = CHR ''-'') \<Longrightarrow> bqIdentifierPattern v" for p v
    by (auto simp: bqIdentifierPattern_def matches_plus_def list_all_iff)
  have "bqIdentifierPattern (so_ProjectID s)" "bqIdentifierPattern (so_DatasetID s)" "bqIdentifierPattern (so_TableID s)"
    using assms by (auto simp: bigquery_ok_def v2BigQueryProjectPattern_def v2BigQueryDatasetPattern_def v2BigQueryTablePattern_def
        word_char_def is_alnum_def elim!: mono)
  then show ?thesis
    using assms by (auto simp: validateBQIdentifiers_def to_RuleSource_def bigquery_ok_def bqColumnPattern_def
        v2BigQueryColumnPattern_def matches_plus_def)
qed

text \<open>
  C29. The evaluator's own identifier check agrees with the parser on every parsed set-mode rule but one
  case: a partition column that starts with a digit is admitted by the parser and refused by the
  evaluator. Where the check passes, the query text is its template: it contains exactly the backticks of the
  template, so no identifier can close its quotation.
\<close>

theorem parsed_source_evaluable:
  assumes "Parse decode body = Inr r" "ru_Mode r = SpecModeSet" "c \<in> set (ToCheckSpecs r)"
  shows "\<exists>s. cs_source c = Some s \<and> rs_type s = ''bigquery'' \<and>
    (validateBQIdentifiers s = None \<longleftrightarrow> rs_partition_column s = [] \<or> \<not> is_digit (hd (rs_partition_column s))) \<and>
    (validateBQIdentifiers s = None \<longrightarrow>
      count_list (rowCountPositiveSQL (table_ref s) (rs_partition_column s)) (CHR ''`'') = (if rs_partition_column s = [] then 2 else 6))"
proof -
  have "wf_rule r" using assms(1) by (simp add: Parse_Inr)
  then obtain s where s: "ru_Source r = Some s" "bigquery_ok s"
    using assms(2) by (auto simp: wf_rule_def SpecModeSet_def)
  have "cs_source c = Some (to_RuleSource s)" using assms(3) s(1) by (auto simp: ToCheckSpecs_def Let_def)
  moreover have "rs_type (to_RuleSource s) = ''bigquery''" "rs_partition_column (to_RuleSource s) = so_PartitionColumn s"
    using s(2) by (simp_all add: to_RuleSource_def bigquery_ok_def SourceTypeBigQuery_def)
  ultimately show ?thesis using bigquery_ok_identifiers [OF s(2)] validated_sql_quotes [of "to_RuleSource s"] by auto
qed

text \<open>A rule whose partition column starts with a digit: parsed, and refused at every evaluation.\<close>

definition digit_column_rule :: RuleSpec where
  "digit_column_rule = \<lparr>ru_Version = 2, ru_Entity = ''orders'', ru_Mode = ''set'',
     ru_Source = Some \<lparr>so_Type = ''bigquery'', so_ProjectID = ''p'', so_DatasetID = ''d'', so_TableID = ''t'',
       so_PartitionColumn = ''2nd_day'', so_Topic = [], so_ConsumerGroup = [], so_Window = None\<rparr>,
     ru_Description = [],
     ru_Checks = [\<lparr>ck_CheckID = ''volume'', ck_Kind = ''set.row_count_positive'', ck_Description = [], ck_Params = None\<rparr>]\<rparr>"

theorem parsed_source_evaluable_witness:
  "\<exists>s. cs_source (hd (ToCheckSpecs digit_column_rule)) = Some s \<and> validateBQIdentifiers s \<noteq> None"
proof -
  have p: "Parse (\<lambda>_. Inr digit_column_rule) [] = Inr digit_column_rule" by code_simp
  have m: "ru_Mode digit_column_rule = SpecModeSet" by (simp add: digit_column_rule_def SpecModeSet_def)
  have h: "hd (ToCheckSpecs digit_column_rule) \<in> set (ToCheckSpecs digit_column_rule)"
    by (simp add: ToCheckSpecs_def digit_column_rule_def Let_def)
  have c: "cs_source (hd (ToCheckSpecs digit_column_rule)) = Some s \<Longrightarrow> rs_partition_column s = ''2nd_day''" for s
    by (auto simp: ToCheckSpecs_def digit_column_rule_def Let_def to_RuleSource_def)
  show ?thesis using parsed_source_evaluable [OF p m h] c by (fastforce simp: is_digit_def)
qed

section \<open>Reference windows\<close>

definition window_unit :: "string \<Rightarrow> int" where
  "window_unit u = (if u = ''ms'' then 1000000 else if u = ''s'' then 1000000000 else if u = ''m'' then 60000000000
    else if u = ''h'' then 3600000000000 else 24 * 3600000000000)"

lemma wrap64_mult: "wrap64 (wrap64 a * b) = wrap64 (a * b)"
proof -
  have "wrap64 a = a + 2 ^ 64 * (- ((a + 2 ^ 63) div 2 ^ 64))"
    unfolding wrap64_def using minus_mult_div_eq_mod [of "a + 2 ^ 63" "2 ^ 64"] by (simp add: algebra_simps)
  then obtain k where k: "wrap64 a = a + 2 ^ 64 * k" by blast
  have "wrap64 (x + 2 ^ 64 * m) = wrap64 x" for x m
    unfolding wrap64_def using mod_mult_self2 [of "x + 2 ^ 63" "2 ^ 64" m] by (simp add: add.assoc add.commute add.left_commute)
  moreover have "wrap64 a * b = a * b + 2 ^ 64 * (k * b)" using k by (simp add: algebra_simps)
  ultimately show ?thesis by metis
qed

text \<open>
  C30. \<^verbatim>\<open>ParseReferenceWindow\<close> accepts exactly a positive 63-bit number with one of its units, and returns
  their product in wrapped 64-bit nanoseconds: the product itself, a positive duration, whenever it is
  below \<open>2^63\<close>; otherwise the wrap-around of it, which is not refused.
\<close>

theorem ParseReferenceWindow_value:
  "(ParseReferenceWindow raw = Inr d \<longleftrightarrow>
     (\<exists>ds u. referenceWindowPattern raw = Some (ds, u) \<and> 0 < digits_val ds \<and> digits_val ds < 2 ^ 63 \<and>
        d = wrap64 (int (digits_val ds) * window_unit u))) \<and>
   (\<forall>ds u. referenceWindowPattern raw = Some (ds, u) \<longrightarrow> 0 < digits_val ds \<longrightarrow> int (digits_val ds) * window_unit u < 2 ^ 63 \<longrightarrow>
      ParseReferenceWindow raw = Inr (int (digits_val ds) * window_unit u))"
proof -
  have iff: "ParseReferenceWindow raw = Inr x \<longleftrightarrow>
     (\<exists>ds u. referenceWindowPattern raw = Some (ds, u) \<and> 0 < digits_val ds \<and> digits_val ds < 2 ^ 63 \<and>
        x = wrap64 (int (digits_val ds) * window_unit u))" for x
  proof (cases "referenceWindowPattern raw")
    case (Some du)
    obtain ds u where du: "du = (ds, u)" by (rule prod.exhaust)
    have u: "u \<in> {''ms'', ''s'', ''m'', ''h'', ''d''}"
      using Some du by (auto simp: referenceWindowPattern_def Let_def split: if_splits)
    show ?thesis
    proof (cases "digits_val ds < 2 ^ 63")
      case True
      have "u = ''d'' \<Longrightarrow> wrap64 (wrap64 (int (digits_val ds) * 24) * 3600000000000) = wrap64 (int (digits_val ds) * window_unit u)"
        by (simp add: wrap64_mult window_unit_def mult.assoc mult.commute)
      then show ?thesis using True Some du u
        by (auto simp: ParseReferenceWindow_def ParseInt_def window_unit_def)
    qed (use Some du in \<open>auto simp: ParseReferenceWindow_def ParseInt_def\<close>)
  qed (simp add: ParseReferenceWindow_def)
  have unit: "1 \<le> window_unit u" for u by (simp add: window_unit_def)
  have "ParseReferenceWindow raw = Inr (int (digits_val ds) * window_unit u)"
    if "referenceWindowPattern raw = Some (ds, u)" "0 < digits_val ds" "int (digits_val ds) * window_unit u < 2 ^ 63" for ds u
  proof -
    have "int (digits_val ds) \<le> int (digits_val ds) * window_unit u" using unit [of u] by (simp add: mult_le_cancel_left1)
    then have "int (digits_val ds) < 2 ^ 63" using that(3) by linarith
    then have n: "digits_val ds < 2 ^ 63" by (metis of_nat_less_iff of_nat_numeral of_nat_power)
    have "wrap64 (int (digits_val ds) * window_unit u) = int (digits_val ds) * window_unit u"
      using that(3) unit [of u] by (intro wrap64_id) (simp_all add: order_trans [of _ 0])
    then show ?thesis using that(1,2) n by (subst iff) auto
  qed
  then show ?thesis using iff by blast
qed

text \<open>The finding: 106752 days, a reference window of 292 years and some days, is read as a negative duration.\<close>

definition wrapped_window :: string where "wrapped_window = ''106752d''"

theorem ParseReferenceWindow_value_witness: "ParseReferenceWindow wrapped_window = Inr (- 9223371273709551616)"
proof -
  have r: "referenceWindowPattern wrapped_window = Some (''106752'', ''d'')"
    by (simp add: referenceWindowPattern_def wrapped_window_def is_digit_def)
  have v: "digits_val ''106752'' = 106752" by (simp add: digits_val_def digit_val_def)
  show ?thesis
    using ParseReferenceWindow_value [of wrapped_window "- 9223371273709551616"] r v
    by (simp add: window_unit_def wrap64_def)
qed

end
