(* ===== verification/Dryrun.thy ===== *)
theory Dryrun
  imports Rule_Files Eval
begin

text \<open>
  The pre-flight cost estimate (\<^verbatim>\<open>tools/dryrun\<close>): one BigQuery dry run per set-mode check of the workspace,
  with a per-check ceiling. The YAML decoder and the BigQuery client are parameters. The point of the
  tool is that the query it prices is the query the engine later runs.
\<close>

section \<open>Rules as the dry run reads them\<close>

record ruleSource =
  dr_Type :: string
  dr_ProjectID :: string
  dr_DatasetID :: string
  dr_TableID :: string
  dr_PartitionColumn :: string

record ruleCheckDoc =
  dc_CheckID :: string
  dc_Kind :: string

record ruleDoc =
  dd_Version :: int
  dd_Entity :: string
  dd_Mode :: string
  dd_Source :: ruleSource
  dd_Checks :: "ruleCheckDoc list"

record Estimate =
  es_RulePath :: string
  es_Entity :: string
  es_CheckID :: string
  es_Kind :: string
  es_SQL :: string
  es_TotalBytesProcessed :: int

record SkipReason =
  sk_RulePath :: string
  sk_Entity :: string
  sk_Reason :: string

record DryReport =
  dy_Estimates :: "Estimate list"
  dy_Skipped :: "SkipReason list"
  dy_TotalBytesProcessed :: int

definition ErrCostCeilingExceeded :: goerr where "ErrCostCeilingExceeded = errors_New ''dryrun: cost ceiling exceeded''"
definition ErrCompileFailed :: goerr where "ErrCompileFailed = errors_New ''dryrun: compile failed''"

text \<open>
  A started job: its status right away and after reading, where \<open>None\<close> is a nil status and \<open>Some None\<close> a
  status without statistics, and what reading it gives, the error of \<^verbatim>\<open>Read\<close> or the one that ends the rows.
\<close>

record bq_job =
  bj_LastStatus :: "int option option"
  bj_Read :: "goerr result"
  bj_StatusAfterRead :: "int option option"

definition iterator_Done :: goerr where "iterator_Done = errors_New ''no more items in iterator''"

record dry_env =
  de_fs :: os
  de_decode :: "string \<Rightarrow> ruleDoc result"
  de_RunQuery :: "string \<Rightarrow> (string \<times> qparam) list \<Rightarrow> bq_job result"

record DryConfig =
  dcf_RulesDir :: string
  dcf_MaxBytesScannedPerRun :: int
  dcf_BigQueryClient :: bool

definition dry_New :: "DryConfig \<Rightarrow> DryConfig result" where
  "dry_New cfg =
    (if dcf_RulesDir cfg = [] then Inl (errors_New ''dryrun: RulesDir is required'')
     else if \<not> dcf_BigQueryClient cfg then Inl (errors_New ''dryrun: BigQueryClient is required'')
     else Inr cfg)"

section \<open>Estimating one check\<close>

text \<open>Midnight of 2026-01-01 and 2026-01-02, counted in days since the zero time.\<close>

definition dryRunPlaceholderStart :: time where "dryRunPlaceholderStart = 739616 * 24 * hour"
definition dryRunPlaceholderEnd :: time where "dryRunPlaceholderEnd = 739617 * 24 * hour"

definition containsWindowParams :: "string \<Rightarrow> bool" where
  "containsWindowParams sql \<longleftrightarrow> Contains sql ''@window_start'' \<and> Contains sql ''@window_end''"

definition compileSQL :: "string \<Rightarrow> ruleSource \<Rightarrow> string option" where
  "compileSQL kind src =
    (if kind = ''set.row_count_positive'' \<or> kind = ''set.row_count_within_baseline''
     then (let tableRef = dr_ProjectID src @ ''.'' @ dr_DatasetID src @ ''.'' @ dr_TableID src
           in if dr_PartitionColumn src = [] then Some (''SELECT COUNT(*) AS row_count FROM `'' @ tableRef @ ''`'')
              else Some (''SELECT COUNT(*) AS row_count FROM `'' @ tableRef @ ''` '' @ ''WHERE `'' @ dr_PartitionColumn src
                         @ ''` >= @window_start AND `'' @ dr_PartitionColumn src @ ''` < @window_end''))
     else None)"

definition dry_params :: "string \<Rightarrow> (string \<times> qparam) list" where
  "dry_params sql =
    (if containsWindowParams sql
     then [(''window_start'', PTime dryRunPlaceholderStart), (''window_end'', PTime dryRunPlaceholderEnd)] else [])"

definition statistics :: "int option option \<Rightarrow> int result" where
  "statistics status =
    (case status of
       None \<Rightarrow> Inl (errors_New ''dryrun: job status unavailable'')
     | Some None \<Rightarrow> Inl (errors_New ''dryrun: job statistics unavailable'')
     | Some (Some n) \<Rightarrow> Inr n)"

definition dryRun :: "dry_env \<Rightarrow> string \<Rightarrow> int result" where
  "dryRun env sql =
    (case de_RunQuery env sql (dry_params sql) of
       Inl e \<Rightarrow> Inl e
     | Inr job \<Rightarrow>
         (if bj_LastStatus job \<noteq> None then statistics (bj_LastStatus job)
          else case bj_Read job of
            Inl e \<Rightarrow> Inl e
          | Inr endErr \<Rightarrow> (if errors_Is endErr iterator_Done then statistics (bj_StatusAfterRead job) else Inl endErr)))"

section \<open>Walking the rules\<close>

definition skip_rule :: "string \<Rightarrow> string \<Rightarrow> string \<Rightarrow> DryReport \<Rightarrow> DryReport" where
  "skip_rule path entity reason rep =
    rep\<lparr>dy_Skipped := dy_Skipped rep @ [\<lparr>sk_RulePath = path, sk_Entity = entity, sk_Reason = reason\<rparr>]\<rparr>"

definition sprintf :: "string \<Rightarrow> farg list \<Rightarrow> string" where
  "sprintf f as = Error (Errorf f as)"

text \<open>The loop over the checks of one rule; the report is kept on an error.\<close>

fun estimate_checks :: "dry_env \<Rightarrow> int \<Rightarrow> string \<Rightarrow> ruleDoc \<Rightarrow> ruleCheckDoc list \<Rightarrow> DryReport \<Rightarrow> goerr option \<times> DryReport" where
  "estimate_checks env maxBytes path doc [] rep = (None, rep)"
| "estimate_checks env maxBytes path doc (c # cs) rep =
    (case compileSQL (dc_Kind c) (dd_Source doc) of
       None \<Rightarrow>
         estimate_checks env maxBytes path doc cs
           (skip_rule path (dd_Entity doc)
             (sprintf ''check %q kind %q has no compiler-side template yet (dryrun adds one when the runtime evaluator does)''
                [S (dc_CheckID c), S (dc_Kind c)]) rep)
     | Some sql \<Rightarrow>
         (case dryRun env sql of
            Inl e \<Rightarrow> (Some (Errorf ''%s entity %q check %q kind %q: dry-run %w''
                         [S path, S (dd_Entity doc), S (dc_CheckID c), S (dc_Kind c), W e]), rep)
          | Inr bytes \<Rightarrow>
              (let rep = rep\<lparr>dy_Estimates := dy_Estimates rep @ [\<lparr>es_RulePath = path, es_Entity = dd_Entity doc, es_CheckID = dc_CheckID c,
                               es_Kind = dc_Kind c, es_SQL = sql, es_TotalBytesProcessed = bytes\<rparr>],
                             dy_TotalBytesProcessed := wrap64 (dy_TotalBytesProcessed rep + bytes)\<rparr>
               in if maxBytes > 0 \<and> bytes > maxBytes
                  then (Some (Errorf ''%s entity %q check %q kind %q: estimated %d bytes exceeds MaxBytesScannedPerRun=%d: %w''
                          [S path, S (dd_Entity doc), S (dc_CheckID c), S (dc_Kind c), S (show_int bytes), S (show_int maxBytes),
                           W ErrCostCeilingExceeded]), rep)
                  else estimate_checks env maxBytes path doc cs rep)))"

definition handleRule :: "dry_env \<Rightarrow> int \<Rightarrow> string \<Rightarrow> string \<Rightarrow> DryReport \<Rightarrow> goerr option \<times> DryReport" where
  "handleRule env maxBytes path body rep =
    (case de_decode env body of
       Inl e \<Rightarrow> (Some (Errorf ''parse %s: %w'' [S path, W e]), rep)
     | Inr doc \<Rightarrow>
         (let src = dd_Source doc
          in if dd_Version doc < 2
             then (None, skip_rule path (dd_Entity doc)
                     (sprintf ''v%d schema has no source descriptor (dryrun requires v2+)'' [S (show_int (dd_Version doc))]) rep)
             else if dd_Mode doc \<noteq> ''set''
             then (None, skip_rule path (dd_Entity doc)
                     (sprintf ''mode=%q has no BigQuery query (dryrun handles set-mode bigquery sources today)'' [S (dd_Mode doc)]) rep)
             else if dr_Type src \<noteq> ''bigquery''
             then (None, skip_rule path (dd_Entity doc)
                     (sprintf ''source.type=%q (dryrun handles bigquery sources today)'' [S (dr_Type src)]) rep)
             else if dr_ProjectID src = [] \<or> dr_DatasetID src = [] \<or> dr_TableID src = []
             then (Some (Errorf ''%s entity %q: source descriptor missing project_id/dataset_id/table_id: %w''
                     [S path, S (dd_Entity doc), W ErrCompileFailed]), rep)
             else estimate_checks env maxBytes path doc (dd_Checks doc) rep))"

definition dry_visit :: "dry_env \<Rightarrow> int \<Rightarrow> string \<Rightarrow> DryReport \<Rightarrow> walk_act \<times> DryReport" where
  "dry_visit env maxBytes path rep =
    (case os_ReadFile (de_fs env) path of
       Inl e \<Rightarrow> (Fail (Errorf ''read %s: %w'' [S path, W e]), rep)
     | Inr body \<Rightarrow>
         (case handleRule env maxBytes path body rep of
            (Some e, rep) \<Rightarrow> (Fail e, rep)
          | (None, rep) \<Rightarrow> (Continue, rep)))"

definition dry_Run :: "dry_env \<Rightarrow> DryConfig \<Rightarrow> DryReport \<times> goerr option" where
  "dry_Run env cfg =
    (case WalkDir (de_fs env) (rule_walk metadata_file (dry_visit env (dcf_MaxBytesScannedPerRun cfg))) (dcf_RulesDir cfg)
            \<lparr>dy_Estimates = [], dy_Skipped = [], dy_TotalBytesProcessed = 0\<rparr> of
       (None, rep) \<Rightarrow> (rep, None)
     | (Some e, rep) \<Rightarrow>
         (rep, Some (if errors_Is e os_ErrNotExist then Errorf ''dryrun: rules dir %s does not exist'' [S (dcf_RulesDir cfg)] else e)))"

section \<open>dq-dryrun\<close>

record dry_flags =
  df_rules :: string
  df_project :: string
  df_max_bytes :: int

definition dry_exitUsage :: int where "dry_exitUsage = 64"
definition dry_exitVerificationFail :: int where "dry_exitVerificationFail = 1"
definition dry_exitOperationalFail :: int where "dry_exitOperationalFail = 2"

text \<open>The exit status, and the report printed before it on every path that ran the walk.\<close>

definition dry_main :: "dry_env \<Rightarrow> goerr option \<Rightarrow> dry_flags \<Rightarrow> int \<times> DryReport option" where
  "dry_main env clientErr f =
    (if df_project f = [] then (dry_exitUsage, None)
     else case clientErr of
       Some e \<Rightarrow> (dry_exitOperationalFail, None)
     | None \<Rightarrow>
         (case dry_New \<lparr>dcf_RulesDir = df_rules f, dcf_MaxBytesScannedPerRun = df_max_bytes f, dcf_BigQueryClient = True\<rparr> of
            Inl e \<Rightarrow> (dry_exitUsage, None)
          | Inr cfg \<Rightarrow>
              (case dry_Run env cfg of
                 (rep, None) \<Rightarrow> (0, Some rep)
               | (rep, Some e) \<Rightarrow>
                   (if errors_Is e ErrCostCeilingExceeded \<or> errors_Is e ErrCompileFailed
                    then (dry_exitVerificationFail, Some rep) else (dry_exitOperationalFail, Some rep)))))"

section \<open>The priced query is the query the engine runs\<close>

lemma Contains_iff: "Contains s p \<longleftrightarrow> (\<exists>u v. s = u @ p @ v)"
proof (induction s)
  case (Cons c s)
  have "(\<exists>u v. c # s = u @ p @ v) \<longleftrightarrow> (\<exists>v. c # s = p @ v) \<or> (\<exists>u v. s = u @ p @ v)"
    by (metis append_Cons append_Nil list.inject neq_Nil_conv)
  then show ?case using Cons by (auto simp: HasPrefix_iff_prefix prefix_def)
qed simp

lemma Contains_member: "Contains s p \<Longrightarrow> c \<in> set p \<Longrightarrow> c \<in> set s"
  by (auto simp: Contains_iff)

definition source_doc :: "RuleSource \<Rightarrow> ruleSource" where
  "source_doc s = \<lparr>dr_Type = rs_type s, dr_ProjectID = rs_project_id s, dr_DatasetID = rs_dataset_id s, dr_TableID = rs_table_id s,
     dr_PartitionColumn = rs_partition_column s\<rparr>"

lemma at_not_identifier: "bqIdentifierPattern v \<Longrightarrow> CHR ''@'' \<notin> set v"
  by (auto simp: bqIdentifierPattern_def matches_plus_def list_all_iff is_alnum_def is_digit_def is_lower_def is_upper_def)

lemma runtime_params:
  assumes "validateBQIdentifiers s = None"
  shows "containsWindowParams (rowCountPositiveSQL (table_ref s) (rs_partition_column s)) \<longleftrightarrow> rs_partition_column s \<noteq> []"
proof (cases "rs_partition_column s = []")
  case True
  have "CHR ''@'' \<notin> set (table_ref s)"
    using assms at_not_identifier by (auto simp: validateBQIdentifiers_def table_ref_def split: if_splits)
  then have "CHR ''@'' \<notin> set (rowCountPositiveSQL (table_ref s) (rs_partition_column s))"
    using True by (simp add: rowCountPositiveSQL_def)
  then show ?thesis using True Contains_member [of _ "''@window_start''" "CHR ''@''"] by (auto simp: containsWindowParams_def)
next
  case False
  let ?t = "table_ref s" and ?c = "rs_partition_column s"
  have sql: "rowCountPositiveSQL ?t ?c = (''SELECT COUNT(*) AS row_count FROM `'' @ ?t @ ''` WHERE `'' @ ?c @ ''` >= '') @ ''@window_start''
      @ ('' AND `'' @ ?c @ ''` < @window_end'')"
    "rowCountPositiveSQL ?t ?c = (''SELECT COUNT(*) AS row_count FROM `'' @ ?t @ ''` WHERE `'' @ ?c @ ''` >= @window_start AND `'' @ ?c @ ''` < '')
      @ ''@window_end'' @ []"
    using False by (simp_all add: rowCountPositiveSQL_def)
  show ?thesis unfolding containsWindowParams_def Contains_iff using sql False by blast
qed

text \<open>The trigger of the placeholder day.\<close>

definition placeholder_day :: "TriggerRequest \<Rightarrow> TriggerRequest" where
  "placeholder_day tr = tr\<lparr>tr_window_start := dryRunPlaceholderStart, tr_window_end := dryRunPlaceholderEnd\<rparr>"

text \<open>
  C38. For a source the engine accepts, the dry run prices a query the evaluator runs: the compiled template of both
  set-mode kinds is the evaluator's SQL; the parameters bound to it are, name by name and value by value, those
  the evaluator binds for a trigger over the placeholder day, so the estimate is what BigQuery reports for that day
  and no other; and the row-count check of any trigger takes its verdict from that SQL, with the trigger's own window
  as the parameters.
\<close>

theorem dryrun_prices_runtime_query:
  assumes "validateBQIdentifiers s = None" "rs_type s = ''bigquery''" "cs_source spec = Some s"
    and "kind \<in> {''set.row_count_positive'', ''set.row_count_within_baseline''}"
  shows "\<exists>sql. compileSQL kind (source_doc s) = Some sql \<and> dry_params sql = window_params s (placeholder_day trigger) \<and>
    (\<forall>job n. de_RunQuery env sql (window_params s (placeholder_day trigger)) = Inr job \<longrightarrow> bj_LastStatus job = Some (Some n) \<longrightarrow>
       dryRun env sql = Inr n) \<and>
    el_result (fst (evaluateRowCountPositive b e t spec trigger)) =
      (case b_count b t sql (window_params s trigger) of
         Inr (Inr n) \<Rightarrow> if 0 < n then ResultPass else ResultFail | _ \<Rightarrow> ResultError)"
proof (intro exI conjI)
  let ?sql = "rowCountPositiveSQL (table_ref s) (rs_partition_column s)"
  show "compileSQL kind (source_doc s) = Some ?sql"
    using assms(4) by (auto simp: compileSQL_def source_doc_def rowCountPositiveSQL_def table_ref_def Let_def)
  show ps: "dry_params ?sql = window_params s (placeholder_day trigger)"
    using runtime_params [OF assms(1)] by (simp add: dry_params_def window_params_def placeholder_day_def)
  show "\<forall>job n. de_RunQuery env ?sql (window_params s (placeholder_day trigger)) = Inr job \<longrightarrow> bj_LastStatus job = Some (Some n) \<longrightarrow>
      dryRun env ?sql = Inr n"
    by (simp add: dryRun_def ps statistics_def)
  show "el_result (fst (evaluateRowCountPositive b e t spec trigger)) =
      (case b_count b t ?sql (window_params s trigger) of
         Inr (Inr n) \<Rightarrow> if 0 < n then ResultPass else ResultFail | _ \<Rightarrow> ResultError)"
    using assms(1-3)
    by (auto simp: evaluateRowCountPositive_def eval_error_def rowCountPositiveThreshold_def Let_def split: sum.split)
qed

section \<open>The report and the ceiling\<close>

definition priced :: "dry_env \<Rightarrow> DryReport \<Rightarrow> bool" where
  "priced env rep \<longleftrightarrow> dy_TotalBytesProcessed rep = wrap64 (sum_list (map es_TotalBytesProcessed (dy_Estimates rep))) \<and>
    list_all (\<lambda>e. dryRun env (es_SQL e) = Inr (es_TotalBytesProcessed e)) (dy_Estimates rep)"

definition under_ceiling :: "int \<Rightarrow> Estimate list \<Rightarrow> bool" where
  "under_ceiling maxBytes es \<longleftrightarrow> maxBytes \<le> 0 \<or> list_all (\<lambda>e. es_TotalBytesProcessed e \<le> maxBytes) es"

text \<open>If a walk is stopped with an error, only the last estimate may exceed, and then the error is the ceiling's.\<close>

definition report_ok :: "dry_env \<Rightarrow> int \<Rightarrow> goerr option \<times> DryReport \<Rightarrow> bool" where
  "report_ok env maxBytes r \<longleftrightarrow> priced env (snd r) \<and>
    (under_ceiling maxBytes (dy_Estimates (snd r)) \<or>
     under_ceiling maxBytes (butlast (dy_Estimates (snd r))) \<and> (\<exists>e. fst r = Some e \<and> errors_Is e ErrCostCeilingExceeded \<and> \<not> errors_Is e os_ErrNotExist))"

lemma wrap64_add: "wrap64 (wrap64 x + y) = wrap64 (x + y)"
proof -
  have "wrap64 (wrap64 x + y) = ((x + 2 ^ 63) mod 2 ^ 64 + y) mod 2 ^ 64 - 2 ^ 63" by (simp add: wrap64_def)
  also have "\<dots> = wrap64 (x + y)" by (simp only: mod_add_left_eq) (simp add: wrap64_def algebra_simps)
  finally show ?thesis .
qed

lemma skip_rule_keeps [simp]:
  "priced env (skip_rule path entity reason rep) = priced env rep" "dy_Estimates (skip_rule path entity reason rep) = dy_Estimates rep"
  by (simp_all add: skip_rule_def priced_def)

lemma report_ok_start: "priced env rep \<Longrightarrow> under_ceiling maxBytes (dy_Estimates rep) \<Longrightarrow> report_ok env maxBytes (err, rep)"
  by (simp add: report_ok_def)

lemma estimate_checks_report:
  "priced env rep \<Longrightarrow> under_ceiling maxBytes (dy_Estimates rep) \<Longrightarrow> report_ok env maxBytes (estimate_checks env maxBytes path doc cs rep)"
proof (induction cs arbitrary: rep)
  case (Cons c cs)
  show ?case
  proof (cases "compileSQL (dc_Kind c) (dd_Source doc)")
    case None
    then show ?thesis using Cons by simp
  next
    case (Some sql)
    show ?thesis
    proof (cases "dryRun env sql")
      case (Inl e)
      then show ?thesis using Some Cons.prems by (simp add: report_ok_start)
    next
      case (Inr bytes)
      define rep' where "rep' = rep\<lparr>dy_Estimates := dy_Estimates rep @ [\<lparr>es_RulePath = path, es_Entity = dd_Entity doc, es_CheckID = dc_CheckID c,
          es_Kind = dc_Kind c, es_SQL = sql, es_TotalBytesProcessed = bytes\<rparr>],
        dy_TotalBytesProcessed := wrap64 (dy_TotalBytesProcessed rep + bytes)\<rparr>"
      have p: "priced env rep'" using Cons.prems(1) Inr by (simp add: priced_def rep'_def wrap64_add)
      show ?thesis
      proof (cases "maxBytes > 0 \<and> bytes > maxBytes")
        case True
        have "under_ceiling maxBytes (butlast (dy_Estimates rep'))" using Cons.prems(2) by (simp add: rep'_def)
        then show ?thesis using p True Some Inr by (simp add: report_ok_def rep'_def Let_def ErrCostCeilingExceeded_def os_ErrNotExist_def)
      next
        case False
        have "under_ceiling maxBytes (dy_Estimates rep')" using Cons.prems(2) False by (auto simp: rep'_def under_ceiling_def)
        from Cons.IH [OF p this] show ?thesis using False Some Inr by (auto simp: rep'_def Let_def)
      qed
    qed
  qed
qed (simp add: report_ok_start)

lemma handleRule_report:
  "priced env rep \<Longrightarrow> under_ceiling maxBytes (dy_Estimates rep) \<Longrightarrow> report_ok env maxBytes (handleRule env maxBytes path body rep)"
  by (auto simp: handleRule_def Let_def estimate_checks_report report_ok_start split: sum.split)

lemma handleRule_continues:
  assumes "report_ok env maxBytes (None, rep)"
  shows "priced env rep" "under_ceiling maxBytes (dy_Estimates rep)"
  using assms by (auto simp: report_ok_def)

lemma visit_files_report:
  "priced env rep \<Longrightarrow> under_ceiling maxBytes (dy_Estimates rep) \<Longrightarrow> report_ok env maxBytes (visit_files (dry_visit env maxBytes) ps rep)"
proof (induction ps arbitrary: rep)
  case (Cons p ps)
  show ?case
  proof (cases "os_ReadFile (de_fs env) p")
    case (Inl e)
    then show ?thesis using Cons.prems by (simp add: dry_visit_def report_ok_start)
  next
    case (Inr body)
    obtain err rep' where h: "handleRule env maxBytes p body rep = (err, rep')" by (rule prod.exhaust)
    have ok: "report_ok env maxBytes (err, rep')" using handleRule_report [OF Cons.prems, of p body] h by simp
    show ?thesis
    proof (cases err)
      case None
      then show ?thesis using Cons.IH [OF handleRule_continues] ok Inr h by (simp add: dry_visit_def)
    next
      case (Some e)
      then show ?thesis using ok Inr h by (simp add: dry_visit_def)
    qed
  qed
qed (simp add: report_ok_start)

lemma dry_visit_no_skip: "fst (dry_visit env maxBytes p rep) \<noteq> SkipDir"
  by (auto simp: dry_visit_def split: sum.split prod.split option.split)

lemma dry_Run_report:
  assumes "dry_Run env cfg = (rep, err)"
  shows "report_ok env (dcf_MaxBytesScannedPerRun cfg) (err, rep)"
proof -
  let ?files = "rule_files metadata_file (de_fs env) (dcf_RulesDir cfg)" and ?max = "dcf_MaxBytesScannedPerRun cfg"
  let ?v = "visit_files (dry_visit env ?max) (snd ?files) \<lparr>dy_Estimates = [], dy_Skipped = [], dy_TotalBytesProcessed = 0\<rparr>"
  have ok: "report_ok env ?max ?v" by (rule visit_files_report) (simp_all add: priced_def under_ceiling_def wrap64_def)
  have "snd ?v = rep" "fst ?v = Some e \<Longrightarrow> \<not> errors_Is e os_ErrNotExist \<Longrightarrow> err = Some e" for e
    using assms unfolding dry_Run_def rule_walk_visit [OF dry_visit_no_skip] by (auto split: prod.splits option.splits)
  with ok show ?thesis by (auto simp: report_ok_def)
qed

text \<open>
  C39. What \<^verbatim>\<open>dq-dryrun\<close> reports and how it exits: every estimate is the dry run's answer for its query and
  the total is their sum in wrapped 64-bit arithmetic; with a ceiling, exit status 0 means no estimate
  exceeds it, and otherwise at most the last estimate does, and then the status is 1.
\<close>

theorem dryrun_ceiling:
  assumes "dry_main env clientErr f = (st, Some rep)"
  shows "dy_TotalBytesProcessed rep = wrap64 (sum_list (map es_TotalBytesProcessed (dy_Estimates rep))) \<and>
    list_all (\<lambda>e. dryRun env (es_SQL e) = Inr (es_TotalBytesProcessed e)) (dy_Estimates rep) \<and>
    (if list_all (\<lambda>e. es_TotalBytesProcessed e \<le> df_max_bytes f) (dy_Estimates rep) \<or> df_max_bytes f \<le> 0 then True
     else st = dry_exitVerificationFail \<and> list_all (\<lambda>e. es_TotalBytesProcessed e \<le> df_max_bytes f) (butlast (dy_Estimates rep)))"
proof -
  define cfg where "cfg = \<lparr>dcf_RulesDir = df_rules f, dcf_MaxBytesScannedPerRun = df_max_bytes f, dcf_BigQueryClient = True\<rparr>"
  obtain err where run: "dry_Run env cfg = (rep, err)"
    and st: "\<And>e. err = Some e \<Longrightarrow> errors_Is e ErrCostCeilingExceeded \<Longrightarrow> st = dry_exitVerificationFail"
    using assms by (auto simp: dry_main_def dry_New_def cfg_def split: if_splits option.splits sum.splits prod.splits)
  have "report_ok env (df_max_bytes f) (err, rep)" using dry_Run_report [OF run] by (simp add: cfg_def)
  then show ?thesis using st by (auto simp: report_ok_def priced_def under_ceiling_def)
qed

section \<open>A small workspace\<close>

definition tiny_dry :: dry_env where
  "tiny_dry = \<lparr>de_fs = \<lparr>os_Stat = (\<lambda>p. Inr True), os_ReadFile = Inr, os_EvalSymlinks = Inr, os_Getwd = Inr ''/w'',
       os_tree = (\<lambda>p. Inr (Directory None [(''orders.yaml'', File)]))\<rparr>,
     de_decode = (\<lambda>b. Inr \<lparr>dd_Version = 2, dd_Entity = ''orders'', dd_Mode = ''set'',
       dd_Source = \<lparr>dr_Type = ''bigquery'', dr_ProjectID = ''p'', dr_DatasetID = ''d'', dr_TableID = ''t'', dr_PartitionColumn = ''day''\<rparr>,
       dd_Checks = [\<lparr>dc_CheckID = ''c'', dc_Kind = ''set.row_count_positive''\<rparr>]\<rparr>),
     de_RunQuery = (\<lambda>sql ps. Inr \<lparr>bj_LastStatus = Some (Some (if ps = [] then 1 else 10)), bj_Read = Inr iterator_Done, bj_StatusAfterRead = None\<rparr>)\<rparr>"

definition demo_partitioned :: CheckSpec where
  "demo_partitioned = demo_baseline_spec\<lparr>cs_kind := ''set.row_count_positive'', cs_source := Some (demo_table\<lparr>rs_partition_column := ''day''\<rparr>)\<rparr>"

theorem dryrun_prices_runtime_query_witness:
  "\<exists>sql. compileSQL ''set.row_count_positive'' (source_doc (demo_table\<lparr>rs_partition_column := ''day''\<rparr>)) = Some sql \<and>
     dry_params sql = [(''window_start'', PTime dryRunPlaceholderStart), (''window_end'', PTime dryRunPlaceholderEnd)] \<and>
     dryRun tiny_dry sql = Inr 10 \<and>
     el_result (fst (evaluateRowCountPositive (demo_backend 7) demo_eval_config 0 demo_partitioned demo_batch)) = ResultPass"
proof -
  let ?s = "demo_table\<lparr>rs_partition_column := ''day''\<rparr>"
  have ok: "validateBQIdentifiers ?s = None" "rs_type ?s = ''bigquery''" by code_simp+
  have src: "cs_source demo_partitioned = Some ?s" by (simp add: demo_partitioned_def)
  have kind: "''set.row_count_positive'' \<in> {''set.row_count_positive'', ''set.row_count_within_baseline''}" by simp
  show ?thesis
    using dryrun_prices_runtime_query [OF ok src kind, where env = tiny_dry and trigger = demo_batch and b = "demo_backend 7" and e = demo_eval_config and t = 0]
    by (auto simp: window_params_def placeholder_day_def demo_backend_def tiny_dry_def)
qed

definition tiny_dry_flags :: dry_flags where
  "tiny_dry_flags = \<lparr>df_rules = ''r'', df_project = ''p'', df_max_bytes = 5\<rparr>"

lemma tiny_dry_exceeds:
  "map_prod id (map_option (map es_TotalBytesProcessed \<circ> dy_Estimates)) (dry_main tiny_dry None tiny_dry_flags) = (1, Some [10])"
  by code_simp

theorem dryrun_ceiling_witness:
  "\<exists>rep. dry_main tiny_dry None tiny_dry_flags = (dry_exitVerificationFail, Some rep) \<and> dy_TotalBytesProcessed rep = 10"
proof -
  obtain st rep where run: "dry_main tiny_dry None tiny_dry_flags = (st, Some rep)" "st = 1"
    and es: "map es_TotalBytesProcessed (dy_Estimates rep) = [10]"
    using tiny_dry_exceeds by (cases "dry_main tiny_dry None tiny_dry_flags") auto
  have "wrap64 10 = 10" by (simp add: wrap64_def)
  then show ?thesis using dryrun_ceiling [OF run(1)] run es by (simp add: dry_exitVerificationFail_def)
qed

end
