(* ===== verification/Migrate.thy ===== *)
theory Migrate
  imports Dsl_Spec Go_Files
begin

text \<open>
  The schema migrator (\<^verbatim>\<open>tools/migrate\<close>): \<^verbatim>\<open>V1ToV2\<close> over the strict YAML decoder and the encoder, which are
  parameters, and the \<^verbatim>\<open>dq-migrate\<close> command over parsed flags.
\<close>

record BigQuerySource =
  bs_ProjectID :: string
  bs_DatasetID :: string
  bs_TableID :: string

definition Validate :: "BigQuerySource \<Rightarrow> goerr option" where
  "Validate s =
    (if bs_ProjectID s = [] then Some (errors_New ''BigQuerySource: project_id is required'')
     else if bs_DatasetID s = [] then Some (errors_New ''BigQuerySource: dataset_id is required'')
     else if bs_TableID s = [] then Some (errors_New ''BigQuerySource: table_id is required'')
     else None)"

record v1Check =
  v1c_CheckID :: string
  v1c_Kind :: string
  v1c_Description :: string
  v1c_Params :: "go_map option"

record v1Doc =
  v1_Version :: int
  v1_Entity :: string
  v1_Description :: string
  v1_Checks :: "v1Check list"

record v2Source =
  v2s_Type :: string
  v2s_ProjectID :: string
  v2s_DatasetID :: string
  v2s_TableID :: string

record v2Check =
  v2c_CheckID :: string
  v2c_Kind :: string
  v2c_Description :: string
  v2c_Params :: "go_map option"

record v2Doc =
  v2_Version :: int
  v2_Entity :: string
  v2_Mode :: string
  v2_Description :: string
  v2_Source :: v2Source
  v2_Checks :: "v2Check list"

text \<open>The decoder with \<^verbatim>\<open>KnownFields(true)\<close>; encoding, and closing the encoder after it.\<close>

record migrate_yaml =
  my_decode :: "string \<Rightarrow> v1Doc result"
  my_encode :: "v2Doc \<Rightarrow> string result"
  my_close :: "v2Doc \<Rightarrow> goerr option"

definition promoteKindToSetPrefix :: "string \<Rightarrow> string" where
  "promoteKindToSetPrefix kind = (if HasPrefix kind ''set.'' \<or> HasPrefix kind ''record.'' then kind else ''set.'' @ kind)"

fun migrate_checks :: "v1Check list \<Rightarrow> v2Check list result" where
  "migrate_checks [] = Inr []"
| "migrate_checks (c # cs) =
    (if v1c_CheckID c = [] \<or> v1c_Kind c = [] then Inl (Errorf ''V1ToV2: check %q has empty check_id or kind'' [S (v1c_CheckID c)])
     else map_sum id
       (\<lambda>out. \<lparr>v2c_CheckID = v1c_CheckID c, v2c_Kind = promoteKindToSetPrefix (v1c_Kind c), v2c_Description = v1c_Description c,
               v2c_Params = v1c_Params c\<rparr> # out) (migrate_checks cs))"

definition V1ToV2 :: "migrate_yaml \<Rightarrow> string \<Rightarrow> BigQuerySource \<Rightarrow> string result" where
  "V1ToV2 l rawV1 src =
    (case Validate src of
       Some e \<Rightarrow> Inl e
     | None \<Rightarrow>
         (case my_decode l rawV1 of
            Inl e \<Rightarrow> Inl (Errorf ''V1ToV2: parse v1 yaml: %w'' [W e])
          | Inr in' \<Rightarrow>
              (if v1_Version in' \<noteq> 1
               then Inl (Errorf ''V1ToV2: input declares version %d; want 1 (v2+ rules need no migration to v2)'' [S (show_int (v1_Version in'))])
               else if v1_Entity in' = [] then Inl (errors_New ''V1ToV2: input has empty entity'')
               else if v1_Checks in' = [] then Inl (errors_New ''V1ToV2: input has empty checks array (v2 schema requires at least one)'')
               else case migrate_checks (v1_Checks in') of
                 Inl e \<Rightarrow> Inl e
               | Inr checks \<Rightarrow>
                   (let out = \<lparr>v2_Version = 2, v2_Entity = v1_Entity in', v2_Mode = ''set'', v2_Description = v1_Description in',
                          v2_Source = \<lparr>v2s_Type = ''bigquery'', v2s_ProjectID = bs_ProjectID src, v2s_DatasetID = bs_DatasetID src,
                            v2s_TableID = bs_TableID src\<rparr>, v2_Checks = checks\<rparr>
                    in case my_encode l out of
                         Inl e \<Rightarrow> Inl (Errorf ''V1ToV2: emit v2 yaml: %w'' [W e])
                       | Inr buf \<Rightarrow>
                           (case my_close l out of
                              Some e \<Rightarrow> Inl (Errorf ''V1ToV2: close encoder: %w'' [W e])
                            | None \<Rightarrow> Inr buf)))))"

section \<open>dq-migrate\<close>

record migrate_flags =
  mf_from :: string
  mf_to :: string
  mf_source :: BigQuerySource
  mf_args :: "string list"

definition mig_exitOK :: int where "mig_exitOK = 0"
definition mig_exitMigrationFailed :: int where "mig_exitMigrationFailed = 1"
definition mig_exitOperationalError :: int where "mig_exitOperationalError = 2"
definition mig_exitUsage :: int where "mig_exitUsage = 64"

text \<open>
  \<^verbatim>\<open>writerFrom\<close>, the reader \<^verbatim>\<open>main\<close> hands to \<^verbatim>\<open>io.Copy\<close>: one \<^verbatim>\<open>Read\<close> into a buffer of \<open>n\<close> bytes, \<open>None\<close> for \<^verbatim>\<open>io.EOF\<close>; and the copy
  loop, which ends at \<^verbatim>\<open>io.EOF\<close>.
\<close>

record writerFrom =
  wf_data :: string
  wf_off :: nat

definition writerFrom_Read :: "nat \<Rightarrow> writerFrom \<Rightarrow> string option \<times> writerFrom" where
  "writerFrom_Read n w =
    (if length (wf_data w) \<le> wf_off w then (None, w)
     else let p = take n (drop (wf_off w) (wf_data w)) in (Some p, w\<lparr>wf_off := wf_off w + length p\<rparr>))"

function io_Copy :: "nat \<Rightarrow> writerFrom \<Rightarrow> string" where
  "io_Copy n w =
    (case writerFrom_Read (Suc n) w of
       (None, w) \<Rightarrow> []
     | (Some p, w) \<Rightarrow> p @ io_Copy n w)"
  by pat_completeness auto
termination
  by (relation "measure (\<lambda>(n, w). length (wf_data w) - wf_off w)") (auto simp: writerFrom_Read_def Let_def split: if_splits)

declare io_Copy.simps [simp del]

text \<open>With any buffer that is not empty the copy delivers exactly the rest of the data.\<close>

lemma io_Copy_all: "io_Copy n w = drop (wf_off w) (wf_data w)"
proof (induction n w rule: io_Copy.induct)
  case (1 n w)
  show ?case
  proof (cases "length (wf_data w) \<le> wf_off w")
    case True
    then show ?thesis by (subst io_Copy.simps) (simp add: writerFrom_Read_def)
  next
    case False
    let ?p = "take (Suc n) (drop (wf_off w) (wf_data w))"
    have rd: "writerFrom_Read (Suc n) w = (Some ?p, w\<lparr>wf_off := wf_off w + length ?p\<rparr>)"
      using False by (simp add: writerFrom_Read_def Let_def)
    have "io_Copy n (w\<lparr>wf_off := wf_off w + length ?p\<rparr>) = drop (length ?p) (drop (wf_off w) (wf_data w))"
      using 1 [OF rd [symmetric] refl] by (simp add: add.commute)
    moreover have "?p @ drop (length ?p) (drop (wf_off w) (wf_data w)) = drop (wf_off w) (wf_data w)"
      by (metis append_eq_conv_conj append_take_drop_id)
    ultimately show ?thesis unfolding io_Copy.simps [of n w] rd by (simp only: prod.case option.case)
  qed
qed

text \<open>The exit status and what reaches standard output; \<open>writeErr\<close> is the answer of the copy to it.\<close>

definition migrate_main :: "os \<Rightarrow> migrate_yaml \<Rightarrow> (string \<Rightarrow> goerr option) \<Rightarrow> migrate_flags \<Rightarrow> int \<times> string option" where
  "migrate_main fs l writeErr f =
    (if mf_from f \<noteq> ''v1'' \<or> mf_to f \<noteq> ''v2'' then (mig_exitUsage, None)
     else case mf_args f of
       [rulePath] \<Rightarrow>
         (if Validate (mf_source f) \<noteq> None then (mig_exitUsage, None)
          else case os_ReadFile fs rulePath of
            Inl e \<Rightarrow> (mig_exitOperationalError, None)
          | Inr raw \<Rightarrow>
              (case V1ToV2 l raw (mf_source f) of
                 Inl e \<Rightarrow> (mig_exitMigrationFailed, None)
               | Inr out \<Rightarrow> (if writeErr out \<noteq> None then (mig_exitOperationalError, None)
                               else (mig_exitOK, Some (io_Copy 32767 \<lparr>wf_data = out, wf_off = 0\<rparr>)))))
     | _ \<Rightarrow> (mig_exitUsage, None))"

section \<open>What the engine makes of a migrated rule\<close>

text \<open>
  The engine's view of an emitted document, its checks without their parameters: \<^verbatim>\<open>params\<close> is tagged \<^verbatim>\<open>omitempty\<close>, so an absent
  and an empty map are emitted alike, and a number may come back at another Go type.
\<close>

definition migrated_source :: "BigQuerySource \<Rightarrow> Source" where
  "migrated_source s = \<lparr>so_Type = ''bigquery'', so_ProjectID = bs_ProjectID s, so_DatasetID = bs_DatasetID s, so_TableID = bs_TableID s,
     so_PartitionColumn = [], so_Topic = [], so_ConsumerGroup = [], so_Window = None\<rparr>"

definition rule_of :: "v2Doc \<Rightarrow> RuleSpec" where
  "rule_of d = \<lparr>ru_Version = v2_Version d, ru_Entity = v2_Entity d, ru_Mode = v2_Mode d,
     ru_Source = Some \<lparr>so_Type = v2s_Type (v2_Source d), so_ProjectID = v2s_ProjectID (v2_Source d),
       so_DatasetID = v2s_DatasetID (v2_Source d), so_TableID = v2s_TableID (v2_Source d), so_PartitionColumn = [],
       so_Topic = [], so_ConsumerGroup = [], so_Window = None\<rparr>,
     ru_Description = v2_Description d,
     ru_Checks = map (\<lambda>c. \<lparr>ck_CheckID = v2c_CheckID c, ck_Kind = v2c_Kind c, ck_Description = v2c_Description c, ck_Params = None\<rparr>)
       (v2_Checks d)\<rparr>"

definition without_params :: "RuleSpec \<Rightarrow> RuleSpec" where
  "without_params r = r\<lparr>ru_Checks := map (\<lambda>c. c\<lparr>ck_Params := None\<rparr>) (ru_Checks r)\<rparr>"

text \<open>
  What is asked of the two YAML libraries: what the migrator's encoder emits for a document of version 2, the engine's decoder reads
  back as that document, up to the parameters.
\<close>

definition yaml_faithful :: "migrate_yaml \<Rightarrow> (string \<Rightarrow> RuleSpec result) \<Rightarrow> bool" where
  "yaml_faithful l decode \<longleftrightarrow>
    (\<forall>d b. v2_Version d = 2 \<longrightarrow> my_encode l d = Inr b \<longrightarrow> (\<exists>r. decode b = Inr r \<and> without_params r = rule_of d))"

text \<open>Of a rule of version 2 the parser looks at no parameter, so its verdict is its verdict on the rule without them.\<close>

lemma wf_rule_without_params: "ru_Version r = 2 \<Longrightarrow> wf_rule (without_params r) \<longleftrightarrow> wf_rule r"
  by (simp add: wf_rule_def without_params_def list_all_iff)

lemma without_params_simps [simp]:
  "ru_Entity (without_params r) = ru_Entity r" "ru_Description (without_params r) = ru_Description r"
  "ru_Source (without_params r) = ru_Source r" "ru_Version (without_params r) = ru_Version r" "ru_Mode (without_params r) = ru_Mode r"
  "map ck_CheckID (ru_Checks (without_params r)) = map ck_CheckID (ru_Checks r)"
  "map ck_Kind (ru_Checks (without_params r)) = map ck_Kind (ru_Checks r)"
  "map ck_Description (ru_Checks (without_params r)) = map ck_Description (ru_Checks r)"
  by (simp_all add: without_params_def)

lemma migrate_checks_Inr:
  "migrate_checks cs = Inr out \<Longrightarrow>
    list_all2 (\<lambda>c d. v2c_CheckID d = v1c_CheckID c \<and> v2c_Kind d = promoteKindToSetPrefix (v1c_Kind c) \<and> v2c_Description d = v1c_Description c)
      cs out"
  by (induction cs arbitrary: out) (auto simp: map_sum_def split: if_splits sum.splits)

definition simple_kind :: "string \<Rightarrow> bool" where
  "simple_kind k \<longleftrightarrow> matches_plus word_char (TrimPrefix k ''set.'')"

lemma dot_not_word: "matches_plus word_char name \<Longrightarrow> CHR ''.'' \<notin> set name"
  by (auto simp: matches_plus_def list_all_iff word_char_def is_alnum_def is_digit_def is_lower_def is_upper_def)

lemma promoted_kind:
  "(\<exists>name. promoteKindToSetPrefix k = ''set.'' @ name \<and> matches_plus word_char name) \<longleftrightarrow> simple_kind k"
proof (cases "HasPrefix k ''set.''")
  case True
  then obtain n where "k = ''set.'' @ n" by (auto simp: HasPrefix_iff_prefix prefix_def)
  then show ?thesis by (simp add: promoteKindToSetPrefix_def simple_kind_def TrimPrefix_def HasPrefix_def)
next
  case False
  then have t: "TrimPrefix k ''set.'' = k" by (simp add: TrimPrefix_def)
  show ?thesis
  proof (cases "HasPrefix k ''record.''")
    case True
    then have "CHR ''.'' \<in> set k" "hd k = CHR ''r''" "k \<noteq> []" by (auto simp: HasPrefix_iff_prefix prefix_def)
    then show ?thesis using True False t dot_not_word [of k]
      by (auto simp: promoteKindToSetPrefix_def simple_kind_def)
  next
    case False
    then show ?thesis using \<open>\<not> HasPrefix k ''set.''\<close> t by (simp add: promoteKindToSetPrefix_def simple_kind_def)
  qed
qed

lemma promoted_trim: "simple_kind k \<Longrightarrow> promoteKindToSetPrefix k = ''set.'' @ TrimPrefix k ''set.''"
  using promoted_kind [of k] by (auto simp: promoteKindToSetPrefix_def TrimPrefix_def HasPrefix_iff_prefix prefix_def split: if_splits)

lemma migrated_checks:
  assumes "migrate_checks cs = Inr out"
  shows "map v2c_CheckID out = map v1c_CheckID cs" "map v2c_Description out = map v1c_Description cs"
    "map v2c_Kind out = map (\<lambda>c. promoteKindToSetPrefix (v1c_Kind c)) cs"
  using migrate_checks_Inr [OF assms] by (auto simp: list_all2_conv_all_nth intro!: nth_equalityI)

definition migratable :: "v1Doc \<Rightarrow> BigQuerySource \<Rightarrow> bool" where
  "migratable v1 src \<longleftrightarrow>
    identifier_ok (v1_Entity v1) \<and> v2BigQueryProjectPattern (bs_ProjectID src) \<and> v2BigQueryDatasetPattern (bs_DatasetID src) \<and>
    v2BigQueryTablePattern (bs_TableID src) \<and> list_all (\<lambda>c. identifier_ok (v1c_CheckID c) \<and> simple_kind (v1c_Kind c)) (v1_Checks v1)"

lemma V1ToV2_Inr:
  assumes "V1ToV2 l raw src = Inr out" "my_decode l raw = Inr v1"
  obtains d where "my_encode l d = Inr out" "v2_Version d = 2" "v1_Checks v1 \<noteq> []" "migrate_checks (v1_Checks v1) = Inr (v2_Checks d)"
    "v2_Entity d = v1_Entity v1" "v2_Mode d = ''set''" "v2_Description d = v1_Description v1" "v2s_Type (v2_Source d) = ''bigquery''"
    "v2s_ProjectID (v2_Source d) = bs_ProjectID src" "v2s_DatasetID (v2_Source d) = bs_DatasetID src"
    "v2s_TableID (v2_Source d) = bs_TableID src"
proof -
  obtain checks where mc: "migrate_checks (v1_Checks v1) = Inr checks" and ne: "v1_Checks v1 \<noteq> []"
    and enc: "my_encode l \<lparr>v2_Version = 2, v2_Entity = v1_Entity v1, v2_Mode = ''set'', v2_Description = v1_Description v1,
        v2_Source = \<lparr>v2s_Type = ''bigquery'', v2s_ProjectID = bs_ProjectID src, v2s_DatasetID = bs_DatasetID src,
          v2s_TableID = bs_TableID src\<rparr>, v2_Checks = checks\<rparr> = Inr out"
    using assms by (auto simp: V1ToV2_def Let_def split: option.splits sum.splits if_splits)
  show thesis by (rule that [OF enc]) (simp_all add: mc ne)
qed

lemma migrated_wf:
  assumes "v2_Version d = 2" "v1_Checks v1 \<noteq> []" "migrate_checks (v1_Checks v1) = Inr (v2_Checks d)"
    "v2_Entity d = v1_Entity v1" "v2_Mode d = ''set''" "v2_Description d = v1_Description v1" "v2s_Type (v2_Source d) = ''bigquery''"
    "v2s_ProjectID (v2_Source d) = bs_ProjectID src" "v2s_DatasetID (v2_Source d) = bs_DatasetID src"
    "v2s_TableID (v2_Source d) = bs_TableID src"
  shows "wf_rule (rule_of d) \<longleftrightarrow> migratable v1 src"
proof -
  note rel = migrate_checks_Inr [OF assms(3)]
  have "list_all (\<lambda>d. identifier_ok (v2c_CheckID d) \<and> (\<exists>name. v2c_Kind d = ''set.'' @ name \<and> matches_plus word_char name)) (v2_Checks d) \<longleftrightarrow>
      list_all (\<lambda>c. identifier_ok (v1c_CheckID c) \<and> simple_kind (v1c_Kind c)) (v1_Checks v1)"
    using rel promoted_kind by (induction rule: list_all2_induct) auto
  moreover have "v2_Checks d \<noteq> []" using rel assms(2) by auto
  ultimately show ?thesis
    using assms
    by (auto simp: migratable_def rule_of_def wf_rule_def bigquery_ok_def kafka_ok_def SourceTypeBigQuery_def list_all_iff comp_def)
qed

text \<open>
  C40. A migrated rule and the engine: if the engine's decoder reads what the migrator's encoder emits back
  as the same document, parameters aside, the engine's parser accepts the output of \<^verbatim>\<open>V1ToV2\<close> exactly when
  the entity and the check identifiers are valid, the source flags match the BigQuery patterns, and every kind
  is a plain name, possibly already prefixed with \<^verbatim>\<open>set.\<close>. The accepted rule has the entity, description, check
  ids and check descriptions of the input in their order, each kind with the \<^verbatim>\<open>set.\<close> prefix, and the BigQuery
  source of the flags. Nothing is said of the parameters of the checks.
\<close>

theorem migrated_rule_accepted:
  assumes "V1ToV2 l raw src = Inr out" "my_decode l raw = Inr v1" "yaml_faithful l decode"
  shows "case Dsl_Spec.Parse decode out of
      Inl _ \<Rightarrow> \<not> migratable v1 src
    | Inr r \<Rightarrow> migratable v1 src \<and> ru_Entity r = v1_Entity v1 \<and> ru_Description r = v1_Description v1 \<and> ru_Mode r = ''set'' \<and>
        ru_Source r = Some (migrated_source src) \<and>
        map ck_CheckID (ru_Checks r) = map v1c_CheckID (v1_Checks v1) \<and>
        map ck_Kind (ru_Checks r) = map (\<lambda>c. ''set.'' @ TrimPrefix (v1c_Kind c) ''set.'') (v1_Checks v1) \<and>
        map ck_Description (ru_Checks r) = map v1c_Description (v1_Checks v1)"
proof -
  obtain d where d: "my_encode l d = Inr out" "v2_Version d = 2" "v1_Checks v1 \<noteq> []" "migrate_checks (v1_Checks v1) = Inr (v2_Checks d)"
    "v2_Entity d = v1_Entity v1" "v2_Mode d = ''set''" "v2_Description d = v1_Description v1" "v2s_Type (v2_Source d) = ''bigquery''"
    "v2s_ProjectID (v2_Source d) = bs_ProjectID src" "v2s_DatasetID (v2_Source d) = bs_DatasetID src"
    "v2s_TableID (v2_Source d) = bs_TableID src"
    using assms(1,2) by (rule V1ToV2_Inr)
  obtain r where r: "decode out = Inr r" "without_params r = rule_of d"
    using assms(3) d(1,2) by (auto simp: yaml_faithful_def)
  have v: "ru_Version r = 2" using r(2) d(2) by (auto simp: rule_of_def dest: arg_cong [where f = ru_Version])
  have "case Dsl_Spec.Parse decode out of Inl _ \<Rightarrow> \<not> migratable v1 src | Inr r' \<Rightarrow> r' = r \<and> migratable v1 src"
    using r wf_rule_without_params [OF v] migrated_wf [OF d(2-)] Parse_Inr [of decode out] by (auto split: sum.splits)
  moreover have "map ck_Kind (ru_Checks r) = map (\<lambda>c. ''set.'' @ TrimPrefix (v1c_Kind c) ''set.'') (v1_Checks v1)" if "migratable v1 src"
    using migrated_checks(3) [OF d(4)] that r(2) promoted_trim
    by (auto simp: migratable_def list_all_iff rule_of_def comp_def dest!: arg_cong [where f = "\<lambda>r. map ck_Kind (ru_Checks r)"])
  moreover have "map ck_CheckID (ru_Checks r) = map v1c_CheckID (v1_Checks v1)" "map ck_Description (ru_Checks r) = map v1c_Description (v1_Checks v1)"
    using migrated_checks(1,2) [OF d(4)] without_params_simps(6,8) [of r] unfolding r(2) by (simp_all add: rule_of_def comp_def)
  moreover have "ru_Entity r = v1_Entity v1" "ru_Description r = v1_Description v1" "ru_Mode r = ''set''" "ru_Source r = Some (migrated_source src)"
    using without_params_simps(1-5) [of r] d unfolding r(2) by (simp_all add: rule_of_def migrated_source_def)
  ultimately show ?thesis by (auto split: sum.splits)
qed

text \<open>An input the decoder rejects ends with status 1, as every failure of \<^verbatim>\<open>V1ToV2\<close> does.\<close>

lemma undecodable_exit:
  assumes "mf_from f = ''v1''" "mf_to f = ''v2''" "mf_args f = [path]" "Validate (mf_source f) = None" "os_ReadFile fs path = Inr raw"
    "my_decode l raw = Inl e"
  shows "migrate_main fs l writeErr f = (mig_exitMigrationFailed, None)"
  using assms by (simp add: migrate_main_def V1ToV2_def)

section \<open>A small rule\<close>

definition tiny_v1 :: v1Doc where
  "tiny_v1 = \<lparr>v1_Version = 1, v1_Entity = ''orders'', v1_Description = [],
     v1_Checks = [\<lparr>v1c_CheckID = ''c'', v1c_Kind = ''row_count_positive'', v1c_Description = [], v1c_Params = None\<rparr>]\<rparr>"

definition tiny_source :: BigQuerySource where
  "tiny_source = \<lparr>bs_ProjectID = ''p'', bs_DatasetID = ''d'', bs_TableID = ''t''\<rparr>"

text \<open>
  A wire format that meets the law: a document is the list of its strings, each character marked with \<open>a\<close>, each string ended with \<open>b\<close>.
\<close>

definition write_field :: "string \<Rightarrow> string" where
  "write_field s = concat (map (\<lambda>c. [CHR ''a'', c]) s) @ ''b''"

fun read_fields :: "string \<Rightarrow> string \<Rightarrow> string list" where
  "read_fields acc (m # rest) =
    (if m = CHR ''b'' then acc # read_fields [] rest
     else case rest of [] \<Rightarrow> [] | c # rest' \<Rightarrow> read_fields (acc @ [c]) rest')"
| "read_fields acc [] = []"

lemma read_write_field: "read_fields acc (write_field s @ rest) = (acc @ s) # read_fields [] rest"
  by (induction s arbitrary: acc) (simp_all add: write_field_def)

lemma read_write_fields: "read_fields [] (concat (map write_field ss)) = ss"
  by (induction ss) (simp_all add: read_write_field)

definition doc_fields :: "v2Doc \<Rightarrow> string list" where
  "doc_fields d = v2_Entity d # v2_Mode d # v2_Description d # v2s_Type (v2_Source d) # v2s_ProjectID (v2_Source d) #
     v2s_DatasetID (v2_Source d) # v2s_TableID (v2_Source d) #
     concat (map (\<lambda>c. [v2c_CheckID c, v2c_Kind c, v2c_Description c]) (v2_Checks d))"

fun field_checks :: "string list \<Rightarrow> Check list" where
  "field_checks (i # k # d # rest) = \<lparr>ck_CheckID = i, ck_Kind = k, ck_Description = d, ck_Params = None\<rparr> # field_checks rest"
| "field_checks _ = []"

fun field_rule :: "string list \<Rightarrow> RuleSpec result" where
  "field_rule (e # m # d # t # p # ds # tb # rest) = Inr \<lparr>ru_Version = 2, ru_Entity = e, ru_Mode = m,
     ru_Source = Some \<lparr>so_Type = t, so_ProjectID = p, so_DatasetID = ds, so_TableID = tb, so_PartitionColumn = [],
       so_Topic = [], so_ConsumerGroup = [], so_Window = None\<rparr>,
     ru_Description = d, ru_Checks = field_checks rest\<rparr>"
| "field_rule _ = Inl (errors_New ''short document'')"

lemma field_checks_doc:
  "field_checks (concat (map (\<lambda>c. [v2c_CheckID c, v2c_Kind c, v2c_Description c]) cs)) =
    map (\<lambda>c. \<lparr>ck_CheckID = v2c_CheckID c, ck_Kind = v2c_Kind c, ck_Description = v2c_Description c, ck_Params = None\<rparr>) cs"
  by (induction cs) simp_all

lemma field_rule_doc: "v2_Version d = 2 \<Longrightarrow> field_rule (doc_fields d) = Inr (rule_of d)"
  by (simp add: doc_fields_def rule_of_def field_checks_doc)

definition tiny_yaml :: migrate_yaml where
  "tiny_yaml = \<lparr>my_decode = (\<lambda>b. Inr tiny_v1), my_encode = (\<lambda>d. Inr (concat (map write_field (doc_fields d)))), my_close = (\<lambda>d. None)\<rparr>"

definition tiny_decode :: "string \<Rightarrow> RuleSpec result" where
  "tiny_decode b = field_rule (read_fields [] b)"

lemma tiny_faithful: "yaml_faithful tiny_yaml tiny_decode"
proof -
  have "without_params (rule_of d) = rule_of d" for d by (simp add: without_params_def rule_of_def)
  then show ?thesis by (auto simp: yaml_faithful_def tiny_yaml_def tiny_decode_def read_write_fields field_rule_doc)
qed

theorem migrated_rule_accepted_witness:
  "\<exists>out r. V1ToV2 tiny_yaml ''v1'' tiny_source = Inr out \<and> Dsl_Spec.Parse tiny_decode out = Inr r \<and>
    ru_Entity r = ''orders'' \<and> map ck_Kind (ru_Checks r) = [''set.row_count_positive''] \<and> ru_Source r = Some (migrated_source tiny_source)"
proof -
  obtain out where run: "V1ToV2 tiny_yaml ''v1'' tiny_source = Inr out"
    by (simp add: V1ToV2_def tiny_yaml_def tiny_v1_def tiny_source_def Validate_def)
  have dec: "my_decode tiny_yaml ''v1'' = Inr tiny_v1" by (simp add: tiny_yaml_def)
  have ok: "migratable tiny_v1 tiny_source" by code_simp
  have kinds: "map (\<lambda>c. ''set.'' @ TrimPrefix (v1c_Kind c) ''set.'') (v1_Checks tiny_v1) = [''set.row_count_positive'']" by code_simp
  show ?thesis
    using run ok kinds migrated_rule_accepted [OF run dec tiny_faithful] by (auto simp: tiny_v1_def split: sum.splits)
qed

end
