(* ===== verification/Trigger_Api.thy ===== *)
theory Trigger_Api
  imports Runner Loader
begin

text \<open>
  The HTTP trigger surface (\<^verbatim>\<open>engine/internal/api\<close>): the request decoder and its validation, the
  handler with its asynchronous dispatch, and the routes of the server.

  A handler call yields an outcome (a response, or a panic, which \<^verbatim>\<open>net/http\<close> turns into a dropped
  connection) and the goroutine it spawned, if any; the goroutine's body is \<open>dispatch\<close>. The JSON
  decoder is the parameter \<open>json\<close>; the clock, the identifier source and the manifest holder answer by
  tick.
\<close>

section \<open>Data\<close>

record TriggerHTTPRequest =
  hq_entity :: string
  hq_window_start :: string
  hq_window_end :: string
  hq_trigger_source :: string

record TriggerHTTPResponse =
  hp_execution_id :: string
  hp_attempt_id :: string
  hp_status :: string
  hp_accepted_at :: string
  hp_self :: string

record ErrorResponse =
  re_code :: string
  re_message :: string
  re_field :: string

definition ErrCodeUnknownField :: string where "ErrCodeUnknownField = ''UNKNOWN_FIELD''"
definition ErrCodeDecodeError :: string where "ErrCodeDecodeError = ''DECODE_ERROR''"
definition ErrCodeMissingField :: string where "ErrCodeMissingField = ''MISSING_FIELD''"
definition ErrCodeInvalidUTF8 :: string where "ErrCodeInvalidUTF8 = ''INVALID_UTF8''"
definition ErrCodePipeInInput :: string where "ErrCodePipeInInput = ''PIPE_IN_INPUT''"
definition ErrCodeInvalidFieldLength :: string where "ErrCodeInvalidFieldLength = ''INVALID_FIELD_LENGTH''"
definition ErrCodeInvalidWindowFormat :: string where "ErrCodeInvalidWindowFormat = ''INVALID_WINDOW_FORMAT''"
definition ErrCodeInvalidWindowOrder :: string where "ErrCodeInvalidWindowOrder = ''INVALID_WINDOW_ORDER''"
definition ErrCodeInvalidTriggerSrc :: string where "ErrCodeInvalidTriggerSrc = ''INVALID_TRIGGER_SOURCE''"
definition ErrCodeMethodNotAllowed :: string where "ErrCodeMethodNotAllowed = ''METHOD_NOT_ALLOWED''"
definition ErrCodeInternal :: string where "ErrCodeInternal = ''INTERNAL_ERROR''"
definition ErrCodeEntityNotInManifest :: string where "ErrCodeEntityNotInManifest = ''ENTITY_NOT_IN_MANIFEST''"
definition ErrCodeCheckResolutionFailed :: string where "ErrCodeCheckResolutionFailed = ''CHECK_RESOLUTION_FAILED''"

definition maxStringFieldLen :: nat where "maxStringFieldLen = 256"

section \<open>Decoding\<close>

text \<open>\<^verbatim>\<open>utf8.ValidString\<close> on the bytes of a string.\<close>

abbreviation cont_byte :: "nat \<Rightarrow> bool" where
  "cont_byte b \<equiv> 128 \<le> b \<and> b \<le> 191"

fun valid_utf8 :: "nat list \<Rightarrow> bool" where
  "valid_utf8 [] = True"
| "valid_utf8 (b0 # bs) =
    (if b0 < 128 then valid_utf8 bs
     else if 194 \<le> b0 \<and> b0 \<le> 223 then
       (case bs of b1 # r \<Rightarrow> cont_byte b1 \<and> valid_utf8 r | _ \<Rightarrow> False)
     else if 224 \<le> b0 \<and> b0 \<le> 239 then
       (case bs of b1 # b2 # r \<Rightarrow>
          (if b0 = 224 then 160 \<le> b1 \<and> b1 \<le> 191 else if b0 = 237 then 128 \<le> b1 \<and> b1 \<le> 159 else cont_byte b1)
          \<and> cont_byte b2 \<and> valid_utf8 r
        | _ \<Rightarrow> False)
     else if 240 \<le> b0 \<and> b0 \<le> 244 then
       (case bs of b1 # b2 # b3 # r \<Rightarrow>
          (if b0 = 240 then 144 \<le> b1 \<and> b1 \<le> 191 else if b0 = 244 then 128 \<le> b1 \<and> b1 \<le> 143 else cont_byte b1)
          \<and> cont_byte b2 \<and> cont_byte b3 \<and> valid_utf8 r
        | _ \<Rightarrow> False)
     else False)"

definition ValidString :: "string \<Rightarrow> bool" where
  "ValidString s = valid_utf8 (map of_char s)"

text \<open>\<^verbatim>\<open>^\d{4}-\d{2}-\d{2}T\d{2}:\d{2}:\d{2}Z$\<close>.\<close>

definition timestampPattern :: "string \<Rightarrow> bool" where
  "timestampPattern s \<longleftrightarrow>
    length s = 20 \<and> list_all (\<lambda>(p, c). if p = CHR ''d'' then is_digit c else c = p) (zip ''dddd-dd-ddTdd:dd:ddZ'' s)"

definition fieldErr :: "string \<Rightarrow> string \<Rightarrow> string \<Rightarrow> ErrorResponse option" where
  "fieldErr code field message = Some \<lparr>re_code = code, re_message = message, re_field = field\<rparr>"

definition exceeds :: "string \<Rightarrow> string" where
  "exceeds field = field @ '' exceeds '' @ show_nat maxStringFieldLen @ '' bytes''"

definition validate :: "TriggerHTTPRequest \<Rightarrow> ErrorResponse option" where
  "validate req =
    (if hq_entity req = [] then fieldErr ErrCodeMissingField ''entity'' ''entity is required''
     else if hq_window_start req = [] then fieldErr ErrCodeMissingField ''window_start'' ''window_start is required''
     else if hq_window_end req = [] then fieldErr ErrCodeMissingField ''window_end'' ''window_end is required''
     else if hq_trigger_source req = [] then fieldErr ErrCodeMissingField ''trigger_source'' ''trigger_source is required''
     else if \<not> ValidString (hq_entity req) then fieldErr ErrCodeInvalidUTF8 ''entity'' ''entity is not valid UTF-8''
     else if maxStringFieldLen < length (hq_entity req)
     then fieldErr ErrCodeInvalidFieldLength ''entity'' (exceeds ''entity'')
     else if maxStringFieldLen < length (hq_window_start req)
     then fieldErr ErrCodeInvalidFieldLength ''window_start'' (exceeds ''window_start'')
     else if maxStringFieldLen < length (hq_window_end req)
     then fieldErr ErrCodeInvalidFieldLength ''window_end'' (exceeds ''window_end'')
     else if maxStringFieldLen < length (hq_trigger_source req)
     then fieldErr ErrCodeInvalidFieldLength ''trigger_source'' (exceeds ''trigger_source'')
     else if ContainsRune (hq_entity req) (CHR ''|'')
     then fieldErr ErrCodePipeInInput ''entity'' ''entity contains forbidden ASCII pipe''
     else if \<not> timestampPattern (hq_window_start req)
     then fieldErr ErrCodeInvalidWindowFormat ''window_start''
            ''window_start must match YYYY-MM-DDTHH:MM:SSZ (Z-only RFC 3339 UTC)''
     else if \<not> timestampPattern (hq_window_end req)
     then fieldErr ErrCodeInvalidWindowFormat ''window_end''
            ''window_end must match YYYY-MM-DDTHH:MM:SSZ (Z-only RFC 3339 UTC)''
     else if \<not> Parse_or_zero (hq_window_start req) < Parse_or_zero (hq_window_end req)
     then fieldErr ErrCodeInvalidWindowOrder ''window_end'' ''window_end must be strictly after window_start''
     else if hq_trigger_source req = TriggerScheduler \<or> hq_trigger_source req = TriggerManual then None
     else if hq_trigger_source req = TriggerOperatorRerun
     then fieldErr ErrCodeInvalidTriggerSrc ''trigger_source''
            (''trigger_source operator-rerun is the Admin API path's exclusive source (ADR-0002 '' @ section_sign @ ''4)'')
     else fieldErr ErrCodeInvalidTriggerSrc ''trigger_source''
            (''trigger_source '' @ quote (hq_trigger_source req) @ '' is not a recognized enum value''))"

definition knownTriggerFields :: "string list" where
  "knownTriggerFields = [''entity'', ''window_start'', ''window_end'', ''trigger_source'']"

text \<open>The two passes of the JSON decoder: the top-level keys, and the typed request.\<close>

record json =
  json_keys :: "string \<Rightarrow> string list result"
  json_request :: "string \<Rightarrow> TriggerHTTPRequest result"

definition decode_error :: "string \<Rightarrow> ErrorResponse" where
  "decode_error msg = \<lparr>re_code = ErrCodeDecodeError, re_message = msg, re_field = []\<rparr>"

definition DecodeRequest :: "json \<Rightarrow> string result \<Rightarrow> ErrorResponse + TriggerHTTPRequest" where
  "DecodeRequest j body =
    (case body of
       Inl e \<Rightarrow> Inl (decode_error (Error e))
     | Inr raw \<Rightarrow>
         if TrimSpace raw = [] then Inl (decode_error ''empty request body'')
         else case json_keys j raw of
           Inl e \<Rightarrow> Inl (decode_error (Error e))
         | Inr ks \<Rightarrow>
             (case find (\<lambda>k. k \<notin> set knownTriggerFields) ks of
                Some k \<Rightarrow> Inl \<lparr>re_code = ErrCodeUnknownField, re_message = ''unknown field '' @ quote k, re_field = k\<rparr>
              | None \<Rightarrow>
                  (case json_request j raw of
                     Inl e \<Rightarrow> Inl (decode_error (Error e))
                   | Inr req \<Rightarrow> (case validate req of Some env \<Rightarrow> Inl env | None \<Rightarrow> Inr req))))"

text \<open>\<open>Inl\<close> is the panic with its message.\<close>

definition mustParseValidatedWindow :: "string \<Rightarrow> string + time" where
  "mustParseValidatedWindow s =
    (case Parse s of
       Inl e \<Rightarrow> Inl (''api: validated window timestamp failed to parse: '' @ quote s @ '' ('' @ Error e @ '') '' @ em_dash
                    @ '' timestampPattern and timestampLayout have diverged'')
     | Inr t \<Rightarrow> Inr t)"

section \<open>The handler\<close>

definition ErrEntityNotInManifest :: goerr where
  "ErrEntityNotInManifest = errors_New ''api: entity not in active manifest''"

text \<open>What a call of the \<^verbatim>\<open>Dispatcher\<close> does: it returns, or it panics with a value.\<close>

datatype dispatch_result = Returned "ExecutionRow result" | Panicked string

type_synonym Dispatcher = "TriggerRequest \<Rightarrow> world \<Rightarrow> dispatch_result \<times> world"
type_synonym ResolveChecksFunc = "nat \<Rightarrow> string \<Rightarrow> CheckSpec list result"

record Handler =
  ha_dispatcher :: Dispatcher
  ha_activeManifest :: "nat \<Rightarrow> LoadedManifest option"
  ha_resolveChecks :: "ResolveChecksFunc option"
  ha_attemptID :: "nat \<Rightarrow> string"
  ha_publisher :: bool

text \<open>\<open>hc_Publisher\<close> and \<open>ha_publisher\<close>: the real publisher, or \<^verbatim>\<open>NoopPublisher\<close>.\<close>

record HandlerConfig =
  hc_Dispatcher :: "Dispatcher option"
  hc_ActiveManifest :: "(nat \<Rightarrow> LoadedManifest option) option"
  hc_EngineCtx :: bool
  hc_ResolveChecks :: "ResolveChecksFunc option"
  hc_AttemptID :: "(nat \<Rightarrow> string) option"
  hc_Publisher :: bool

definition NewHandler :: "ext \<Rightarrow> HandlerConfig \<Rightarrow> Handler result" where
  "NewHandler x cfg =
    (case hc_Dispatcher cfg of
       None \<Rightarrow> Inl (errors_New ''api: Dispatcher is required'')
     | Some d \<Rightarrow>
         (case hc_ActiveManifest cfg of
            None \<Rightarrow> Inl (errors_New ''api: ActiveManifest is required'')
          | Some am \<Rightarrow>
              (if \<not> hc_EngineCtx cfg then Inl (errors_New ''api: EngineCtx is required'')
               else Inr \<lparr>ha_dispatcher = d, ha_activeManifest = am, ha_resolveChecks = hc_ResolveChecks cfg,
                         ha_attemptID = (case hc_AttemptID cfg of None \<Rightarrow> new_uuid x | Some f \<Rightarrow> f),
                         ha_publisher = hc_Publisher cfg\<rparr>)))"

datatype body = Accepted TriggerHTTPResponse | Rejected ErrorResponse | Status string

datatype outcome = Response int body | Panic string

record spawned =
  sp_execution_id :: string
  sp_attempt_id :: string
  sp_entity :: string
  sp_request :: TriggerRequest

definition plain_error :: "string \<Rightarrow> string \<Rightarrow> ErrorResponse" where
  "plain_error code msg = \<lparr>re_code = code, re_message = msg, re_field = []\<rparr>"

text \<open>The tail of \<^verbatim>\<open>HandleTrigger\<close>, from the resolution of the checks.\<close>

definition accept ::
  "ext \<Rightarrow> Handler \<Rightarrow> TriggerHTTPRequest \<Rightarrow> LoadedManifest \<Rightarrow> time \<Rightarrow> time \<Rightarrow> string \<Rightarrow> world
   \<Rightarrow> outcome \<times> spawned option \<times> world" where
  "accept x h req manifest windowStart windowEnd executionID w =
    (case (case ha_resolveChecks h of None \<Rightarrow> (Inr [], w) | Some f \<Rightarrow> (f (tick w) (hq_entity req), step w)) of
       (Inl resolveErr, w) \<Rightarrow>
         (if errors_Is resolveErr ErrEntityNotInManifest
          then (Response 404 (Rejected \<lparr>re_code = ErrCodeEntityNotInManifest,
                  re_message = ''no rule for entity '' @ quote (hq_entity req) @ '' in active manifest'',
                  re_field = ''entity''\<rparr>), None, w)
          else (Response 502 (Rejected (plain_error ErrCodeCheckResolutionFailed ''check resolution upstream failure'')), None, w))
     | (Inr checks, w) \<Rightarrow>
         (let attemptID = ha_attemptID h (tick w); w = step w; (acceptedAt, w) = now x w;
              runnerReq = \<lparr>tr_entity = hq_entity req, tr_window_start = windowStart, tr_window_end = windowEnd,
                tr_source = hq_trigger_source req, tr_supersedes = None, tr_checks = checks,
                tr_ruleset_version = mf_ruleset_version manifest, tr_attempt_id = Some attemptID,
                tr_records = [], tr_late_dropped = 0\<rparr>
          in (Response 200 (Accepted \<lparr>hp_execution_id = executionID, hp_attempt_id = attemptID, hp_status = StatusRunning,
                hp_accepted_at = Format (UTC acceptedAt), hp_self = ''/v1/executions/'' @ executionID\<rparr>),
              Some \<lparr>sp_execution_id = executionID, sp_attempt_id = attemptID, sp_entity = hq_entity req, sp_request = runnerReq\<rparr>, w)))"

definition HandleTrigger ::
  "ext \<Rightarrow> Handler \<Rightarrow> json \<Rightarrow> string \<Rightarrow> string result \<Rightarrow> world \<Rightarrow> outcome \<times> spawned option \<times> world" where
  "HandleTrigger x h j httpMethod httpBody w =
    (if httpMethod \<noteq> ''POST''
     then (Response 405 (Rejected (plain_error ErrCodeMethodNotAllowed
             (''method '' @ httpMethod @ '' not allowed on /v1/trigger; use POST''))), None, w)
     else case DecodeRequest j httpBody of
       Inl env \<Rightarrow> (Response 400 (Rejected env), None, w)
     | Inr req \<Rightarrow>
         (case ha_activeManifest h (tick w) of
            None \<Rightarrow> (Response 503 (Rejected (plain_error ErrCodeInternal ''active manifest is unavailable'')), None, step w)
          | Some manifest \<Rightarrow>
              (case mustParseValidatedWindow (hq_window_start req) of
                 Inl p \<Rightarrow> (Panic p, None, step w)
               | Inr windowStart \<Rightarrow>
                   (case mustParseValidatedWindow (hq_window_end req) of
                      Inl p \<Rightarrow> (Panic p, None, step w)
                    | Inr windowEnd \<Rightarrow>
                        (case Compute (mf_ruleset_version manifest) (hq_entity req) windowStart windowEnd (hq_trigger_source req) of
                           Inl e \<Rightarrow> (Response 500 (Rejected (plain_error ErrCodeInternal ''execution_id compute failed'')), None, step w)
                         | Inr executionID \<Rightarrow> accept x h req manifest windowStart windowEnd executionID (step w))))))"

text \<open>The goroutine: run the dispatcher; a panic is turned into one operational alert.\<close>

definition panic_event :: "spawned \<Rightarrow> string \<Rightarrow> time \<Rightarrow> Event" where
  "panic_event sp rec t =
    \<lparr>ev_execution_id = Some (sp_execution_id sp), ev_attempt_id = Some (sp_attempt_id sp), ev_entity = sp_entity sp,
     ev_check_id = None, ev_category = CategoryOperational, ev_severity = Some SeverityCritical,
     ev_source = SourceTriggerHandler, ev_result = None, ev_status = None, ev_recorded_at = t,
     ev_error_summary = Some (''trigger handler panic: '' @ rec)\<rparr>"

definition dispatch :: "ext \<Rightarrow> Handler \<Rightarrow> spawned \<Rightarrow> world \<Rightarrow> world" where
  "dispatch x h sp w =
    (case ha_dispatcher h (sp_request sp) w of
       (Returned _, w) \<Rightarrow> w
     | (Panicked rec, w) \<Rightarrow>
         (let (t, w) = now x w
          in if ha_publisher h then snd (Publish x (panic_event sp rec (UTC t)) w) else w))"

definition HandleHealthz :: outcome where
  "HandleHealthz = Response 200 (Status ''ok'')"

definition HandleReadyz :: outcome where
  "HandleReadyz = Response 200 (Status ''ready'')"

text \<open>The routes of the mux. A \<^verbatim>\<open>GET\<close> pattern also serves \<^verbatim>\<open>HEAD\<close>; a known path with another method is 405.\<close>

datatype route = RouteTrigger | RouteHealthz | RouteReadyz | RouteMetrics | RouteMethodNotAllowed | RouteNotFound

definition NewServer :: "bool \<Rightarrow> string \<Rightarrow> string \<Rightarrow> route" where
  "NewServer metricsHandler httpMethod path =
    (let get = (httpMethod = ''GET'' \<or> httpMethod = ''HEAD'')
     in if path = ''/v1/trigger'' then (if httpMethod = ''POST'' then RouteTrigger else RouteMethodNotAllowed)
        else if path = ''/healthz'' then (if get then RouteHealthz else RouteMethodNotAllowed)
        else if path = ''/readyz'' then (if get then RouteReadyz else RouteMethodNotAllowed)
        else if path = ''/metrics'' \<and> metricsHandler then (if get then RouteMetrics else RouteMethodNotAllowed)
        else RouteNotFound)"

text \<open>The listener's end, given the error of \<^verbatim>\<open>http.Server.ListenAndServe\<close>: a shutdown is not an error.\<close>

definition ErrServerClosed :: goerr where "ErrServerClosed = errors_New ''http: Server closed''"

definition ListenAndServe :: "goerr option \<Rightarrow> goerr option" where
  "ListenAndServe served = (case served of None \<Rightarrow> None | Some e \<Rightarrow> if \<not> errors_Is e ErrServerClosed then Some e else None)"

section \<open>What the decoder accepts\<close>

definition valid_request :: "TriggerHTTPRequest \<Rightarrow> bool" where
  "valid_request req \<longleftrightarrow>
    hq_entity req \<noteq> [] \<and> ValidString (hq_entity req) \<and> length (hq_entity req) \<le> maxStringFieldLen \<and>
    CHR ''|'' \<notin> set (hq_entity req) \<and> timestampPattern (hq_window_start req) \<and> timestampPattern (hq_window_end req) \<and>
    Parse_or_zero (hq_window_start req) < Parse_or_zero (hq_window_end req) \<and>
    hq_trigger_source req \<in> {TriggerScheduler, TriggerManual}"

lemma timestampPattern_length: "timestampPattern s \<Longrightarrow> length s = 20"
  by (simp add: timestampPattern_def)

lemma source_lengths: "length TriggerScheduler = 9" "length TriggerManual = 6"
  by (simp_all add: source_defs)

lemma source_nonempty [simp]: "[] \<noteq> TriggerScheduler" "[] \<noteq> TriggerManual" "TriggerScheduler \<noteq> []" "TriggerManual \<noteq> []"
  by (simp_all add: source_defs)

lemma fieldErr_None [simp]: "fieldErr c f m \<noteq> None"
  by (simp add: fieldErr_def)

lemma validate_None: "validate req = None \<longleftrightarrow> valid_request req"
proof -
  have "valid_request req \<Longrightarrow> length (hq_window_start req) = 20 \<and> length (hq_window_end req) = 20 \<and>
      length (hq_trigger_source req) \<in> {6, 9}"
    by (auto simp: valid_request_def timestampPattern_length source_lengths)
  then have "valid_request req \<Longrightarrow> validate req = None"
    unfolding validate_def valid_request_def maxStringFieldLen_def ContainsRune_def by auto
  moreover have "validate req = None \<Longrightarrow> valid_request req"
    unfolding validate_def valid_request_def ContainsRune_def by (auto split: if_splits)
  ultimately show ?thesis by blast
qed

lemma DecodeRequest_valid: "DecodeRequest j b = Inr req \<Longrightarrow> valid_request req"
  by (auto simp: DecodeRequest_def validate_None split: sum.splits if_splits option.splits)

text \<open>Twenty characters, one by one.\<close>

lemma length_20:
  assumes "length s = 20"
  obtains a b c d e f g h i j k l m n p q r t u v where "s = [a, b, c, d, e, f, g, h, i, j, k, l, m, n, p, q, r, t, u, v]"
  using assms by (auto simp: length_Suc_conv numeral_eq_Suc)

text \<open>A text of the accepted shape always has fields; it fails to parse only if they are out of range.\<close>

definition off_calendar :: "string \<Rightarrow> bool" where
  "off_calendar s = (case parse_fields s of None \<Rightarrow> False | Some f \<Rightarrow> \<not> in_range f)"

lemma Z_not_frac [simp]: "getfrac [CHR ''Z''] = (0, [CHR ''Z''])"
  by (simp add: getfrac_def)

lemma timestampPattern_fields:
  assumes "timestampPattern s"
  shows "parse_fields s \<noteq> None"
proof -
  obtain a b c d e f g h i j k l m n p q r t u v
    where s: "s = [a, b, c, d, e, f, g, h, i, j, k, l, m, n, p, q, r, t, u, v]"
    by (rule length_20 [OF timestampPattern_length [OF assms]])
  have "is_digit a" "is_digit b" "is_digit c" "is_digit d" "e = CHR ''-''" "is_digit f" "is_digit g" "h = CHR ''-''"
    "is_digit i" "is_digit j" "k = CHR ''T''" "is_digit l" "is_digit m" "n = CHR '':''" "is_digit p" "is_digit q"
    "r = CHR '':''" "is_digit t" "is_digit u" "v = CHR ''Z''"
    using assms unfolding timestampPattern_def s by simp_all
  then show ?thesis unfolding s parse_fields_def by (simp add: getyear_def getnum_def skip_def)
qed

lemma Parse_fails: "timestampPattern s \<Longrightarrow> isl (Parse s) \<longleftrightarrow> off_calendar s"
  using timestampPattern_fields [of s] by (auto simp: Parse_def off_calendar_def split: option.split)

lemma mustParse_isl [simp]: "isl (mustParseValidatedWindow s) \<longleftrightarrow> isl (Parse s)"
  by (simp add: mustParseValidatedWindow_def split: sum.split)

lemma mustParse_Inr: "mustParseValidatedWindow s = Inr t \<longleftrightarrow> Parse s = Inr t"
  by (simp add: mustParseValidatedWindow_def split: sum.split)

section \<open>Properties\<close>

lemma accept_no_panic: "fst (accept x h req m ws we i w) \<noteq> Panic p"
  by (auto simp: accept_def Let_def now_def split: sum.split option.split prod.splits)

text \<open>
  C25. The handler panics exactly on those requests its own decoder has accepted in which a window
  bound has the required shape but names no calendar instant (a thirteenth month, a thirtieth of
  February, hour 24, second 60): \<^verbatim>\<open>timestampPattern\<close> checks digits only, and \<^verbatim>\<open>validate\<close> discards the errors
  of \<^verbatim>\<open>time.Parse\<close>. No execution is spawned then.
\<close>

theorem HandleTrigger_panics_iff:
  "(\<exists>p. fst (HandleTrigger x h j httpMethod httpBody w) = Panic p) \<longleftrightarrow>
    httpMethod = ''POST'' \<and> ha_activeManifest h (tick w) \<noteq> None \<and>
    (\<exists>req. DecodeRequest j httpBody = Inr req \<and> (off_calendar (hq_window_start req) \<or> off_calendar (hq_window_end req)))"
proof (cases "httpMethod = ''POST'' \<and> ha_activeManifest h (tick w) \<noteq> None \<and> \<not> isl (DecodeRequest j httpBody)")
  case False
  then have "\<nexists>p. fst (HandleTrigger x h j httpMethod httpBody w) = Panic p"
    by (auto simp: HandleTrigger_def split: sum.split)
  then show ?thesis using False by auto
next
  case True
  then obtain req m where req: "DecodeRequest j httpBody = Inr req" "ha_activeManifest h (tick w) = Some m" "httpMethod = ''POST''"
    by (cases "DecodeRequest j httpBody") auto
  have off: "isl (Parse (hq_window_start req)) \<longleftrightarrow> off_calendar (hq_window_start req)"
    "isl (Parse (hq_window_end req)) \<longleftrightarrow> off_calendar (hq_window_end req)"
    using DecodeRequest_valid [OF req(1)] Parse_fails by (auto simp: valid_request_def)
  show ?thesis
  proof (cases "mustParseValidatedWindow (hq_window_start req)")
    case (Inl p)
    then have "off_calendar (hq_window_start req)" using off(1) mustParse_isl [of "hq_window_start req"] by simp
    then show ?thesis using req Inl by (simp add: HandleTrigger_def)
  next
    case ws: (Inr ws)
    then have n: "\<not> off_calendar (hq_window_start req)" using off(1) mustParse_isl [of "hq_window_start req"] by simp
    show ?thesis
    proof (cases "mustParseValidatedWindow (hq_window_end req)")
      case (Inl p)
      then have "off_calendar (hq_window_end req)" using off(2) mustParse_isl [of "hq_window_end req"] by simp
      then show ?thesis using req ws Inl by (simp add: HandleTrigger_def)
    next
      case we: (Inr we)
      then have "\<not> off_calendar (hq_window_end req)" using off(2) mustParse_isl [of "hq_window_end req"] by simp
      moreover have "fst (HandleTrigger x h j httpMethod httpBody w) \<noteq> Panic p" for p
        using req ws we accept_no_panic by (simp add: HandleTrigger_def split: sum.split)
      ultimately show ?thesis using n req by auto
    qed
  qed
qed

lemma HandleTrigger_accepted:
  assumes "HandleTrigger x h j httpMethod httpBody w = (out, Some sp, w')"
  obtains req m ws we checks a t where "httpMethod = ''POST''" "DecodeRequest j httpBody = Inr req" "ha_activeManifest h (tick w) = Some m"
    "Parse (hq_window_start req) = Inr ws" "Parse (hq_window_end req) = Inr we"
    "Compute (mf_ruleset_version m) (hq_entity req) ws we (hq_trigger_source req) = Inr (sp_execution_id sp)"
    "sp = \<lparr>sp_execution_id = sp_execution_id sp, sp_attempt_id = a, sp_entity = hq_entity req, sp_request =
       \<lparr>tr_entity = hq_entity req, tr_window_start = ws, tr_window_end = we, tr_source = hq_trigger_source req,
        tr_supersedes = None, tr_checks = checks, tr_ruleset_version = mf_ruleset_version m, tr_attempt_id = Some a,
        tr_records = [], tr_late_dropped = 0\<rparr>\<rparr>"
    "out = Response 200 (Accepted \<lparr>hp_execution_id = sp_execution_id sp, hp_attempt_id = a, hp_status = StatusRunning,
       hp_accepted_at = Format t, hp_self = ''/v1/executions/'' @ sp_execution_id sp\<rparr>)"
    "case ha_resolveChecks h of None \<Rightarrow> checks = [] | Some f \<Rightarrow> f (tick w + 1) (hq_entity req) = Inr checks"
proof -
  obtain req m ws we i where 1: "httpMethod = ''POST''" "DecodeRequest j httpBody = Inr req" "ha_activeManifest h (tick w) = Some m"
    "mustParseValidatedWindow (hq_window_start req) = Inr ws" "mustParseValidatedWindow (hq_window_end req) = Inr we"
    "Compute (mf_ruleset_version m) (hq_entity req) ws we (hq_trigger_source req) = Inr i"
    and acc: "accept x h req m ws we i (step w) = (out, Some sp, w')"
    using assms by (auto simp: HandleTrigger_def split: if_splits sum.splits option.splits)
  show thesis
  proof (cases "ha_resolveChecks h")
    case None
    then show thesis
      using acc by (intro that [OF 1(1-3)]) (use 1 in \<open>auto simp: accept_def Let_def now_def mustParse_Inr\<close>)
  next
    case (Some f)
    obtain checks where c: "f (tick w + 1) (hq_entity req) = Inr checks"
      using acc Some by (auto simp: accept_def split: sum.splits if_splits)
    show thesis
      using acc Some c by (intro that [OF 1(1-3)]) (use 1 in \<open>auto simp: accept_def Let_def now_def mustParse_Inr\<close>)
  qed
qed

lemma accept_frame:
  "executions (snd (snd (accept x h req m ws we i w))) = executions w \<and>
   check_results (snd (snd (accept x h req m ws we i w))) = check_results w \<and>
   published (snd (snd (accept x h req m ws we i w))) = published w \<and>
   (fst (snd (accept x h req m ws we i w)) = None \<longleftrightarrow> (\<forall>b. fst (accept x h req m ws we i w) \<noteq> Response 200 b))"
  by (auto simp: accept_def Let_def now_def split: sum.split option.split)

text \<open>An accepted request carries no superseded execution, a source the surface admits, and a minted attempt id.\<close>

lemma accepted_request:
  assumes "HandleTrigger x h j httpMethod httpBody w = (out, Some sp, w')"
  shows "tr_supersedes (sp_request sp) = None" "tr_source (sp_request sp) \<in> {TriggerScheduler, TriggerManual}"
    "\<exists>t. tr_attempt_id (sp_request sp) = Some (ha_attemptID h t)"
proof -
  obtain req m ws we i where req: "DecodeRequest j httpBody = Inr req" and acc: "accept x h req m ws we i (step w) = (out, Some sp, w')"
    using assms by (auto simp: HandleTrigger_def split: if_splits sum.splits option.splits)
  have "hq_trigger_source req \<in> {TriggerScheduler, TriggerManual}"
    using DecodeRequest_valid [OF req] by (simp add: valid_request_def)
  with acc show "tr_supersedes (sp_request sp) = None" "tr_source (sp_request sp) \<in> {TriggerScheduler, TriggerManual}"
    "\<exists>t. tr_attempt_id (sp_request sp) = Some (ha_attemptID h t)"
    by (auto simp: accept_def now_def Let_def split: option.splits sum.splits if_splits)
qed

lemma accepted_valid:
  assumes "HandleTrigger x h j httpMethod httpBody w = (out, Some s, w')"
  shows "validateTrigger (sp_request s) = None"
  using assms
proof (cases rule: HandleTrigger_accepted)
  case (1 req m ws we checks a t)
  have v: "valid_request req" by (rule DecodeRequest_valid [OF 1(2)])
  then have "ws < we" using 1(4,5) by (simp add: valid_request_def Parse_or_zero_def)
  moreover have "sp_request s = \<lparr>tr_entity = hq_entity req, tr_window_start = ws, tr_window_end = we, tr_source = hq_trigger_source req,
    tr_supersedes = None, tr_checks = checks, tr_ruleset_version = mf_ruleset_version m, tr_attempt_id = Some a,
    tr_records = [], tr_late_dropped = 0\<rparr>" using arg_cong [OF 1(7), of sp_request] by simp
  ultimately show ?thesis using v by (auto simp: validateTrigger_def valid_request_def source_defs)
qed

text \<open>
  C23. The handler itself writes no row and no alert. It spawns an execution exactly when it answers
  200, and then the spawned trigger carries the request's entity, window and source, the ruleset
  version of the manifest active at acceptance and the checks resolved for the entity; the execution
  and attempt identifiers in the response are the ones of the spawned trigger, and the runner's own
  validation accepts it.
\<close>

theorem HandleTrigger_accepts:
  "case HandleTrigger x h j httpMethod httpBody w of (out, sp, w') \<Rightarrow>
    executions w' = executions w \<and> check_results w' = check_results w \<and> published w' = published w \<and>
    (case sp of
       None \<Rightarrow> (\<forall>b. out \<noteq> Response 200 b)
     | Some s \<Rightarrow> (\<exists>req m resp. DecodeRequest j httpBody = Inr req \<and> ha_activeManifest h (tick w) = Some m \<and>
         out = Response 200 (Accepted resp) \<and> hp_status resp = StatusRunning \<and>
         hp_execution_id resp = sp_execution_id s \<and> tr_attempt_id (sp_request s) = Some (hp_attempt_id resp) \<and>
         tr_entity (sp_request s) = hq_entity req \<and> tr_source (sp_request s) = hq_trigger_source req \<and>
         Parse (hq_window_start req) = Inr (tr_window_start (sp_request s)) \<and>
         Parse (hq_window_end req) = Inr (tr_window_end (sp_request s)) \<and>
         tr_ruleset_version (sp_request s) = mf_ruleset_version m \<and>
         Compute (mf_ruleset_version m) (hq_entity req) (tr_window_start (sp_request s)) (tr_window_end (sp_request s))
           (hq_trigger_source req) = Inr (sp_execution_id s) \<and>
         (case ha_resolveChecks h of None \<Rightarrow> tr_checks (sp_request s) = []
          | Some f \<Rightarrow> f (tick w + 1) (hq_entity req) = Inr (tr_checks (sp_request s))) \<and>
         validateTrigger (sp_request s) = None))"
proof -
  obtain out sp w' where H: "HandleTrigger x h j httpMethod httpBody w = (out, sp, w')" by (metis prod_cases3)
  have frame: "executions w' = executions w \<and> check_results w' = check_results w \<and> published w' = published w \<and>
      (sp = None \<longleftrightarrow> (\<forall>b. out \<noteq> Response 200 b))"
    using H accept_frame [of x h _ _ _ _ _ "step w"]
    by (auto simp: HandleTrigger_def split: if_splits sum.splits option.splits) (metis fst_conv snd_conv step_simps(2-4))+
  show ?thesis
  proof (cases sp)
    case None
    then show ?thesis using H frame by simp
  next
    case (Some s)
    from H [unfolded Some] show ?thesis
    proof (cases rule: HandleTrigger_accepted)
      case (1 req m ws we checks a t)
      have req: "sp_request s = \<lparr>tr_entity = hq_entity req, tr_window_start = ws, tr_window_end = we, tr_source = hq_trigger_source req,
        tr_supersedes = None, tr_checks = checks, tr_ruleset_version = mf_ruleset_version m, tr_attempt_id = Some a,
        tr_records = [], tr_late_dropped = 0\<rparr>" using arg_cong [OF 1(7), of sp_request] by simp
      have val: "validateTrigger (sp_request s) = None" using H Some accepted_valid by blast
      have rc: "case ha_resolveChecks h of None \<Rightarrow> tr_checks (sp_request s) = []
          | Some f \<Rightarrow> f (tick w + 1) (hq_entity req) = Inr (tr_checks (sp_request s))" using 1(9) req by (simp split: option.splits)
      show ?thesis using H Some frame 1 req val rc by simp
    qed
  qed
qed

text \<open>
  C24. The identifiers returned to the client are those of the row the runner persists: whenever the
  spawned attempt runs and returns a row, that row is in the table under the execution id and attempt
  id of the 200 response, for every manifest with a ruleset version.
\<close>

theorem accepted_ids_persisted:
  assumes "HandleTrigger x h j httpMethod httpBody w = (Response 200 (Accepted resp), Some sp, w1)"
    and "tr_ruleset_version (sp_request sp) \<noteq> []" "Run x r (sp_request sp) w2 = (Inr row, w3)" "put_durable x"
  shows "toExecutionRecord row \<in> set (executions w3) \<and> er_execution_id row = hp_execution_id resp \<and>
    er_attempt_id row = hp_attempt_id resp \<and> er_ruleset_version row = tr_ruleset_version (sp_request sp)"
  using assms(1)
proof (cases rule: HandleTrigger_accepted)
  case (1 req m ws we checks a t)
  have req: "sp_request sp = \<lparr>tr_entity = hq_entity req, tr_window_start = ws, tr_window_end = we, tr_source = hq_trigger_source req,
      tr_supersedes = None, tr_checks = checks, tr_ruleset_version = mf_ruleset_version m, tr_attempt_id = Some a,
      tr_records = [], tr_late_dropped = 0\<rparr>" using arg_cong [OF 1(7), of sp_request] by simp
  have eff: "effective r (sp_request sp) = sp_request sp" using assms(2) by (simp add: effective_def)
  have att: "attempt_of r (sp_request sp) w2 = a" by (simp add: attempt_of_def req)
  have id: "trigger_id r (sp_request sp) = Inr (sp_execution_id sp)" using 1(6) eff req by (simp add: trigger_id_def Let_def)
  obtain i where v: "validateTrigger (sp_request sp) = None" "trigger_id r (sp_request sp) = Inr i"
    using assms(3) by (auto intro: Run_valid [of x r "sp_request sp" w2 row])
  from assms(3) v(1) id obtain fmt d s msg u where f: "finish fmt x r d (sp_execution_id sp) (attempt_of r (sp_request sp) w2)
      (UTC (clock x (tick w2 + mint_ticks (sp_request sp)))) (effective r (sp_request sp)) s msg u = (Inr row, w3)"
    by (rule Run_finishes)
  have "er_attempt_id row = a \<and> er_ruleset_version row = tr_ruleset_version (sp_request sp)"
    using f [unfolded eff att] by (cases rule: finish_cases) (simp_all add: terminal_row_def)
  then show ?thesis using finish_returns [OF f assms(4)] 1(8) by simp
qed

section \<open>Instances\<close>

text \<open>A handler wired to the runner, and a request decoder that yields one request.\<close>

definition api_manifest :: LoadedManifest where
  "api_manifest = \<lparr>mf_manifest_version = 1, mf_ruleset_version = ''r1'', mf_schema_versions_present = [1],
     mf_engine_compatibility = ''*'', mf_linter_used = ''l'', mf_generated_at = 0, mf_rules = [], mf_Hash = ''h''\<rparr>"

definition api_handler :: Handler where
  "api_handler = \<lparr>ha_dispatcher = (\<lambda>tr w. case Run quiet (demo_runner True) tr w of (r, w) \<Rightarrow> (Returned r, w)),
     ha_activeManifest = (\<lambda>t. Some api_manifest), ha_resolveChecks = Some (\<lambda>t e. Inr [demo_check ''a'']),
     ha_attemptID = (\<lambda>t. ''attempt''), ha_publisher = True\<rparr>"

definition api_json :: "string \<Rightarrow> string \<Rightarrow> json" where
  "api_json ws we = \<lparr>json_keys = (\<lambda>b. Inr knownTriggerFields),
     json_request = (\<lambda>b. Inr \<lparr>hq_entity = ''orders'', hq_window_start = ws, hq_window_end = we, hq_trigger_source = TriggerManual\<rparr>)\<rparr>"

lemma orders_valid: "ValidString ''orders''"
  by (simp add: ValidString_def)

lemma api_decode:
  assumes "timestampPattern ws" "timestampPattern we" "Parse_or_zero ws < Parse_or_zero we"
  shows "DecodeRequest (api_json ws we) (Inr ''{}'') =
    Inr \<lparr>hq_entity = ''orders'', hq_window_start = ws, hq_window_end = we, hq_trigger_source = TriggerManual\<rparr>"
proof -
  have "validate \<lparr>hq_entity = ''orders'', hq_window_start = ws, hq_window_end = we, hq_trigger_source = TriggerManual\<rparr> = None"
    unfolding validate_None valid_request_def using assms orders_valid by (simp add: maxStringFieldLen_def)
  then show ?thesis
    by (simp add: DecodeRequest_def api_json_def TrimSpace_def is_space_def find_None_iff [THEN iffD2])
qed

abbreviation month_13 :: string where "month_13 \<equiv> ''2026-13-01T00:00:00Z''"
abbreviation jan_1 :: string where "jan_1 \<equiv> ''2026-01-01T00:00:00Z''"
abbreviation jan_2 :: string where "jan_2 \<equiv> ''2026-01-02T00:00:00Z''"

lemma api_times:
  "timestampPattern month_13" "timestampPattern jan_1" "timestampPattern jan_2"
  "off_calendar month_13" "Parse_or_zero month_13 < Parse_or_zero jan_1" "Parse_or_zero jan_1 < Parse_or_zero jan_2"
  by code_simp+

text \<open>
  A concrete request that passes validation and crashes the handler: window start in month 13.
\<close>

theorem HandleTrigger_panic_reachable:
  "\<exists>p. fst (HandleTrigger quiet api_handler (api_json month_13 jan_1) ''POST'' (Inr ''{}'') empty_world) = Panic p"
  unfolding HandleTrigger_panics_iff
  by (simp add: api_decode api_times api_handler_def)

lemma jan_parses: "Parse jan_1 = Inr (Parse_or_zero jan_1)" "Parse jan_2 = Inr (Parse_or_zero jan_2)"
  by code_simp+

definition api_id :: string where
  "api_id = sha256_hex (identity_string ''r1'' ''orders'' (Parse_or_zero jan_1) (Parse_or_zero jan_2) TriggerManual)"

definition api_trigger :: TriggerRequest where
  "api_trigger = \<lparr>tr_entity = ''orders'', tr_window_start = Parse_or_zero jan_1, tr_window_end = Parse_or_zero jan_2,
     tr_source = TriggerManual, tr_supersedes = None, tr_checks = [demo_check ''a''], tr_ruleset_version = ''r1'',
     tr_attempt_id = Some ''attempt'', tr_records = [], tr_late_dropped = 0\<rparr>"

lemma api_accepts:
  "\<exists>w'. HandleTrigger quiet api_handler (api_json jan_1 jan_2) ''POST'' (Inr ''{}'') empty_world =
    (Response 200 (Accepted \<lparr>hp_execution_id = api_id, hp_attempt_id = ''attempt'', hp_status = StatusRunning,
       hp_accepted_at = Format 3000, hp_self = ''/v1/executions/'' @ api_id\<rparr>),
     Some \<lparr>sp_execution_id = api_id, sp_attempt_id = ''attempt'', sp_entity = ''orders'', sp_request = api_trigger\<rparr>, w')"
proof -
  have "Compute ''r1'' ''orders'' (Parse_or_zero jan_1) (Parse_or_zero jan_2) TriggerManual = Inr api_id"
    by (simp add: Compute_Inr_iff api_id_def source_defs)
  then show ?thesis
    unfolding HandleTrigger_def api_decode [OF api_times(2,3,6)] mustParseValidatedWindow_def
    by (simp add: api_handler_def jan_parses accept_def api_manifest_def now_def api_trigger_def Let_def)
qed

lemma api_run: "\<exists>row w'. Run quiet (demo_runner False) api_trigger empty_world = (Inr row, w')"
proof -
  have v: "validateTrigger api_trigger = None"
    using api_times(6) by (simp add: validateTrigger_def api_trigger_def source_defs)
  have i: "trigger_id (demo_runner False) api_trigger = Inr api_id"
    by (simp add: trigger_id_def effective_def api_trigger_def Compute_Inr_iff api_id_def source_defs Let_def)
  show ?thesis by (simp add: Run_eq [OF v i] Let_def finish_def)
qed

theorem accepted_ids_persisted_witness:
  "\<exists>row w'. Run quiet (demo_runner False) api_trigger empty_world = (Inr row, w') \<and>
    toExecutionRecord row \<in> set (executions w') \<and> er_execution_id row = api_id \<and> er_attempt_id row = ''attempt''"
proof -
  obtain w1 where H: "HandleTrigger quiet api_handler (api_json jan_1 jan_2) ''POST'' (Inr ''{}'') empty_world =
    (Response 200 (Accepted \<lparr>hp_execution_id = api_id, hp_attempt_id = ''attempt'', hp_status = StatusRunning,
       hp_accepted_at = Format 3000, hp_self = ''/v1/executions/'' @ api_id\<rparr>),
     Some \<lparr>sp_execution_id = api_id, sp_attempt_id = ''attempt'', sp_entity = ''orders'', sp_request = api_trigger\<rparr>, w1)"
    using api_accepts by blast
  obtain row w' where run: "Run quiet (demo_runner False) api_trigger empty_world = (Inr row, w')" using api_run by blast
  have "tr_ruleset_version api_trigger \<noteq> []" by (simp add: api_trigger_def)
  then show ?thesis using accepted_ids_persisted [OF H _ _ quiet_laws(2)] run by simp
qed

end
