(* ===== verification/Record_Runner.thy ===== *)
theory Record_Runner
  imports Runner
begin

text \<open>
  The record-mode runner, \<^verbatim>\<open>engine/internal/runner/record_runner.go\<close> and the commit path of
  \<^verbatim>\<open>kafka_consumer.go\<close>: tumbling windows over an event stream, one trigger per closed window, offsets
  committed after a successful dispatch.

  The runner is single-threaded. Its state is the per-entity window state, the engine's \<open>world\<close>
  and the trace of the calls it made on its two interfaces (dispatcher and consumer), in order,
  with the waits between commit attempts.
\<close>

section \<open>Data\<close>

record RecordSource =
  so_entity :: string
  so_topic :: string
  so_consumer_group :: string
  so_window_duration :: duration
  so_lateness_tolerance :: duration
  so_checks :: "CheckSpec list"

record FetchedRecord =
  fr_topic :: string
  fr_partition :: int
  fr_offset :: int
  fr_timestamp :: time
  fr_body :: string

record recordWindow =
  wi_start :: time
  wi_end :: time
  wi_records :: "Record list"
  wi_fetched :: "FetchedRecord list"

record entityState =
  es_source :: RecordSource
  es_watermark :: time
  es_active :: "recordWindow option"
  es_late_dropped :: int

text \<open>
  The interfaces the runner is given: the consumer's \<^verbatim>\<open>PollFetches\<close> and \<^verbatim>\<open>Commit\<close>, the dispatcher's
  \<^verbatim>\<open>Run\<close>, and the draw \<^verbatim>\<open>time.Duration(rand.Float64() * float64(windowMax))\<close>.
\<close>

record RecordRunner =
  rr_poll :: "world \<Rightarrow> FetchedRecord list result \<times> world"
  rr_commit :: "FetchedRecord list \<Rightarrow> world \<Rightarrow> goerr option \<times> world"
  rr_run :: "TriggerRequest \<Rightarrow> world \<Rightarrow> ExecutionRow result \<times> world"
  rr_jitter :: "nat \<Rightarrow> duration \<Rightarrow> duration"
  rr_ruleset_version :: string
  rr_sources :: "string \<rightharpoonup> RecordSource"

datatype call =
    Dispatched TriggerRequest "goerr option"
  | Committed "FetchedRecord list" "goerr option"
  | Waited duration

record rr_state =
  st_entities :: "string \<rightharpoonup> entityState"
  st_world :: world
  st_calls :: "call list"

definition recordCommitMaxAttempts :: nat where
  "recordCommitMaxAttempts = 3"

definition recordCommitBackoffBase :: duration where
  "recordCommitBackoffBase = 100 * millisecond"

definition recordCommitRetryOutcomeSuccessAfterRetry :: string where
  "recordCommitRetryOutcomeSuccessAfterRetry = ''success_after_retry''"

definition recordCommitRetryOutcomeExhausted :: string where
  "recordCommitRetryOutcomeExhausted = ''exhausted''"

section \<open>Construction\<close>

record RecordRunnerConfig =
  rc_consumer :: "((world \<Rightarrow> FetchedRecord list result \<times> world) \<times> (FetchedRecord list \<Rightarrow> world \<Rightarrow> goerr option \<times> world)) option"
  rc_sources :: "RecordSource list"
  rc_dispatcher :: "(TriggerRequest \<Rightarrow> world \<Rightarrow> ExecutionRow result \<times> world) option"
  rc_ruleset_version :: string

text \<open>The loop over \<^verbatim>\<open>cfg.Sources\<close>, filling both maps; a later source replaces an equal key.\<close>

fun add_sources ::
  "RecordSource list \<Rightarrow> (string \<rightharpoonup> RecordSource) \<Rightarrow> (string \<rightharpoonup> entityState)
   \<Rightarrow> ((string \<rightharpoonup> RecordSource) \<times> (string \<rightharpoonup> entityState)) result" where
  "add_sources [] sources state = Inr (sources, state)"
| "add_sources (src # srcs) sources state =
    (if so_topic src = [] then Inl (errors_New ''record runner: source.Topic is required'')
     else if so_window_duration src \<le> 0
     then Inl (Errorf ''record runner: source %q WindowDuration must be > 0'' [S (so_entity src)])
     else add_sources srcs (sources(so_topic src \<mapsto> src))
            (state(so_entity src \<mapsto> \<lparr>es_source = src, es_watermark = 0, es_active = None, es_late_dropped = 0\<rparr>)))"

definition NewRecordRunner ::
  "(nat \<Rightarrow> duration \<Rightarrow> duration) \<Rightarrow> RecordRunnerConfig \<Rightarrow> (RecordRunner \<times> (string \<rightharpoonup> entityState)) result" where
  "NewRecordRunner jitter cfg =
    (case rc_consumer cfg of
       None \<Rightarrow> Inl (errors_New ''record runner: Consumer is required'')
     | Some (poll, commit) \<Rightarrow>
         (case rc_dispatcher cfg of
            None \<Rightarrow> Inl (errors_New ''record runner: Dispatcher is required'')
          | Some run \<Rightarrow>
              (if rc_ruleset_version cfg = [] then Inl (errors_New ''record runner: RulesetVersion is required'')
               else case add_sources (rc_sources cfg) Map.empty Map.empty of
                 Inl e \<Rightarrow> Inl e
               | Inr (sources, state) \<Rightarrow>
                   Inr (\<lparr>rr_poll = poll, rr_commit = commit, rr_run = run, rr_jitter = jitter,
                         rr_ruleset_version = rc_ruleset_version cfg, rr_sources = sources\<rparr>, state))))"

section \<open>Committing\<close>

definition commitEntity :: "RecordRunner \<Rightarrow> FetchedRecord list \<Rightarrow> string" where
  "commitEntity r records =
    (case records of
       [] \<Rightarrow> []
     | f # _ \<Rightarrow> (case rr_sources r (fr_topic f) of Some src \<Rightarrow> so_entity src | None \<Rightarrow> []))"

definition log_call :: "call \<Rightarrow> rr_state \<Rightarrow> rr_state" where
  "log_call c st = st\<lparr>st_calls := st_calls st @ [c]\<rparr>"

text \<open>
  The attempt loop. \<open>ctx_err\<close> at the tick of the wait says which branch of the \<^verbatim>\<open>select\<close> fired:
  cancellation, or the timer.
\<close>

function commit_attempts ::
  "ext \<Rightarrow> RecordRunner \<Rightarrow> string \<Rightarrow> FetchedRecord list \<Rightarrow> nat \<Rightarrow> goerr option \<Rightarrow> rr_state \<Rightarrow> goerr option \<times> rr_state" where
  "commit_attempts x r entity records attempt lastErr st =
    (if recordCommitMaxAttempts < attempt then (lastErr, st)
     else
       (let (start, w) = now x (st_world st);
            (err, w) = rr_commit r records w;
            (end, w) = now x w;
            w = sample [Observe ''dq_record_commit_duration_seconds'' [entity] (Seconds (Sub end start))] w
        in case err of
             None \<Rightarrow>
               (None, log_call (Committed records None)
                  (st\<lparr>st_world := (if 1 < attempt
                      then sample [Inc ''dq_record_commit_retries_total'' [entity, recordCommitRetryOutcomeSuccessAfterRetry]] w
                      else w)\<rparr>))
           | Some e \<Rightarrow>
               (if attempt = recordCommitMaxAttempts
                then (Some e, log_call (Committed records (Some e))
                        (st\<lparr>st_world := sample [Inc ''dq_record_commit_retries_total'' [entity, recordCommitRetryOutcomeExhausted]] w\<rparr>))
                else
                  (let windowMax = recordCommitBackoffBase * 2 ^ attempt;
                       delay = rr_jitter r (tick w) windowMax;
                       st = log_call (Committed records (Some e)) (st\<lparr>st_world := step w\<rparr>)
                   in case ctx_err x (tick w) of
                        Some c \<Rightarrow> (Some c, st)
                      | None \<Rightarrow> commit_attempts x r entity records (attempt + 1) (Some e) (log_call (Waited delay) st)))))"
  by pat_completeness auto
termination
  by (relation "measure (\<lambda>(x, r, entity, records, attempt, lastErr, st). Suc recordCommitMaxAttempts - attempt)")
    (auto simp: recordCommitMaxAttempts_def)

declare commit_attempts.simps [simp del]

definition commitWithRetry :: "ext \<Rightarrow> RecordRunner \<Rightarrow> FetchedRecord list \<Rightarrow> rr_state \<Rightarrow> goerr option \<times> rr_state" where
  "commitWithRetry x r records st = commit_attempts x r (commitEntity r records) records 1 None st"

section \<open>Windows\<close>

definition window_trigger :: "RecordRunner \<Rightarrow> entityState \<Rightarrow> recordWindow \<Rightarrow> TriggerRequest" where
  "window_trigger r es w =
    \<lparr>tr_entity = so_entity (es_source es), tr_window_start = wi_start w, tr_window_end = wi_end w,
     tr_source = TriggerScheduler, tr_supersedes = None, tr_checks = so_checks (es_source es),
     tr_ruleset_version = rr_ruleset_version r, tr_attempt_id = None, tr_records = wi_records w,
     tr_late_dropped = es_late_dropped es\<rparr>"

text \<open>\<^verbatim>\<open>state\<close> is a pointer into the entity map: the updated value is returned and stored by the caller.\<close>

definition closeAndDispatch :: "ext \<Rightarrow> RecordRunner \<Rightarrow> entityState \<Rightarrow> rr_state \<Rightarrow> entityState \<times> rr_state" where
  "closeAndDispatch x r es st =
    (case es_active es of
       None \<Rightarrow> (es, st)
     | Some w \<Rightarrow>
         (let trigger = window_trigger r es w;
              (res, wd) = rr_run r trigger (st_world st);
              closed = es\<lparr>es_active := None, es_late_dropped := 0\<rparr>
          in case res of
               Inl e \<Rightarrow> (closed, log_call (Dispatched trigger (Some e)) (st\<lparr>st_world := wd\<rparr>))
             | Inr _ \<Rightarrow>
                 (let (err, st) = commitWithRetry x r (wi_fetched w)
                                    (log_call (Dispatched trigger None) (st\<lparr>st_world := wd\<rparr>));
                      st = (case err of
                              None \<Rightarrow> st
                            | Some e \<Rightarrow>
                                (if \<not> errors_Is e context_Canceled \<and> \<not> errors_Is e context_DeadlineExceeded
                                 then st\<lparr>st_world := sample [Inc ''dq_record_commit_failures_total'' [so_entity (es_source es)]] (st_world st)\<rparr>
                                 else st))
                  in (closed, st))))"

definition to_record :: "FetchedRecord \<Rightarrow> Record" where
  "to_record f = \<lparr>rc_partition = fr_partition f, rc_offset = fr_offset f, rc_timestamp = fr_timestamp f, rc_body = fr_body f\<rparr>"

definition append_record :: "FetchedRecord \<Rightarrow> recordWindow \<Rightarrow> recordWindow" where
  "append_record f w = w\<lparr>wi_records := wi_records w @ [to_record f], wi_fetched := wi_fetched w @ [f]\<rparr>"

definition handleFetched :: "ext \<Rightarrow> RecordRunner \<Rightarrow> FetchedRecord \<Rightarrow> rr_state \<Rightarrow> rr_state" where
  "handleFetched x r f st =
    (case rr_sources r (fr_topic f) of
       None \<Rightarrow> st
     | Some src \<Rightarrow>
         (case st_entities st (so_entity src) of
            None \<Rightarrow> st
          | Some es \<Rightarrow>
              (let es = (if es_watermark es < fr_timestamp f then es\<lparr>es_watermark := fr_timestamp f\<rparr> else es);
                   windowStart = Truncate (fr_timestamp f) (so_window_duration src);
                   windowEnd = windowStart + so_window_duration src;
                   fresh = \<lparr>wi_start = windowStart, wi_end = windowEnd, wi_records = [], wi_fetched = []\<rparr>;
                   active = (case es_active es of None \<Rightarrow> fresh | Some a \<Rightarrow> a);
                   es = es\<lparr>es_active := Some active\<rparr>
               in if windowStart < wi_start active
                  then st\<lparr>st_entities := (st_entities st)(so_entity src \<mapsto> es\<lparr>es_late_dropped := es_late_dropped es + 1\<rparr>)\<rparr>
                  else
                    (let (es, st) =
                           (if wi_start active < windowStart
                            then (if wi_end active + so_lateness_tolerance src < es_watermark es
                                  then (case closeAndDispatch x r es st of (es, st) \<Rightarrow> (es\<lparr>es_active := Some fresh\<rparr>, st))
                                  else (case closeAndDispatch x r es st of (es, st) \<Rightarrow> (es\<lparr>es_active := Some fresh\<rparr>, st)))
                            else (es, st));
                         active = append_record f (case es_active es of Some a \<Rightarrow> a | None \<Rightarrow> fresh);
                         es = es\<lparr>es_active := Some active\<rparr>;
                         (es, st) = (if wi_end active + so_lateness_tolerance src < es_watermark es
                                     then closeAndDispatch x r es st else (es, st))
                     in st\<lparr>st_entities := (st_entities st)(so_entity src \<mapsto> es)\<rparr>))))"

section \<open>The poll loop\<close>

text \<open>
  \<^verbatim>\<open>Start\<close>, one unit of \<open>fuel\<close> per iteration; \<open>None\<close> when the fuel runs out before the loop ends. The
  first component is the error returned, which is always nil.
\<close>

fun Start :: "nat \<Rightarrow> ext \<Rightarrow> RecordRunner \<Rightarrow> rr_state \<Rightarrow> (goerr option \<times> rr_state) option" where
  "Start 0 x r st = None"
| "Start (Suc fuel) x r st =
    (let w = st_world st; st = st\<lparr>st_world := step w\<rparr>
     in if ctx_err x (tick w) \<noteq> None then Some (None, st)
        else
          (let (batch, w) = rr_poll r (st_world st); st = st\<lparr>st_world := w\<rparr>
           in case batch of
                Inl e \<Rightarrow>
                  (if errors_Is e context_Canceled \<or> errors_Is e context_DeadlineExceeded then Some (None, st)
                   else if ctx_err x (tick w) \<noteq> None then Some (None, st\<lparr>st_world := step w\<rparr>)
                   else Start fuel x r (st\<lparr>st_world := step w\<rparr>))
              | Inr fs \<Rightarrow> Start fuel x r (fold (handleFetched x r) fs st)))"

section \<open>The Kafka consumer\<close>

text \<open>
  \<^verbatim>\<open>FranzConsumer\<close>: \<open>poll\<close> is the client's \<^verbatim>\<open>PollFetches\<close> with \<^verbatim>\<open>Err0\<close>, \<open>flush\<close> is
  \<^verbatim>\<open>MarkCommitRecords\<close> followed by \<^verbatim>\<open>CommitMarkedOffsets\<close> on topic, partition and offset. What the broker makes of
  the marked offsets is the client's business; no statement below depends on it.
\<close>

definition PollFetches :: "(nat \<Rightarrow> goerr option \<times> FetchedRecord list) \<Rightarrow> world \<Rightarrow> FetchedRecord list result \<times> world" where
  "PollFetches poll w =
    ((case poll (tick w) of
        (Some e, _) \<Rightarrow> Inl (Errorf ''kafka poll: %w'' [W e])
      | (None, recs) \<Rightarrow> Inr recs), step w)"

definition Commit :: "(nat \<Rightarrow> (string \<times> int \<times> int) list \<Rightarrow> goerr option) \<Rightarrow> FetchedRecord list \<Rightarrow> world \<Rightarrow> goerr option \<times> world" where
  "Commit flush records w =
    (if records = [] then (None, w)
     else (case flush (tick w) (map (\<lambda>f. (fr_topic f, fr_partition f, fr_offset f)) records) of
             Some e \<Rightarrow> (Some (Errorf ''kafka commit: %w'' [W e]), step w)
           | None \<Rightarrow> (None, step w)))"

record FranzConsumerConfig =
  fc_brokers :: "string list"
  fc_consumer_group :: string
  fc_topics :: "string list"

text \<open>\<open>new_client\<close> is the error of \<^verbatim>\<open>kgo.NewClient\<close>.\<close>

definition NewFranzConsumer :: "(FranzConsumerConfig \<Rightarrow> goerr option) \<Rightarrow> FranzConsumerConfig \<Rightarrow> FranzConsumerConfig result" where
  "NewFranzConsumer new_client cfg =
    (if fc_brokers cfg = [] then Inl (errors_New ''franz consumer: Brokers is required'')
     else if fc_consumer_group cfg = [] then Inl (errors_New ''franz consumer: ConsumerGroup is required'')
     else if fc_topics cfg = [] then Inl (errors_New ''franz consumer: Topics is required'')
     else case new_client cfg of
       Some e \<Rightarrow> Inl (Errorf ''franz consumer: create client: %w'' [W e])
     | None \<Rightarrow> Inr cfg)"

section \<open>The commit protocol: lemmas\<close>

fun commits :: "call list \<Rightarrow> (FetchedRecord list \<times> goerr option) list" where
  "commits [] = []"
| "commits (Committed recs e # cs) = (recs, e) # commits cs"
| "commits (c # cs) = commits cs"

fun waited :: "call list \<Rightarrow> duration" where
  "waited [] = 0"
| "waited (Waited d # cs) = d + waited cs"
| "waited (c # cs) = waited cs"

fun dispatches :: "call list \<Rightarrow> (TriggerRequest \<times> goerr option) list" where
  "dispatches [] = []"
| "dispatches (Dispatched tr e # cs) = (tr, e) # dispatches cs"
| "dispatches (c # cs) = dispatches cs"

lemma calls_append [simp]:
  "commits (cs @ ds) = commits cs @ commits ds"
  "waited (cs @ ds) = waited cs + waited ds"
  "dispatches (cs @ ds) = dispatches cs @ dispatches ds"
  by (induction cs rule: commits.induct) auto

lemma log_call_simps [simp]:
  "st_calls (log_call c st) = st_calls st @ [c]" "st_entities (log_call c st) = st_entities st"
  "st_world (log_call c st) = st_world st"
  by (simp_all add: log_call_def)

definition jitter_bounded :: "RecordRunner \<Rightarrow> bool" where
  "jitter_bounded r \<longleftrightarrow> (\<forall>t m. 0 \<le> m \<longrightarrow> 0 \<le> rr_jitter r t m \<and> rr_jitter r t m \<le> m)"

text \<open>The calls of one run of the attempt loop from attempt number \<open>n\<close>.\<close>

definition attempts_ok :: "RecordRunner \<Rightarrow> FetchedRecord list \<Rightarrow> nat \<Rightarrow> goerr option \<Rightarrow> call list \<Rightarrow> bool" where
  "attempts_ok r recs n err cs \<longleftrightarrow>
    dispatches cs = [] \<and> (\<forall>c \<in> set (commits cs). fst c = recs)
    \<and> (\<forall>c \<in> set (butlast (commits cs)). snd c \<noteq> None)
    \<and> length (commits cs) + n \<le> Suc recordCommitMaxAttempts \<and> commits cs \<noteq> []
    \<and> (err = None \<longleftrightarrow> snd (last (commits cs)) = None)
    \<and> (jitter_bounded r \<longrightarrow> waited cs \<le> recordCommitBackoffBase * (2 ^ recordCommitMaxAttempts - 2 ^ n))"

lemma commit_attempts_calls:
  assumes "commit_attempts x r ent recs n le st = (err, st')" "n \<le> recordCommitMaxAttempts"
  shows "st_entities st' = st_entities st \<and> (\<exists>cs. st_calls st' = st_calls st @ cs \<and> attempts_ok r recs n err cs)"
  using assms
proof (induction "recordCommitMaxAttempts - n" arbitrary: n le st rule: less_induct)
  case less
  obtain e w where com: "rr_commit r recs (step (st_world st)) = (e, w)" by fastforce
  let ?max = "recordCommitBackoffBase * 2 ^ n"
  have base: "0 \<le> recordCommitBackoffBase * (2 ^ recordCommitMaxAttempts - 2 ^ n)"
    using less(3) by (auto simp: recordCommitBackoffBase_def millisecond_def intro!: mult_nonneg_nonneg power_increasing)
  define w' where "w' = sample [Observe ''dq_record_commit_duration_seconds'' [ent]
      (Seconds (Sub (clock x (tick w)) (clock x (tick (st_world st)))))] (step w)"
  have t': "tick w' = Suc (tick w)" by (simp add: w'_def)
  consider (ok) "e = None" | (exhausted) c where "e = Some c" "n = recordCommitMaxAttempts"
    | (cancelled) c ce where "e = Some c" "n < recordCommitMaxAttempts" "ctx_err x (tick w') = Some ce"
    | (again) c where "e = Some c" "n < recordCommitMaxAttempts" "ctx_err x (tick w') = None"
    using less(3) by fastforce
  then show ?case
  proof cases
    case ok
    then show ?thesis using less(2,3) com base
      by (intro conjI exI [of _ "[Committed recs None]"])
        (auto simp: commit_attempts.simps now_def Let_def attempts_ok_def split: if_splits)
  next
    case exhausted
    then show ?thesis using less(2) com base
      by (intro conjI exI [of _ "[Committed recs (Some c)]"])
        (auto simp: commit_attempts.simps now_def Let_def attempts_ok_def)
  next
    case cancelled
    then have "err = Some ce" "st' = log_call (Committed recs (Some c)) (st\<lparr>st_world := step w'\<rparr>)"
      using less(2) com t'
      by (simp_all add: commit_attempts.simps [of x r ent recs n] now_def Let_def w'_def)
    then show ?thesis using cancelled base
      by (intro conjI exI [of _ "[Committed recs (Some c)]"]) (auto simp: attempts_ok_def)
  next
    case again
    define d where "d = rr_jitter r (tick w') ?max"
    define st1 where "st1 = log_call (Waited d) (log_call (Committed recs (Some c)) (st\<lparr>st_world := step w'\<rparr>))"
    have rec: "commit_attempts x r ent recs (n + 1) (Some c) st1 = (err, st')"
      using less(2) again com t' unfolding st1_def d_def w'_def
      by (simp add: commit_attempts.simps [of x r ent recs n] now_def Let_def)
    have "st_entities st' = st_entities st1 \<and> (\<exists>cs. st_calls st' = st_calls st1 @ cs \<and> attempts_ok r recs (n + 1) err cs)"
      by (rule less(1) [OF _ rec]) (use again in auto)
    then obtain cs where cs: "st_entities st' = st_entities st1" "st_calls st' = st_calls st1 @ cs" "attempts_ok r recs (n + 1) err cs"
      by blast
    have "jitter_bounded r \<longrightarrow> d \<le> ?max"
      by (simp add: jitter_bounded_def d_def recordCommitBackoffBase_def millisecond_def)
    then have "attempts_ok r recs n err (Committed recs (Some c) # Waited d # cs)"
      using cs(3) by (auto simp: attempts_ok_def algebra_simps split: if_splits)
    then show ?thesis using cs by (auto simp: st1_def)
  qed
qed

lemma attempts_no_dispatch: "attempts_ok r recs n err cs \<Longrightarrow> dispatches cs = []"
  by (simp add: attempts_ok_def)

lemma closeAndDispatch_calls:
  assumes "closeAndDispatch x r es st = (es', st')" "es_active es = Some w"
  obtains res cs where "es' = es\<lparr>es_active := None, es_late_dropped := 0\<rparr>" "st_entities st' = st_entities st"
    "st_calls st' = st_calls st @ Dispatched (window_trigger r es w) res # cs" "dispatches cs = []"
    "if res = None then \<exists>err. attempts_ok r (wi_fetched w) 1 err cs else cs = []"
proof -
  obtain rs wd where run: "rr_run r (window_trigger r es w) (st_world st) = (rs, wd)" by fastforce
  show thesis
  proof (cases rs)
    case (Inl e)
    show thesis by (rule that [of "Some e" "[]"]) (use assms run Inl in \<open>auto simp: closeAndDispatch_def Let_def\<close>)
  next
    case (Inr row)
    let ?st = "log_call (Dispatched (window_trigger r es w) None) (st\<lparr>st_world := wd\<rparr>)"
    obtain err st1 where com: "commitWithRetry x r (wi_fetched w) ?st = (err, st1)" by fastforce
    then have "commit_attempts x r (commitEntity r (wi_fetched w)) (wi_fetched w) 1 None ?st = (err, st1)"
      by (simp add: commitWithRetry_def)
    from commit_attempts_calls [OF this] obtain cs where cs: "st_entities st1 = st_entities ?st"
      "st_calls st1 = st_calls ?st @ cs" "attempts_ok r (wi_fetched w) 1 err cs"
      by (auto simp: recordCommitMaxAttempts_def simp del: One_nat_def)
    show thesis
      by (rule that [of None cs])
        (use assms run Inr com cs attempts_no_dispatch in \<open>auto simp: closeAndDispatch_def Let_def split: option.splits if_splits\<close>)
  qed
qed

section \<open>Tumbling windows: the reference handler\<close>

text \<open>
  What the handler does to the window state, with no lateness tolerance in it: a record of an
  earlier window is dropped and counted, one of the active window is appended, one of a later
  window closes the active window at once and opens its own.
\<close>

definition fresh_window :: "RecordSource \<Rightarrow> FetchedRecord \<Rightarrow> recordWindow" where
  "fresh_window src f =
    \<lparr>wi_start = Truncate (fr_timestamp f) (so_window_duration src),
     wi_end = Truncate (fr_timestamp f) (so_window_duration src) + so_window_duration src,
     wi_records = [], wi_fetched = []\<rparr>"

definition tumble_es :: "ext \<Rightarrow> RecordRunner \<Rightarrow> RecordSource \<Rightarrow> FetchedRecord \<Rightarrow> entityState \<Rightarrow> rr_state \<Rightarrow> entityState \<times> rr_state" where
  "tumble_es x r src f es st =
    (let es = es\<lparr>es_watermark := max (es_watermark es) (fr_timestamp f)\<rparr>;
         fresh = fresh_window src f
     in case es_active es of
          None \<Rightarrow> (es\<lparr>es_active := Some (append_record f fresh)\<rparr>, st)
        | Some a \<Rightarrow>
            (if wi_start fresh < wi_start a then (es\<lparr>es_late_dropped := es_late_dropped es + 1\<rparr>, st)
             else if wi_start fresh = wi_start a then (es\<lparr>es_active := Some (append_record f a)\<rparr>, st)
             else let (es, st) = closeAndDispatch x r es st in (es\<lparr>es_active := Some (append_record f fresh)\<rparr>, st)))"

definition tumble :: "ext \<Rightarrow> RecordRunner \<Rightarrow> FetchedRecord \<Rightarrow> rr_state \<Rightarrow> rr_state" where
  "tumble x r f st =
    (case rr_sources r (fr_topic f) of
       None \<Rightarrow> st
     | Some src \<Rightarrow>
         (case st_entities st (so_entity src) of
            None \<Rightarrow> st
          | Some es \<Rightarrow> (let (es, st) = tumble_es x r src f es st
                        in st\<lparr>st_entities := (st_entities st)(so_entity src \<mapsto> es)\<rparr>)))"

text \<open>
  The window invariant of one entity: the active window is the one of the watermark, its records are
  the fetched ones and lie inside it, none is above the watermark.
\<close>

definition window_inv :: "RecordSource \<Rightarrow> entityState \<Rightarrow> bool" where
  "window_inv src es \<longleftrightarrow>
    0 < so_window_duration src \<and> es_source es = src \<and> 0 \<le> es_watermark es \<and> 0 \<le> es_late_dropped es \<and>
    (case es_active es of
       None \<Rightarrow> es_watermark es = 0 \<and> es_late_dropped es = 0
     | Some a \<Rightarrow> wi_start a = Truncate (es_watermark es) (so_window_duration src)
         \<and> wi_end a = wi_start a + so_window_duration src
         \<and> wi_records a = map to_record (wi_fetched a) \<and> wi_fetched a \<noteq> []
         \<and> (\<forall>f \<in> set (wi_fetched a). wi_start a \<le> fr_timestamp f \<and> fr_timestamp f < wi_end a
              \<and> fr_timestamp f \<le> es_watermark es))"

definition runner_inv :: "RecordRunner \<Rightarrow> rr_state \<Rightarrow> bool" where
  "runner_inv r st \<longleftrightarrow>
    (\<forall>topic src. rr_sources r topic = Some src \<longrightarrow>
       0 \<le> so_lateness_tolerance src \<and>
       (\<exists>es. st_entities st (so_entity src) = Some es \<and> window_inv src es))"

lemma Truncate_window: "0 < d \<Longrightarrow> Truncate t d \<le> t \<and> t < Truncate t d + d"
  using Truncate_le [of d t] Truncate_gt [of d t] by auto

lemma Truncate_less: "0 < d \<Longrightarrow> Truncate t d < Truncate u d \<Longrightarrow> t < u"
  using Truncate_mono [of d u t] by (meson not_le)

lemma tumble_es_inv:
  assumes "window_inv src es" "0 \<le> fr_timestamp f" "tumble_es x r src f es st = (es', st')"
  shows "window_inv src es' \<and> st_entities st' = st_entities st"
proof -
  let ?d = "so_window_duration src" and ?w = "max (es_watermark es) (fr_timestamp f)"
  have d: "0 < ?d" using assms(1) by (simp add: window_inv_def)
  note tr = Truncate_window [OF d]
  show ?thesis
  proof (cases "es_active es")
    case None
    then have "?w = fr_timestamp f" using assms(1,2) by (simp add: window_inv_def)
    then show ?thesis using None assms tr [of "fr_timestamp f"]
      by (auto simp: tumble_es_def Let_def window_inv_def fresh_window_def append_record_def)
  next
    case (Some a)
    have a: "wi_start a = Truncate (es_watermark es) ?d" using assms(1) Some by (simp add: window_inv_def)
    consider (late) "wi_start (fresh_window src f) < wi_start a" | (same) "wi_start (fresh_window src f) = wi_start a"
      | (later) "wi_start a < wi_start (fresh_window src f)" by fastforce
    then show ?thesis
    proof cases
      case late
      then have "fr_timestamp f < es_watermark es"
        using a Truncate_less [OF d] by (simp add: fresh_window_def)
      then show ?thesis using late Some assms
        by (auto simp: tumble_es_def Let_def window_inv_def max_def)
    next
      case same
      have "Truncate ?w ?d = wi_start a" using same a by (simp add: max_def fresh_window_def)
      then show ?thesis using same Some assms tr [of "fr_timestamp f"] a
        by (auto simp: tumble_es_def Let_def window_inv_def fresh_window_def append_record_def le_max_iff_disj)
    next
      case later
      then have w: "?w = fr_timestamp f"
        using a Truncate_less [OF d, of "es_watermark es" "fr_timestamp f"] by (simp add: fresh_window_def)
      obtain es1 st1 where cl: "closeAndDispatch x r (es\<lparr>es_watermark := ?w\<rparr>) st = (es1, st1)" by fastforce
      then have es1: "es1 = es\<lparr>es_watermark := ?w, es_active := None, es_late_dropped := 0\<rparr>" "st_entities st1 = st_entities st"
        using closeAndDispatch_calls [OF cl, of a] Some by simp_all
      show ?thesis using later Some assms cl es1 w tr [of "fr_timestamp f"]
        by (auto simp: tumble_es_def Let_def window_inv_def fresh_window_def append_record_def)
    qed
  qed
qed

lemma watermark_max:
  "(if es_watermark es < t then es\<lparr>es_watermark := t\<rparr> else es) = es\<lparr>es_watermark := max (es_watermark es) t\<rparr>"
  by (cases es) (auto simp: max_def)

text \<open>The active window of an invariant state ends after the watermark: the grace period never expires.\<close>

lemma window_not_expired:
  assumes "window_inv src es" "es_active es = Some a" "0 \<le> so_lateness_tolerance src"
  shows "\<not> wi_end a + so_lateness_tolerance src < es_watermark es"
  using assms Truncate_gt [of "so_window_duration src" "es_watermark es"] by (auto simp: window_inv_def)

lemma handleFetched_eq_tumble:
  assumes "runner_inv r st" "0 \<le> fr_timestamp f"
  shows "handleFetched x r f st = tumble x r f st"
proof (cases "rr_sources r (fr_topic f)")
  case None
  then show ?thesis by (simp add: handleFetched_def tumble_def)
next
  case (Some src)
  then obtain es where es: "st_entities st (so_entity src) = Some es" "window_inv src es" "0 \<le> so_lateness_tolerance src"
    using assms(1) unfolding runner_inv_def by blast
  obtain es' st' where t: "tumble_es x r src f es st = (es', st')" by fastforce
  have inv': "window_inv src es'" using tumble_es_inv [OF es(2) assms(2) t] by blast
  have act': "es_active es' \<noteq> None"
    using t by (auto simp: tumble_es_def Let_def split: option.splits if_splits prod.splits)
  then obtain a' where a': "es_active es' = Some a'" by blast
  note open' = window_not_expired [OF inv' a' es(3)]
  have fresh: "fresh_window src f = \<lparr>wi_start = Truncate (fr_timestamp f) (so_window_duration src),
      wi_end = Truncate (fr_timestamp f) (so_window_duration src) + so_window_duration src, wi_records = [], wi_fetched = []\<rparr>"
    by (simp add: fresh_window_def)
  show ?thesis
  proof (cases "es_active es")
    case None
    then show ?thesis using Some es t a' open'
      by (auto simp: handleFetched_def tumble_def watermark_max tumble_es_def Let_def fresh append_record_def)
  next
    case (Some a)
    have same_es: "es\<lparr>es_watermark := max (es_watermark es) (fr_timestamp f), es_active := Some a\<rparr>
        = es\<lparr>es_watermark := max (es_watermark es) (fr_timestamp f)\<rparr>"
      using Some by (cases es) simp
    consider (late) "wi_start (fresh_window src f) < wi_start a" | (same) "wi_start (fresh_window src f) = wi_start a"
      | (later) "wi_start a < wi_start (fresh_window src f)" by fastforce
    then show ?thesis
    proof cases
      case late
      then show ?thesis using \<open>rr_sources r (fr_topic f) = Some src\<close> Some es
        by (cases es) (simp add: handleFetched_def tumble_def tumble_es_def Let_def fresh max_def)
    next
      case same
      then have "es' = es\<lparr>es_watermark := max (es_watermark es) (fr_timestamp f), es_active := Some (append_record f a)\<rparr>" "st' = st"
        using t Some by (auto simp: tumble_es_def Let_def)
      then show ?thesis using \<open>rr_sources r (fr_topic f) = Some src\<close> Some es same a' open'
        by (simp add: handleFetched_def tumble_def watermark_max tumble_es_def Let_def fresh)
    next
      case later
      obtain es1 st1 where cl: "closeAndDispatch x r (es\<lparr>es_watermark := max (es_watermark es) (fr_timestamp f),
          es_active := Some a\<rparr>) st = (es1, st1)" by fastforce
      have cl': "closeAndDispatch x r (es\<lparr>es_watermark := max (es_watermark es) (fr_timestamp f)\<rparr>) st = (es1, st1)"
        using cl unfolding same_es .
      have "es' = es1\<lparr>es_active := Some (append_record f (fresh_window src f))\<rparr>" "st' = st1"
        using t Some later cl' by (auto simp: tumble_es_def Let_def)
      then show ?thesis using \<open>rr_sources r (fr_topic f) = Some src\<close> Some es later a' open' cl cl'
        by (auto simp: handleFetched_def tumble_def watermark_max tumble_es_def Let_def fresh)
    qed
  qed
qed

text \<open>Different topics feed different entities: what \<^verbatim>\<open>NewRecordRunner\<close> builds from distinct entities.\<close>

definition routed :: "RecordRunner \<Rightarrow> bool" where
  "routed r \<longleftrightarrow> (\<forall>t u s s'. rr_sources r t = Some s \<longrightarrow> rr_sources r u = Some s' \<longrightarrow> so_entity s = so_entity s' \<longrightarrow> s = s')"

lemma tumble_inv:
  assumes "runner_inv r st" "0 \<le> fr_timestamp f" "routed r"
  shows "runner_inv r (tumble x r f st)"
proof (cases "rr_sources r (fr_topic f)")
  case None
  then show ?thesis using assms by (simp add: tumble_def)
next
  case (Some src)
  then obtain es where es: "st_entities st (so_entity src) = Some es" "window_inv src es"
    using assms(1) unfolding runner_inv_def by blast
  obtain es' st' where t: "tumble_es x r src f es st = (es', st')" by fastforce
  have inv': "window_inv src es'" "st_entities st' = st_entities st"
    using tumble_es_inv [OF es(2) assms(2) t] by blast+
  have eq: "tumble x r f st = st'\<lparr>st_entities := (st_entities st)(so_entity src \<mapsto> es')\<rparr>"
    using Some es t inv' by (simp add: tumble_def)
  show ?thesis unfolding runner_inv_def eq
  proof (intro allI impI conjI)
    fix topic s assume s: "rr_sources r topic = Some s"
    show "0 \<le> so_lateness_tolerance s" using s assms(1) by (auto simp: runner_inv_def)
    show "\<exists>es. st_entities (st'\<lparr>st_entities := (st_entities st)(so_entity src \<mapsto> es')\<rparr>) (so_entity s) = Some es \<and> window_inv s es"
    proof (cases "so_entity s = so_entity src")
      case True
      then have "s = src" using assms(3) s Some unfolding routed_def by blast
      then show ?thesis using inv' by simp
    next
      case False
      then show ?thesis using assms(1) s by (auto simp: runner_inv_def)
    qed
  qed
qed

lemma handleFetched_fold:
  assumes "runner_inv r st" "routed r" "\<forall>f \<in> set fs. 0 \<le> fr_timestamp f"
  shows "fold (handleFetched x r) fs st = fold (tumble x r) fs st \<and> runner_inv r (fold (tumble x r) fs st)"
  using assms
proof (induction fs arbitrary: st)
  case (Cons f fs)
  then show ?case using handleFetched_eq_tumble [of r st f x] tumble_inv [of r st f x] by auto
qed simp

section \<open>Accounting: lemmas\<close>

text \<open>
  The records of an entity that are accounted for: those of its dispatched windows, those of its
  active window, and the late drops, already reported in a trigger or still to be reported.
\<close>

definition trigger_load :: "TriggerRequest \<Rightarrow> int" where
  "trigger_load tr = int (length (tr_records tr)) + tr_late_dropped tr"

definition entity_load :: "entityState option \<Rightarrow> int" where
  "entity_load o_es = (case o_es of None \<Rightarrow> 0
     | Some es \<Rightarrow> (case es_active es of None \<Rightarrow> 0 | Some a \<Rightarrow> int (length (wi_records a))) + es_late_dropped es)"

definition entity_dispatches :: "string \<Rightarrow> call list \<Rightarrow> TriggerRequest list" where
  "entity_dispatches e cs = filter (\<lambda>tr. tr_entity tr = e) (map fst (dispatches cs))"

definition accounted :: "string \<Rightarrow> rr_state \<Rightarrow> int" where
  "accounted e st = sum_list (map trigger_load (entity_dispatches e (st_calls st))) + entity_load (st_entities st e)"

lemma entity_dispatches_append [simp]: "entity_dispatches e (cs @ ds) = entity_dispatches e cs @ entity_dispatches e ds"
  by (simp add: entity_dispatches_def)

text \<open>One record: how the calls grow, for the entity the record is routed to and for the others.\<close>

lemma tumble_es_calls:
  assumes "window_inv src es" "tumble_es x r src f es st = (es', st')"
  obtains (kept) "st_calls st' = st_calls st" "entity_load (Some es') = entity_load (Some es) + 1"
      "\<exists>a'. es_active es' = Some a' \<and> (case es_active es of None \<Rightarrow> True | Some a \<Rightarrow> wi_start a' = wi_start a)"
  | (closed) a cs where "es_active es = Some a" "dispatches cs = []"
      "\<exists>res. st_calls st' = st_calls st @ Dispatched (window_trigger r (es\<lparr>es_watermark := max (es_watermark es) (fr_timestamp f)\<rparr>) a) res # cs
         \<and> (if res = None then \<exists>err. attempts_ok r (wi_fetched a) 1 err cs else cs = [])"
      "entity_load (Some es') = 1" "\<exists>a'. es_active es' = Some a' \<and> wi_start a < wi_start a'"
proof (cases "es_active es")
  case None
  show thesis
    by (rule kept) (use None assms in \<open>auto simp: tumble_es_def Let_def entity_load_def append_record_def fresh_window_def\<close>)
next
  case (Some a)
  consider (late) "wi_start (fresh_window src f) < wi_start a" | (same) "wi_start (fresh_window src f) = wi_start a"
    | (later) "wi_start a < wi_start (fresh_window src f)" by fastforce
  then show thesis
  proof cases
    case later
    let ?es = "es\<lparr>es_watermark := max (es_watermark es) (fr_timestamp f)\<rparr>"
    obtain es1 st1 where cl: "closeAndDispatch x r ?es st = (es1, st1)" by fastforce
    have "es_active ?es = Some a" using Some by simp
    from closeAndDispatch_calls [OF cl this] obtain res cs where c: "es1 = ?es\<lparr>es_active := None, es_late_dropped := 0\<rparr>"
      "st_calls st1 = st_calls st @ Dispatched (window_trigger r ?es a) res # cs" "dispatches cs = []"
      "if res = None then \<exists>err. attempts_ok r (wi_fetched a) 1 err cs else cs = []"
      by metis
    from c(3) show thesis
      by (rule closed [OF Some])
        (use Some later cl c assms in \<open>auto simp: tumble_es_def Let_def entity_load_def append_record_def fresh_window_def\<close>)
  qed (rule kept; use Some assms in \<open>auto simp: tumble_es_def Let_def entity_load_def append_record_def\<close>)+
qed

lemma tumble_accounted:
  assumes "runner_inv r st" "0 \<le> fr_timestamp f"
  shows "accounted e (tumble x r f st) =
    accounted e st + (if map_option so_entity (rr_sources r (fr_topic f)) = Some e then 1 else 0)"
proof (cases "rr_sources r (fr_topic f)")
  case None
  then show ?thesis by (simp add: tumble_def)
next
  case (Some src)
  then obtain es where es: "st_entities st (so_entity src) = Some es" "window_inv src es"
    using assms(1) unfolding runner_inv_def by blast
  obtain es' st' where t: "tumble_es x r src f es st = (es', st')" by fastforce
  have ent': "st_entities st' = st_entities st" using tumble_es_inv [OF es(2) assms(2) t] by blast
  have eq: "tumble x r f st = st'\<lparr>st_entities := (st_entities st)(so_entity src \<mapsto> es')\<rparr>"
    using Some es t ent' by (simp add: tumble_def)
  from es(2) t show ?thesis
  proof (cases rule: tumble_es_calls)
    case kept
    then show ?thesis using Some es eq by (auto simp: accounted_def)
  next
    case (closed a cs)
    let ?tr = "window_trigger r (es\<lparr>es_watermark := max (es_watermark es) (fr_timestamp f)\<rparr>) a"
    have tr: "tr_entity ?tr = so_entity src" "trigger_load ?tr = entity_load (Some es)"
      using es(2) closed(1) by (auto simp: window_trigger_def trigger_load_def entity_load_def window_inv_def)
    obtain res where "st_calls st' = st_calls st @ Dispatched ?tr res # cs" using closed(3) by blast
    then show ?thesis using Some es eq closed(2,4) tr
      by (auto simp: accounted_def entity_dispatches_def)
  qed
qed

section \<open>Order of the windows: lemmas\<close>

definition active_starts :: "entityState \<Rightarrow> time list" where
  "active_starts es = (case es_active es of None \<Rightarrow> [] | Some a \<Rightarrow> [wi_start a])"

text \<open>A trigger for one window of the source: aligned, not empty, with its own records only.\<close>

definition aligned :: "RecordSource \<Rightarrow> TriggerRequest \<Rightarrow> bool" where
  "aligned src tr \<longleftrightarrow>
    so_window_duration src dvd tr_window_start tr \<and> tr_window_end tr = tr_window_start tr + so_window_duration src
    \<and> tr_records tr \<noteq> []
    \<and> (\<forall>rec \<in> set (tr_records tr). tr_window_start tr \<le> rc_timestamp rec \<and> rc_timestamp rec < tr_window_end tr)"

definition order_inv :: "RecordSource \<Rightarrow> rr_state \<Rightarrow> bool" where
  "order_inv src st \<longleftrightarrow>
    (\<forall>es. st_entities st (so_entity src) = Some es \<longrightarrow>
       sorted_wrt (<) (map tr_window_start (entity_dispatches (so_entity src) (st_calls st)) @ active_starts es)
       \<and> (es_active es = None \<longrightarrow> entity_dispatches (so_entity src) (st_calls st) = [])
       \<and> list_all (aligned src) (entity_dispatches (so_entity src) (st_calls st)))"

lemma window_trigger_aligned:
  assumes "window_inv src es" "es_active es = Some a"
  shows "aligned src (window_trigger r (es\<lparr>es_watermark := m\<rparr>) a)"
  using assms Truncate_dvd [of "so_window_duration src" "es_watermark es"]
  by (auto simp: window_inv_def aligned_def window_trigger_def to_record_def)

lemma sorted_wrt_snoc2: "sorted_wrt (<) (xs @ [a]) \<Longrightarrow> a < b \<Longrightarrow> sorted_wrt (<) (xs @ [a, b :: time])"
  by (auto simp: sorted_wrt_append)

lemma tumble_order:
  assumes "runner_inv r st" "0 \<le> fr_timestamp f" "routed r" "rr_sources r topic = Some src" "order_inv src st"
  shows "order_inv src (tumble x r f st)"
proof (cases "rr_sources r (fr_topic f)")
  case None
  then show ?thesis using assms by (simp add: tumble_def)
next
  case (Some s)
  then obtain es where es: "st_entities st (so_entity s) = Some es" "window_inv s es"
    using assms(1) unfolding runner_inv_def by blast
  obtain es' st' where t: "tumble_es x r s f es st = (es', st')" by fastforce
  have ent': "st_entities st' = st_entities st" using tumble_es_inv [OF es(2) assms(2) t] by blast
  have eq: "tumble x r f st = st'\<lparr>st_entities := (st_entities st)(so_entity s \<mapsto> es')\<rparr>"
    using Some es t ent' by (simp add: tumble_def)
  have src: "es_source es = s" using es(2) by (simp add: window_inv_def)
  show ?thesis
  proof (cases "so_entity s = so_entity src")
    case True
    then have s: "s = src" using assms(3,4) Some unfolding routed_def by blast
    from es(2) t show ?thesis
    proof (cases rule: tumble_es_calls)
      case kept
      then show ?thesis using assms(5) es s eq
        by (auto simp: order_inv_def active_starts_def split: option.splits)
    next
      case (closed a cs)
      let ?tr = "window_trigger r (es\<lparr>es_watermark := max (es_watermark es) (fr_timestamp f)\<rparr>) a"
      let ?D = "entity_dispatches (so_entity src) (st_calls st)"
      have tr: "tr_entity ?tr = so_entity src" "tr_window_start ?tr = wi_start a" "aligned src ?tr"
        using src s window_trigger_aligned [OF es(2) closed(1)] by (simp_all add: window_trigger_def)
      have D': "entity_dispatches (so_entity src) (st_calls st') = ?D @ [?tr]"
        using closed(2,3) tr(1) by (auto simp: entity_dispatches_def)
      obtain a' where a': "es_active es' = Some a'" "wi_start a < wi_start a'" using closed(5) by blast
      have "sorted_wrt (<) (map tr_window_start ?D @ [wi_start a])" "list_all (aligned src) ?D"
        using assms(5) es(1) s closed(1) by (auto simp: order_inv_def active_starts_def)
      then show ?thesis using sorted_wrt_snoc2 [OF _ a'(2)] eq s D' tr a'(1)
        by (simp add: order_inv_def active_starts_def)
    qed
  next
    case False
    have "entity_dispatches (so_entity src) (st_calls st') = entity_dispatches (so_entity src) (st_calls st)"
      using es(2) t
      by (cases rule: tumble_es_calls) (use False src in \<open>auto simp: entity_dispatches_def window_trigger_def\<close>)
    then show ?thesis using assms(5) eq False by (simp add: order_inv_def)
  qed
qed

section \<open>What is committed: lemmas\<close>

text \<open>
  Every trigger is for the entity of a source, and every commit passes the records of a window whose dispatch
  succeeded.
\<close>

definition commits_inv :: "RecordRunner \<Rightarrow> rr_state \<Rightarrow> bool" where
  "commits_inv r st \<longleftrightarrow>
    (\<forall>d \<in> set (dispatches (st_calls st)). \<exists>topic src. rr_sources r topic = Some src \<and> tr_entity (fst d) = so_entity src) \<and>
    (\<forall>c \<in> set (commits (st_calls st)). \<exists>tr. (tr, None) \<in> set (dispatches (st_calls st)) \<and> tr_records tr = map to_record (fst c))"

lemma commits_inv_close:
  assumes "commits_inv r st" "st_calls st' = st_calls st @ Dispatched tr res # cs" "dispatches cs = []"
    and "if res = None then \<exists>err. attempts_ok r recs 1 err cs else cs = []"
    and "tr_records tr = map to_record recs" "rr_sources r topic = Some src" "tr_entity tr = so_entity src"
  shows "commits_inv r st'"
proof -
  have "res = None \<and> fst c = recs" if "c \<in> set (commits cs)" for c
    using assms(4) that by (auto simp: attempts_ok_def split: if_splits)
  then show ?thesis using assms(1-3,5-7) unfolding commits_inv_def by simp blast
qed

lemma tumble_commits:
  assumes "runner_inv r st" "0 \<le> fr_timestamp f" "commits_inv r st"
  shows "commits_inv r (tumble x r f st)"
proof (cases "rr_sources r (fr_topic f)")
  case None
  then show ?thesis using assms by (simp add: tumble_def)
next
  case (Some s)
  then obtain es where es: "st_entities st (so_entity s) = Some es" "window_inv s es"
    using assms(1) unfolding runner_inv_def by blast
  obtain es' st' where t: "tumble_es x r s f es st = (es', st')" by fastforce
  have calls: "st_calls (tumble x r f st) = st_calls st'" using Some es t by (simp add: tumble_def)
  from es(2) t have "commits_inv r st'"
  proof (cases rule: tumble_es_calls)
    case kept
    then show ?thesis using assms(3) by (simp add: commits_inv_def)
  next
    case (closed a cs)
    let ?tr = "window_trigger r (es\<lparr>es_watermark := max (es_watermark es) (fr_timestamp f)\<rparr>) a"
    obtain res where res: "st_calls st' = st_calls st @ Dispatched ?tr res # cs"
      "if res = None then \<exists>err. attempts_ok r (wi_fetched a) 1 err cs else cs = []" using closed(3) by blast
    have "tr_records ?tr = map to_record (wi_fetched a)" "tr_entity ?tr = so_entity s"
      using es(2) closed(1) by (simp_all add: window_inv_def window_trigger_def)
    then show ?thesis by (rule commits_inv_close [OF assms(3) res(1) closed(2) res(2) _ Some])
  qed
  then show ?thesis by (simp add: commits_inv_def calls)
qed

text \<open>Two windows of one source that start apart do not overlap.\<close>

lemma aligned_disjoint:
  assumes "aligned src tr" "aligned src tr'" "tr_window_start tr' \<noteq> tr_window_start tr" "rec \<in> set (tr_records tr')"
  shows "rc_timestamp rec < tr_window_start tr \<or> tr_window_end tr \<le> rc_timestamp rec"
proof -
  let ?d = "so_window_duration src"
  obtain j k where jk: "tr_window_start tr = ?d * j" "tr_window_start tr' = ?d * k"
    using assms(1,2) unfolding aligned_def by (metis dvdE)
  have b: "?d * k \<le> rc_timestamp rec" "rc_timestamp rec < ?d * k + ?d" "tr_window_end tr = ?d * j + ?d"
    using assms jk by (auto simp: aligned_def)
  then have "0 < ?d" by simp
  moreover have "k \<le> j - 1 \<or> j + 1 \<le> k" using assms(3) jk by fastforce
  ultimately have "?d * k \<le> ?d * (j - 1) \<or> ?d * (j + 1) \<le> ?d * k" by (metis mult_le_cancel_left_pos)
  then show ?thesis using b jk(1) by (auto simp: algebra_simps)
qed

lemma filter_key: "distinct (map key as) \<Longrightarrow> a \<in> set as \<Longrightarrow> filter (\<lambda>b. key b = key a) as = [a]"
proof (induction as)
  case (Cons b as)
  show ?case
  proof (cases "a = b")
    case True
    then have "filter (\<lambda>c. key c = key a) as = []" using Cons.prems(1) by (auto simp: filter_empty_conv image_iff)
    then show ?thesis using True by simp
  next
    case False
    then show ?thesis using Cons by auto
  qed
qed simp

text \<open>Among the dispatches of one source, in order, each window occurs once and shares no instant with another.\<close>

lemma window_alone:
  assumes "sorted_wrt (<) (map (tr_window_start \<circ> fst) ds)" "list_all (aligned src \<circ> fst) ds" "d \<in> set ds"
  shows "filter (\<lambda>d'. tr_window_start (fst d') = tr_window_start (fst d)) ds = [d]"
    and "d' \<in> set ds \<Longrightarrow> d' \<noteq> d \<Longrightarrow> rec \<in> set (tr_records (fst d')) \<Longrightarrow>
      rc_timestamp rec < tr_window_start (fst d) \<or> tr_window_end (fst d) \<le> rc_timestamp rec"
proof -
  have dist: "distinct (map (tr_window_start \<circ> fst) ds)" using assms(1) by (simp add: strict_sorted_iff)
  then show "filter (\<lambda>d'. tr_window_start (fst d') = tr_window_start (fst d)) ds = [d]"
    using filter_key [OF dist assms(3)] by simp
  assume d': "d' \<in> set ds" "d' \<noteq> d" "rec \<in> set (tr_records (fst d'))"
  then have "tr_window_start (fst d') \<noteq> tr_window_start (fst d)"
    using dist assms(3) by (auto simp: distinct_map inj_on_def)
  then show "rc_timestamp rec < tr_window_start (fst d) \<or> tr_window_end (fst d) \<le> rc_timestamp rec"
    using aligned_disjoint [of src "fst d" "fst d'"] assms(2,3) d' by (auto simp: list_all_iff)
qed

section \<open>A fresh runner\<close>

lemma add_sources_inv:
  assumes "add_sources srcs so state = Inr (so', state')"
    and "distinct (map so_entity srcs)" "\<forall>src \<in> set srcs. 0 \<le> so_lateness_tolerance src"
    and "\<forall>t s. so t = Some s \<longrightarrow> so_entity s \<notin> so_entity ` set srcs \<and> 0 \<le> so_lateness_tolerance s
          \<and> (\<exists>es. state (so_entity s) = Some es \<and> window_inv s es \<and> es_active es = None)"
    and "\<forall>t u s s'. so t = Some s \<longrightarrow> so u = Some s' \<longrightarrow> so_entity s = so_entity s' \<longrightarrow> s = s'"
  shows "(\<forall>t s. so' t = Some s \<longrightarrow> 0 \<le> so_lateness_tolerance s
          \<and> (\<exists>es. state' (so_entity s) = Some es \<and> window_inv s es \<and> es_active es = None))
       \<and> (\<forall>t u s s'. so' t = Some s \<longrightarrow> so' u = Some s' \<longrightarrow> so_entity s = so_entity s' \<longrightarrow> s = s')"
  using assms
proof (induction srcs so state rule: add_sources.induct)
  case (1 so state)
  then show ?case by auto
next
  case (2 src srcs so state)
  let ?es = "\<lparr>es_source = src, es_watermark = 0, es_active = None, es_late_dropped = 0\<rparr>"
  have ok: "so_topic src \<noteq> []" "0 < so_window_duration src"
    "add_sources srcs (so(so_topic src \<mapsto> src)) (state(so_entity src \<mapsto> ?es)) = Inr (so', state')"
    using "2.prems"(1) by (auto split: if_splits)
  have new: "window_inv src ?es" using ok(2) by (simp add: window_inv_def)
  show ?case
  proof (rule "2.IH")
    show "distinct (map so_entity srcs)" "\<forall>src \<in> set srcs. 0 \<le> so_lateness_tolerance src" using "2.prems"(2,3) by auto
    show "\<forall>t s. (so(so_topic src \<mapsto> src)) t = Some s \<longrightarrow> so_entity s \<notin> so_entity ` set srcs \<and> 0 \<le> so_lateness_tolerance s
          \<and> (\<exists>es. (state(so_entity src \<mapsto> ?es)) (so_entity s) = Some es \<and> window_inv s es \<and> es_active es = None)"
    proof (intro allI impI)
      fix t s assume "(so(so_topic src \<mapsto> src)) t = Some s"
      then consider "s = src" | "so t = Some s" by (metis fun_upd_apply option.inject)
      then show "so_entity s \<notin> so_entity ` set srcs \<and> 0 \<le> so_lateness_tolerance s
          \<and> (\<exists>es. (state(so_entity src \<mapsto> ?es)) (so_entity s) = Some es \<and> window_inv s es \<and> es_active es = None)"
      proof cases
        case 1
        then show ?thesis using "2.prems"(2,3) new by auto
      next
        case 2
        then show ?thesis using "2.prems"(4) by auto
      qed
    qed
    show "\<forall>t u s s'. (so(so_topic src \<mapsto> src)) t = Some s \<longrightarrow> (so(so_topic src \<mapsto> src)) u = Some s'
        \<longrightarrow> so_entity s = so_entity s' \<longrightarrow> s = s'"
    proof (intro allI impI)
      fix t u s s'
      assume t: "(so(so_topic src \<mapsto> src)) t = Some s" and u: "(so(so_topic src \<mapsto> src)) u = Some s'"
        and e: "so_entity s = so_entity s'"
      have old: "so_entity s1 \<noteq> so_entity src" if "so t1 = Some s1" for t1 s1
        using "2.prems"(4) that by auto
      have "s = src \<or> so t = Some s" "s' = src \<or> so u = Some s'" using t u by (metis fun_upd_apply option.inject)+
      then show "s = s'" using old e "2.prems"(5) by metis
    qed
  qed (use ok in \<open>simp_all add: fun_upd_def\<close>)
qed

definition initial_state :: "(string \<rightharpoonup> entityState) \<Rightarrow> world \<Rightarrow> rr_state" where
  "initial_state state w = \<lparr>st_entities = state, st_world = w, st_calls = []\<rparr>"

lemma NewRecordRunner_inv:
  assumes "NewRecordRunner jitter cfg = Inr (r, state)"
    and "distinct (map so_entity (rc_sources cfg))" "\<forall>src \<in> set (rc_sources cfg). 0 \<le> so_lateness_tolerance src"
  shows "runner_inv r (initial_state state w)" "routed r"
    "rr_sources r topic = Some src \<Longrightarrow> order_inv src (initial_state state w)"
    "rr_sources r topic = Some src \<Longrightarrow> accounted (so_entity src) (initial_state state w) = 0"
    "commits_inv r (initial_state state w)"
proof -
  obtain so where "add_sources (rc_sources cfg) Map.empty Map.empty = Inr (so, state)" "rr_sources r = so"
    using assms(1) by (auto simp: NewRecordRunner_def split: option.splits if_splits sum.splits)
  note inv = add_sources_inv [OF this(1) assms(2,3), folded this(2)]
  then have src: "\<forall>t s. rr_sources r t = Some s \<longrightarrow> 0 \<le> so_lateness_tolerance s
          \<and> (\<exists>es. state (so_entity s) = Some es \<and> window_inv s es \<and> es_active es = None)" by simp
  then show "runner_inv r (initial_state state w)" by (auto simp: runner_inv_def initial_state_def)
  show "routed r" using inv by (simp add: routed_def)
  show "commits_inv r (initial_state state w)" by (simp add: commits_inv_def initial_state_def)
  have es: "\<exists>es. state (so_entity src) = Some es \<and> window_inv src es \<and> es_active es = None"
    if "rr_sources r topic = Some src" for topic src using src that by blast
  show "order_inv src (initial_state state w)" if "rr_sources r topic = Some src"
    using es [OF that] by (auto simp: order_inv_def initial_state_def active_starts_def entity_dispatches_def)
  show "accounted (so_entity src) (initial_state state w) = 0" if "rr_sources r topic = Some src"
    using es [OF that] by (auto simp: accounted_def initial_state_def entity_dispatches_def entity_load_def window_inv_def)
qed

lemma stream_order:
  assumes "NewRecordRunner jitter cfg = Inr (r, state)"
    and "distinct (map so_entity (rc_sources cfg))" "\<forall>src \<in> set (rc_sources cfg). 0 \<le> so_lateness_tolerance src"
    and "\<forall>f \<in> set fs. 0 \<le> fr_timestamp f" and "rr_sources r topic = Some src"
    and "triggers = entity_dispatches (so_entity src) (st_calls (fold (handleFetched x r) fs (initial_state state w)))"
  shows "sorted_wrt (<) (map tr_window_start triggers) \<and> list_all (aligned src) triggers"
proof -
  note inv = NewRecordRunner_inv [OF assms(1-3)]
  have "order_inv src (fold (tumble x r) fs st) \<and> runner_inv r (fold (tumble x r) fs st)"
    if "runner_inv r st" "order_inv src st" "\<forall>f \<in> set fs. 0 \<le> fr_timestamp f" for st fs
    using that
  proof (induction fs arbitrary: st)
    case (Cons f fs)
    then show ?case
      using tumble_inv [OF _ _ inv(2), of st f x] tumble_order [OF _ _ inv(2) assms(5), of st f x] by auto
  qed simp
  then have o: "order_inv src (fold (tumble x r) fs (initial_state state w))"
    and i: "runner_inv r (fold (tumble x r) fs (initial_state state w))"
    using inv(1) inv(3) [OF assms(5)] assms(4) by blast+
  obtain es where "st_entities (fold (tumble x r) fs (initial_state state w)) (so_entity src) = Some es"
    using i assms(5) unfolding runner_inv_def by blast
  then show ?thesis
    using o handleFetched_fold [OF inv(1,2) assms(4), of x w] assms(6)
    by (simp add: order_inv_def sorted_wrt_append)
qed

lemma stream_commits:
  assumes "NewRecordRunner jitter cfg = Inr (r, state)"
    and "distinct (map so_entity (rc_sources cfg))" "\<forall>src \<in> set (rc_sources cfg). 0 \<le> so_lateness_tolerance src"
    and "\<forall>f \<in> set fs. 0 \<le> fr_timestamp f"
  shows "commits_inv r (fold (handleFetched x r) fs (initial_state state w))"
proof -
  note inv = NewRecordRunner_inv [OF assms(1-3)]
  have "commits_inv r (fold (tumble x r) fs st)"
    if "runner_inv r st" "commits_inv r st" "\<forall>f \<in> set fs. 0 \<le> fr_timestamp f" for st fs
    using that
  proof (induction fs arbitrary: st)
    case (Cons f fs)
    then show ?case using tumble_inv [OF _ _ inv(2), of st f x] tumble_commits [of r st f x] by auto
  qed simp
  then show ?thesis using handleFetched_fold [OF inv(1,2) assms(4), of x w] inv(1,5) assms(4) by simp
qed

section \<open>Properties\<close>

text \<open>
  C10. The handler is a tumbling window with no grace period: from a fresh runner over distinct
  entities and on records with timestamps from year 1 on, handling a stream equals the
  reference handler, in which \<^verbatim>\<open>lateness_tolerance\<close> does not occur. The close after the append never
  fires, and both branches for a later record close the active window at once.
\<close>

theorem handleFetched_tumbles:
  assumes "NewRecordRunner jitter cfg = Inr (r, state)"
    and "distinct (map so_entity (rc_sources cfg))" "\<forall>src \<in> set (rc_sources cfg). 0 \<le> so_lateness_tolerance src"
    and "\<forall>f \<in> set fs. 0 \<le> fr_timestamp f"
  shows "fold (handleFetched x r) fs (initial_state state w) = fold (tumble x r) fs (initial_state state w)"
  using handleFetched_fold [OF NewRecordRunner_inv(1,2) [OF assms(1-3)] assms(4)] by blast

text \<open>
  C11. No record goes unaccounted: for every entity, the records of its dispatched windows plus
  those of its active window plus the late drops reported or pending equal the records routed to it.
\<close>

theorem records_accounted:
  assumes "NewRecordRunner jitter cfg = Inr (r, state)"
    and "distinct (map so_entity (rc_sources cfg))" "\<forall>src \<in> set (rc_sources cfg). 0 \<le> so_lateness_tolerance src"
    and "\<forall>f \<in> set fs. 0 \<le> fr_timestamp f" and "rr_sources r topic = Some src"
  shows "accounted (so_entity src) (fold (handleFetched x r) fs (initial_state state w)) =
    int (length (filter (\<lambda>f. map_option so_entity (rr_sources r (fr_topic f)) = Some (so_entity src)) fs))"
proof -
  note inv = NewRecordRunner_inv [OF assms(1-3)]
  have "accounted e (fold (tumble x r) fs st) = accounted e st +
      int (length (filter (\<lambda>f. map_option so_entity (rr_sources r (fr_topic f)) = Some e) fs))"
    if "runner_inv r st" "\<forall>f \<in> set fs. 0 \<le> fr_timestamp f" for e st fs
    using that
  proof (induction fs arbitrary: st)
    case (Cons f fs)
    then show ?case using tumble_inv [OF _ _ inv(2), of st f x] tumble_accounted [of r st f e x] by auto
  qed simp
  then show ?thesis
    using handleFetched_fold [OF inv(1,2) assms(4)] inv(1) inv(4) [OF assms(5)] assms(4) by simp
qed

text \<open>
  C12. The windows dispatched for an entity are strictly increasing, each is aligned to the source's
  window duration and carries a non-empty batch of records that all lie inside it.
\<close>

theorem windows_ordered:
  assumes "NewRecordRunner jitter cfg = Inr (r, state)"
    and "distinct (map so_entity (rc_sources cfg))" "\<forall>src \<in> set (rc_sources cfg). 0 \<le> so_lateness_tolerance src"
    and "\<forall>f \<in> set fs. 0 \<le> fr_timestamp f" and "rr_sources r topic = Some src"
    and "triggers = entity_dispatches (so_entity src) (st_calls (fold (handleFetched x r) fs (initial_state state w)))"
  shows "sorted_wrt (<) (map tr_window_start triggers) \<and> list_all (aligned src) triggers"
  using assms by (rule stream_order)

text \<open>
  C13. Closing a window makes exactly one dispatch, and offsets are committed only after it succeeds:
  on failure no commit is made; on success between one and three attempts, each with exactly
  the window's records, all but the last failed, with at most 600 ms of waiting in total.
\<close>

theorem close_commits_after_dispatch:
  assumes "es_active es = Some a" "jitter_bounded r"
  shows "\<exists>res cs. st_calls (snd (closeAndDispatch x r es st)) = st_calls st @ Dispatched (window_trigger r es a) res # cs
    \<and> dispatches cs = [] \<and> (res \<noteq> None \<longleftrightarrow> commits cs = []) \<and> length (commits cs) \<le> 3
    \<and> list_all (\<lambda>c. fst c = wi_fetched a) (commits cs)
    \<and> list_all (\<lambda>c. snd c \<noteq> None) (butlast (commits cs))
    \<and> waited cs \<le> 600 * millisecond"
proof -
  obtain es' st' where cl: "closeAndDispatch x r es st = (es', st')" by fastforce
  obtain res cs where c: "st_calls st' = st_calls st @ Dispatched (window_trigger r es a) res # cs" "dispatches cs = []"
    "if res = None then \<exists>err. attempts_ok r (wi_fetched a) 1 err cs else cs = []"
    using closeAndDispatch_calls [OF cl assms(1)] by metis
  show ?thesis
  proof (cases res)
    case None
    then obtain err where "attempts_ok r (wi_fetched a) 1 err cs" using c(3) by auto
    then show ?thesis using cl c assms(2) None
      by (intro exI [of _ res] exI [of _ cs])
        (simp add: attempts_ok_def recordCommitMaxAttempts_def recordCommitBackoffBase_def list_all_iff)
  next
    case (Some e)
    then show ?thesis using cl c by (intro exI [of _ res] exI [of _ cs]) (simp add: millisecond_def)
  qed
qed

section \<open>The loop ends: lemmas\<close>

text \<open>What the loop needs of its interfaces to make progress: a call never turns the clock of ticks back.\<close>

declare Start.simps(2) [simp del]

text \<open>One iteration: either the loop returns, or it goes on from a next state.\<close>

definition Start_next :: "ext \<Rightarrow> RecordRunner \<Rightarrow> rr_state \<Rightarrow> (goerr option \<times> rr_state) + rr_state" where
  "Start_next x r st =
    (let w = st_world st; st = st\<lparr>st_world := step w\<rparr>
     in if ctx_err x (tick w) \<noteq> None then Inl (None, st)
        else
          (let (batch, w) = rr_poll r (st_world st); st = st\<lparr>st_world := w\<rparr>
           in case batch of
                Inl e \<Rightarrow>
                  (if errors_Is e context_Canceled \<or> errors_Is e context_DeadlineExceeded then Inl (None, st)
                   else if ctx_err x (tick w) \<noteq> None then Inl (None, st\<lparr>st_world := step w\<rparr>)
                   else Inr (st\<lparr>st_world := step w\<rparr>))
              | Inr fs \<Rightarrow> Inr (fold (handleFetched x r) fs st)))"

lemma Start_Suc: "Start (Suc n) x r st = (case Start_next x r st of Inl y \<Rightarrow> Some y | Inr st' \<Rightarrow> Start n x r st')"
  by (auto simp: Start.simps(2) Start_next_def Let_def split: prod.split sum.split)

lemma Start_fuel_mono: "Start n x r st = Some y \<Longrightarrow> n \<le> m \<Longrightarrow> Start m x r st = Some y"
proof (induction n arbitrary: m st)
  case (Suc n)
  then obtain m' where "m = Suc m'" "n \<le> m'" by (metis Suc_le_D Suc_le_mono)
  then show ?case using Suc by (simp add: Start_Suc split: sum.splits)
qed simp

text \<open>The samples the record runner takes itself.\<close>

definition record_sample :: "sample \<Rightarrow> bool" where
  "record_sample s \<longleftrightarrow>
    (\<exists>ent v. s = Observe ''dq_record_commit_duration_seconds'' [ent] v) \<or>
    (\<exists>ent oc. s = Inc ''dq_record_commit_retries_total'' [ent, oc]) \<or> (\<exists>ent. s = Inc ''dq_record_commit_failures_total'' [ent])"

text \<open>The sources behind the entity states of a runner, which no record changes.\<close>

definition sources_ok :: "(RecordSource \<Rightarrow> bool) \<Rightarrow> rr_state \<Rightarrow> bool" where
  "sources_ok Q st \<longleftrightarrow> (\<forall>e es. st_entities st e = Some es \<longrightarrow> Q (es_source es))"

lemma closeAndDispatch_frame:
  assumes "closeAndDispatch x r es st = (es', st')"
  shows "es_source es' = es_source es" "st_entities st' = st_entities st"
proof -
  have "es_source es' = es_source es \<and> st_entities st' = st_entities st"
  proof (cases "es_active es")
    case (Some a)
    with assms show ?thesis by (elim closeAndDispatch_calls) simp_all
  qed (use assms in \<open>simp add: closeAndDispatch_def\<close>)
  then show "es_source es' = es_source es" "st_entities st' = st_entities st" by simp_all
qed

text \<open>
  One record of a known entity: whatever holds of its state before, and is kept by updates of the entity that leave
  its source alone and by closing a window, holds when the new entity state is stored.
\<close>

lemma handleFetched_induct:
  assumes "rr_sources r (fr_topic f) = Some src" "st_entities st (so_entity src) = Some es" "J es st"
    and upd: "\<And>es es' st. J es st \<Longrightarrow> es_source es' = es_source es \<Longrightarrow> J es' st"
    and close: "\<And>es st es' st'. J es st \<Longrightarrow> closeAndDispatch x r es st = (es', st') \<Longrightarrow> J es' st'"
  shows "\<exists>es' st'. J es' st' \<and> handleFetched x r f st = st'\<lparr>st_entities := (st_entities st')(so_entity src \<mapsto> es')\<rparr>"
proof -
  define ws where "ws = Truncate (fr_timestamp f) (so_window_duration src)"
  define fresh where "fresh = \<lparr>wi_start = ws, wi_end = ws + so_window_duration src, wi_records = [], wi_fetched = []\<rparr>"
  define es0 where "es0 = (if es_watermark es < fr_timestamp f then es\<lparr>es_watermark := fr_timestamp f\<rparr> else es)"
  define a where "a = (case es_active es0 of None \<Rightarrow> fresh | Some a \<Rightarrow> a)"
  define es1 where "es1 = es0\<lparr>es_active := Some a\<rparr>"
  have J1: "J es1 st" by (rule upd [OF assms(3)]) (simp add: es1_def es0_def)
  obtain es2 st2 where p2: "(if wi_start a < ws then (case closeAndDispatch x r es1 st of (es, st) \<Rightarrow> (es\<lparr>es_active := Some fresh\<rparr>, st)) else (es1, st)) = (es2, st2)"
    by (rule prod.exhaust)
  have J2: "J es2 st2"
    using p2 J1 by (cases "closeAndDispatch x r es1 st") (auto split: if_splits intro: upd [OF close [OF J1]])
  define b where "b = append_record f (case es_active es2 of Some a \<Rightarrow> a | None \<Rightarrow> fresh)"
  define es3 where "es3 = es2\<lparr>es_active := Some b\<rparr>"
  have J3: "J es3 st2" by (rule upd [OF J2]) (simp add: es3_def)
  obtain es4 st4 where p4: "(if wi_end b + so_lateness_tolerance src < es_watermark es3 then closeAndDispatch x r es3 st2 else (es3, st2)) = (es4, st4)"
    by (rule prod.exhaust)
  have J4: "J es4 st4" using p4 J3 close [OF J3] by (auto split: if_splits)
  have eq: "handleFetched x r f st =
      (if ws < wi_start a then st\<lparr>st_entities := (st_entities st)(so_entity src \<mapsto> es1\<lparr>es_late_dropped := es_late_dropped es1 + 1\<rparr>)\<rparr>
       else st4\<lparr>st_entities := (st_entities st4)(so_entity src \<mapsto> es4)\<rparr>)"
    unfolding handleFetched_def assms(1,2) option.case Let_def if_cancel ws_def [symmetric] fresh_def [symmetric] es0_def [symmetric]
      a_def [symmetric] es1_def [symmetric] p2 prod.case b_def [symmetric] es3_def [symmetric] p4 by simp
  show ?thesis
  proof (cases "ws < wi_start a")
    case True
    then show ?thesis using eq upd [OF J1, of "es1\<lparr>es_late_dropped := es_late_dropped es1 + 1\<rparr>"] by auto
  next
    case False
    then show ?thesis using eq J4 by auto
  qed
qed

lemma handleFetched_sources:
  assumes "sources_ok Q st"
  shows "sources_ok Q (handleFetched x r f st)"
proof (cases "\<exists>src es. rr_sources r (fr_topic f) = Some src \<and> st_entities st (so_entity src) = Some es")
  case True
  then obtain src es where s: "rr_sources r (fr_topic f) = Some src" "st_entities st (so_entity src) = Some es" by blast
  have "\<exists>es' st'. (Q (es_source es') \<and> sources_ok Q st') \<and> handleFetched x r f st = st'\<lparr>st_entities := (st_entities st')(so_entity src \<mapsto> es')\<rparr>"
    by (rule handleFetched_induct [OF s]) (use assms s(2) in \<open>auto simp: sources_ok_def closeAndDispatch_frame\<close>)
  then show ?thesis by (auto simp: sources_ok_def split: if_splits)
next
  case False
  then show ?thesis using assms by (auto simp: handleFetched_def split: option.splits)
qed

text \<open>
  What handling a record does to the world, up to any preorder that admits an outside call, the runner's own
  samples, the work of its consumer, and that of its dispatcher on windows of the runner's sources. Progress of
  the clock, growth of the tables and the typing of the samples are instances.
\<close>

locale stream_relation =
  fixes r :: RecordRunner and R :: "world \<Rightarrow> world \<Rightarrow> bool" and Q :: "RecordSource \<Rightarrow> bool"
  assumes refl: "R w w" and trans: "R u v \<Longrightarrow> R v w \<Longrightarrow> R u w"
    and forward: "R w (step w)"
    and sampled: "list_all record_sample ss \<Longrightarrow> R w (sample ss w)"
    and commit_rel: "R w (snd (rr_commit r recs w))"
    and run_rel: "Q (es_source es) \<Longrightarrow> R w (snd (rr_run r (window_trigger r es a) w))"
begin

lemma commit_attempts_rel: "R (st_world st) (st_world (snd (commit_attempts x r ent recs n le st)))"
proof (induction "Suc recordCommitMaxAttempts - n" arbitrary: n le st rule: less_induct)
  case less
  obtain e w where com: "rr_commit r recs (step (st_world st)) = (e, w)" by fastforce
  define w1 where "w1 = sample [Observe ''dq_record_commit_duration_seconds'' [ent]
    (Seconds (Sub (clock x (tick w)) (clock x (tick (st_world st)))))] (step w)"
  have "R (st_world st) w" using trans [OF forward commit_rel [of _ recs]] com by (metis snd_conv)
  then have "R (st_world st) (step w)" using forward trans by blast
  then have w1: "R (st_world st) w1" unfolding w1_def by (rule trans) (rule sampled, simp add: record_sample_def)
  have inc: "R (st_world st) (sample [Inc ''dq_record_commit_retries_total'' [ent, oc]] w1)" for oc
    by (rule trans [OF w1]) (rule sampled, simp add: record_sample_def)
  have step1: "R (st_world st) (step w1)" by (rule trans [OF w1 forward])
  show ?case
  proof (cases "n < recordCommitMaxAttempts \<and> e \<noteq> None \<and> ctx_err x (tick w1) = None")
    case True
    then have "R (st_world st') (st_world (snd (commit_attempts x r ent recs (Suc n) le' st')))" for le' st'
      by (intro less) auto
    note ih = this
    show ?thesis using True com step1 w1_def
      by (subst commit_attempts.simps) (auto simp: now_def Let_def intro!: trans [OF _ ih])
  next
    case False
    then show ?thesis using com w1 inc step1 w1_def refl
      by (subst commit_attempts.simps) (auto simp: now_def Let_def split: option.splits)
  qed
qed

lemma closeAndDispatch_rel:
  assumes "Q (es_source es)"
  shows "R (st_world st) (st_world (snd (closeAndDispatch x r es st)))"
proof (cases "es_active es")
  case (Some a)
  obtain res w where run: "rr_run r (window_trigger r es a) (st_world st) = (res, w)" by fastforce
  have w: "R (st_world st) w" using run_rel [OF assms, of "st_world st" a] run by simp
  let ?st = "log_call (Dispatched (window_trigger r es a) None) (st\<lparr>st_world := w\<rparr>)"
  obtain err st1 where com: "commitWithRetry x r (wi_fetched a) ?st = (err, st1)" by fastforce
  have "R w (st_world st1)"
    using commit_attempts_rel [of ?st x "commitEntity r (wi_fetched a)" "wi_fetched a" 1 None] com
    by (simp add: commitWithRetry_def)
  then have st1: "R (st_world st) (st_world st1)" using w trans by blast
  have "R (st_world st) (sample [Inc ''dq_record_commit_failures_total'' [ent]] (st_world st1))" for ent
    by (rule trans [OF st1]) (rule sampled, simp add: record_sample_def)
  then show ?thesis using Some run w st1 com
    by (auto simp: closeAndDispatch_def Let_def split: sum.splits option.splits)
qed (simp add: closeAndDispatch_def refl)

lemma handleFetched_rel:
  assumes "sources_ok Q st"
  shows "R (st_world st) (st_world (handleFetched x r f st))"
proof (cases "\<exists>src es. rr_sources r (fr_topic f) = Some src \<and> st_entities st (so_entity src) = Some es")
  case True
  then obtain src es where s: "rr_sources r (fr_topic f) = Some src" "st_entities st (so_entity src) = Some es" by blast
  have "\<exists>es' st'. (Q (es_source es') \<and> R (st_world st) (st_world st')) \<and>
      handleFetched x r f st = st'\<lparr>st_entities := (st_entities st')(so_entity src \<mapsto> es')\<rparr>"
  proof (rule handleFetched_induct [OF s])
    show "Q (es_source es) \<and> R (st_world st) (st_world st)" using assms s(2) refl by (simp add: sources_ok_def)
    show "Q (es_source es') \<and> R (st_world st) (st_world st2)"
      if "Q (es_source es1) \<and> R (st_world st) (st_world st1)" "closeAndDispatch x r es1 st1 = (es', st2)" for es1 st1 es' st2
      using that closeAndDispatch_rel [of es1 st1 x] closeAndDispatch_frame [OF that(2)] trans by fastforce
  qed auto
  then show ?thesis by auto
next
  case False
  then show ?thesis using refl by (auto simp: handleFetched_def split: option.splits)
qed

lemma fold_handle_rel: "sources_ok Q st \<Longrightarrow> R (st_world st) (st_world (fold (handleFetched x r) fs st))"
proof (induction fs arbitrary: st)
  case (Cons f fs)
  then show ?case using handleFetched_rel [of st x f] handleFetched_sources [of Q st x r f] trans by simp
qed (simp add: refl)

end

locale stream_interfaces =
  fixes r :: RecordRunner
  assumes poll_forward: "tick w \<le> tick (snd (rr_poll r w))"
    and commit_forward: "tick w \<le> tick (snd (rr_commit r recs w))"
    and run_forward: "tick w \<le> tick (snd (rr_run r tr w))"

sublocale stream_interfaces \<subseteq> time: stream_relation r "\<lambda>w w'. tick w \<le> tick w'" "\<lambda>src. True"
  by unfold_locales (use commit_forward run_forward in auto)

context stream_interfaces
begin

lemma Start_next_forward: "Start_next x r st = Inr st' \<Longrightarrow> tick (st_world st) < tick (st_world st')"
proof -
  assume next': "Start_next x r st = Inr st'"
  obtain b w where poll: "rr_poll r (step (st_world st)) = (b, w)" by fastforce
  have w: "tick (st_world st) < tick w" using poll_forward [of "step (st_world st)"] poll by simp
  show ?thesis
  proof (cases b)
    case (Inl e)
    then have "st' = st\<lparr>st_world := step w\<rparr>"
      using next' poll by (auto simp: Start_next_def Let_def split: if_splits)
    then show ?thesis using w by simp
  next
    case (Inr fs)
    then have "st' = fold (handleFetched x r) fs (st\<lparr>st_world := w\<rparr>)"
      using next' poll by (auto simp: Start_next_def Let_def split: if_splits)
    then show ?thesis using w time.fold_handle_rel [of "st\<lparr>st_world := w\<rparr>" x fs] by (simp add: sources_ok_def)
  qed
qed

lemma Start_next_nil: "Start_next x r st = Inl (e, st') \<Longrightarrow> e = None"
  by (auto simp: Start_next_def Let_def split: if_splits sum.splits prod.splits)

lemma Start_ends:
  assumes "\<forall>t \<ge> T. ctx_err x t \<noteq> None"
  shows "\<exists>st'. Start (Suc (T - tick (st_world st))) x r st = Some (None, st')"
proof (induction "T - tick (st_world st)" arbitrary: st rule: less_induct)
  case less
  show ?case
  proof (cases "Start_next x r st")
    case (Inl y)
    then show ?thesis using Start_next_nil [of x st] by (cases y) (simp add: Start_Suc)
  next
    case (Inr st1)
    have "ctx_err x (tick (st_world st)) = None"
    proof (rule ccontr)
      assume "ctx_err x (tick (st_world st)) \<noteq> None"
      then show False using Inr by (simp add: Start_next_def Let_def)
    qed
    then have T: "tick (st_world st) < T" using assms by (metis not_le)
    have "tick (st_world st) < tick (st_world st1)" using Inr by (rule Start_next_forward)
    then have lt: "T - tick (st_world st1) < T - tick (st_world st)" using T by simp
    obtain st' where "Start (Suc (T - tick (st_world st1))) x r st1 = Some (None, st')"
      using less [OF lt] by blast
    then have "Start (T - tick (st_world st)) x r st1 = Some (None, st')"
      by (rule Start_fuel_mono) (use lt in simp)
    then show ?thesis using Inr by (simp add: Start_Suc)
  qed
qed

end

text \<open>The engine's wiring: the Kafka consumer and the same \<^verbatim>\<open>Runner\<close> the HTTP handler uses.\<close>

definition engine_record_runner ::
  "ext \<Rightarrow> Runner \<Rightarrow> (nat \<Rightarrow> goerr option \<times> FetchedRecord list) \<Rightarrow> (nat \<Rightarrow> (string \<times> int \<times> int) list \<Rightarrow> goerr option)
   \<Rightarrow> (nat \<Rightarrow> duration \<Rightarrow> duration) \<Rightarrow> string \<Rightarrow> (string \<rightharpoonup> RecordSource) \<Rightarrow> RecordRunner" where
  "engine_record_runner x rn poll flush jitter v sources =
    \<lparr>rr_poll = PollFetches poll, rr_commit = Commit flush, rr_run = Run x rn, rr_jitter = jitter,
     rr_ruleset_version = v, rr_sources = sources\<rparr>"

interpretation engine_stream: stream_interfaces "engine_record_runner x rn poll flush jitter v sources"
  for x rn poll flush jitter v sources
proof
  fix w recs tr
  show "tick w \<le> tick (snd (rr_poll (engine_record_runner x rn poll flush jitter v sources) w))"
    by (simp add: engine_record_runner_def PollFetches_def)
  show "tick w \<le> tick (snd (rr_commit (engine_record_runner x rn poll flush jitter v sources) recs w))"
    by (simp add: engine_record_runner_def Commit_def split: option.split)
  show "tick w \<le> tick (snd (rr_run (engine_record_runner x rn poll flush jitter v sources) tr w))"
    using extends_Run [of w x rn tr] by (simp add: engine_record_runner_def extends_def)
qed

text \<open>
  C15. Graceful shutdown: once the context stays cancelled from some tick on, the poll loop of the
  engine's record runner returns nil, within as many iterations as ticks were left.
\<close>

theorem Start_returns:
  assumes "\<forall>t \<ge> T. ctx_err x t \<noteq> None"
  shows "\<exists>st'. Start (Suc (T - tick (st_world st))) x (engine_record_runner x rn poll flush jitter v sources) st = Some (None, st')"
  using assms by (rule engine_stream.Start_ends)

section \<open>A window whose dispatch fails\<close>

text \<open>
  C14. A window whose dispatch failed is given up, on every stream and with every dispatcher: it is dispatched that
  once and never again, and every commit, before or after, passes exactly the records of some window whose
  dispatch succeeded, none of which lies in the failed window of the entity.
\<close>

theorem failed_window_dropped:
  assumes "NewRecordRunner jitter cfg = Inr (r, state)"
    and "distinct (map so_entity (rc_sources cfg))" "\<forall>src \<in> set (rc_sources cfg). 0 \<le> so_lateness_tolerance src"
    and "\<forall>f \<in> set fs. 0 \<le> fr_timestamp f"
    and "calls = st_calls (fold (handleFetched x r) fs (initial_state state w))" "(tr, Some e) \<in> set (dispatches calls)"
  shows "filter (\<lambda>(tr', res). tr_entity tr' = tr_entity tr \<and> tr_window_start tr' = tr_window_start tr) (dispatches calls) = [(tr, Some e)] \<and>
    list_all (\<lambda>(recs, res). \<exists>tr'. (tr', None) \<in> set (dispatches calls) \<and> tr_records tr' = map to_record recs \<and>
      (tr_entity tr' = tr_entity tr \<longrightarrow> list_all (\<lambda>f. fr_timestamp f < tr_window_start tr \<or> tr_window_end tr \<le> fr_timestamp f) recs))
      (commits calls)"
proof -
  let ?D = "filter (\<lambda>d. tr_entity (fst d) = tr_entity tr) (dispatches calls)"
  have inv: "commits_inv r (fold (handleFetched x r) fs (initial_state state w))" by (rule stream_commits [OF assms(1-4)])
  then obtain topic src where src: "rr_sources r topic = Some src" "tr_entity tr = so_entity src"
    using assms(5,6) by (fastforce simp: commits_inv_def)
  have D: "entity_dispatches (so_entity src) calls = map fst ?D"
    using src(2) by (simp add: entity_dispatches_def filter_map comp_def)
  have ord: "sorted_wrt (<) (map (tr_window_start \<circ> fst) ?D)" "list_all (aligned src \<circ> fst) ?D"
    using stream_order [OF assms(1-4) src(1) refl, of x w] D assms(5) by (simp_all add: list.pred_map)
  have mem: "(tr, Some e) \<in> set ?D" using assms(6) by simp
  note alone = window_alone [OF ord mem]
  have "\<exists>tr'. (tr', None) \<in> set (dispatches calls) \<and> tr_records tr' = map to_record (fst c) \<and>
      (tr_entity tr' = tr_entity tr \<longrightarrow> list_all (\<lambda>f. fr_timestamp f < tr_window_start tr \<or> tr_window_end tr \<le> fr_timestamp f) (fst c))"
    if c: "c \<in> set (commits calls)" for c
  proof -
    obtain tr' where tr': "(tr', None) \<in> set (dispatches calls)" "tr_records tr' = map to_record (fst c)"
      using inv c assms(5) by (fastforce simp: commits_inv_def)
    have "fr_timestamp f < tr_window_start tr \<or> tr_window_end tr \<le> fr_timestamp f"
      if "tr_entity tr' = tr_entity tr" "f \<in> set (fst c)" for f
      using alone(2) [of "(tr', None)" "to_record f"] tr' that by (simp add: to_record_def)
    then show ?thesis using tr' by (auto simp: list_all_iff)
  qed
  then show ?thesis using alone(1) by (auto simp: list_all_iff case_prod_beta' conj_commute)
qed

definition demo_source :: RecordSource where
  "demo_source = \<lparr>so_entity = ''clicks'', so_topic = ''t'', so_consumer_group = ''g'', so_window_duration = 10,
    so_lateness_tolerance = 100, so_checks = []\<rparr>"

definition demo_fetched :: "int \<Rightarrow> time \<Rightarrow> FetchedRecord" where
  "demo_fetched i t = \<lparr>fr_topic = ''t'', fr_partition = 0, fr_offset = i, fr_timestamp = t, fr_body = []\<rparr>"

text \<open>A dispatcher that fails on the window starting at 0 only, and a broker that accepts every commit.\<close>

definition demo_dispatch :: "TriggerRequest \<Rightarrow> world \<Rightarrow> ExecutionRow result \<times> world" where
  "demo_dispatch tr w =
    (if tr_window_start tr = 0 then (Inl (errors_New ''write running row''), step w)
     else (Inr (terminal_row (demo_runner True) [] [] 0 tr StatusSuccess None 0), step w))"

definition demo_config :: RecordRunnerConfig where
  "demo_config = \<lparr>rc_consumer = Some (PollFetches (\<lambda>t. (None, [])), Commit (\<lambda>t recs. None)), rc_sources = [demo_source],
    rc_dispatcher = Some demo_dispatch, rc_ruleset_version = ''r1''\<rparr>"

definition demo_stream :: "FetchedRecord list" where
  "demo_stream = [demo_fetched 0 1, demo_fetched 1 11, demo_fetched 2 21]"

definition demo_record_runner :: "RecordRunner \<times> (string \<rightharpoonup> entityState)" where
  "demo_record_runner =
    (case NewRecordRunner (\<lambda>t m. 0) demo_config of Inr p \<Rightarrow> p
     | Inl e \<Rightarrow> (\<lparr>rr_poll = PollFetches (\<lambda>t. (None, [])), rr_commit = Commit (\<lambda>t recs. None), rr_run = demo_dispatch,
                 rr_jitter = (\<lambda>t m. 0), rr_ruleset_version = [], rr_sources = Map.empty\<rparr>, Map.empty))"

definition demo_calls :: "call list" where
  "demo_calls = st_calls (fold (handleFetched quiet (fst demo_record_runner)) demo_stream
                  (initial_state (snd demo_record_runner) empty_world))"

lemma demo_new: "NewRecordRunner (\<lambda>t m. 0) demo_config = Inr (fst demo_record_runner, snd demo_record_runner)"
  by (simp add: demo_record_runner_def NewRecordRunner_def demo_config_def demo_source_def)

text \<open>The calls of the small stream: the first window fails, the second is committed.\<close>

lemma demo_calls_eq: "demo_calls =
  [Dispatched \<lparr>tr_entity = ''clicks'', tr_window_start = 0, tr_window_end = 10, tr_source = TriggerScheduler,
     tr_supersedes = None, tr_checks = [], tr_ruleset_version = ''r1'', tr_attempt_id = None,
     tr_records = [to_record (demo_fetched 0 1)], tr_late_dropped = 0\<rparr> (Some (errors_New ''write running row'')),
   Dispatched \<lparr>tr_entity = ''clicks'', tr_window_start = 10, tr_window_end = 20, tr_source = TriggerScheduler,
     tr_supersedes = None, tr_checks = [], tr_ruleset_version = ''r1'', tr_attempt_id = None,
     tr_records = [to_record (demo_fetched 1 11)], tr_late_dropped = 0\<rparr> None,
   Committed [demo_fetched 1 11] None]"
  by (simp add: demo_calls_def demo_record_runner_def NewRecordRunner_def demo_config_def demo_source_def
      demo_stream_def demo_fetched_def initial_state_def handleFetched_def Truncate_def Let_def append_record_def
      closeAndDispatch_def window_trigger_def demo_dispatch_def commitWithRetry_def commitEntity_def
      commit_attempts.simps recordCommitMaxAttempts_def now_def Commit_def to_record_def)

section \<open>Witnesses\<close>

lemma demo_config_ok:
  "distinct (map so_entity (rc_sources demo_config))" "\<forall>src \<in> set (rc_sources demo_config). 0 \<le> so_lateness_tolerance src"
  "\<forall>f \<in> set demo_stream. 0 \<le> fr_timestamp f" "rr_sources (fst demo_record_runner) ''t'' = Some demo_source"
  by (simp_all add: demo_config_def demo_source_def demo_stream_def demo_fetched_def demo_record_runner_def NewRecordRunner_def)

theorem failed_window_dropped_witness:
  "\<exists>tr e. (tr, Some e) \<in> set (dispatches demo_calls) \<and> tr_window_start tr = 0 \<and>
     filter (\<lambda>(tr', res). tr_entity tr' = tr_entity tr \<and> tr_window_start tr' = tr_window_start tr) (dispatches demo_calls) = [(tr, Some e)] \<and>
     commits demo_calls = [([demo_fetched 1 11], None)]"
proof -
  obtain tr e where f: "(tr, Some e) \<in> set (dispatches demo_calls)" "tr_window_start tr = 0" by (auto simp: demo_calls_eq)
  have "commits demo_calls = [([demo_fetched 1 11], None)]" by (simp add: demo_calls_eq)
  then show ?thesis using failed_window_dropped [OF demo_new demo_config_ok(1-3) demo_calls_def f(1)] f by blast
qed

theorem handleFetched_tumbles_witness:
  "demo_calls = st_calls (fold (tumble quiet (fst demo_record_runner)) demo_stream
                  (initial_state (snd demo_record_runner) empty_world))"
  using handleFetched_tumbles [OF demo_new demo_config_ok(1-3)] by (simp add: demo_calls_def)

theorem records_accounted_witness:
  "accounted ''clicks'' (fold (handleFetched quiet (fst demo_record_runner)) demo_stream
     (initial_state (snd demo_record_runner) empty_world)) = 3"
  using records_accounted [OF demo_new demo_config_ok] demo_config_ok(4)
  by (simp add: demo_stream_def demo_fetched_def demo_source_def)

theorem windows_ordered_witness:
  "sorted_wrt (<) (map tr_window_start (entity_dispatches ''clicks'' demo_calls))"
  using windows_ordered [OF demo_new demo_config_ok refl] by (simp add: demo_calls_def demo_source_def)

theorem close_commits_after_dispatch_witness:
  "\<exists>cs. st_calls (snd (closeAndDispatch quiet (fst demo_record_runner)
          \<lparr>es_source = demo_source, es_watermark = 11,
           es_active = Some (append_record (demo_fetched 1 11) (fresh_window demo_source (demo_fetched 1 11))),
           es_late_dropped = 0\<rparr> (initial_state Map.empty empty_world))) = cs \<and> length (commits cs) \<le> 3"
proof -
  have j: "jitter_bounded (fst demo_record_runner)"
    by (simp add: jitter_bounded_def demo_record_runner_def NewRecordRunner_def demo_config_def demo_source_def)
  show ?thesis
    using close_commits_after_dispatch [OF _ j, of
        "\<lparr>es_source = demo_source, es_watermark = 11,
           es_active = Some (append_record (demo_fetched 1 11) (fresh_window demo_source (demo_fetched 1 11))),
           es_late_dropped = 0\<rparr>" _ quiet "initial_state Map.empty empty_world"]
    by (auto simp: initial_state_def)
qed

theorem Start_returns_witness:
  "\<exists>st'. Start 4 (quiet\<lparr>ctx_err := (\<lambda>t. if t < 3 then None else Some context_Canceled)\<rparr>)
     (engine_record_runner (quiet\<lparr>ctx_err := (\<lambda>t. if t < 3 then None else Some context_Canceled)\<rparr>) (demo_runner True)
        (\<lambda>t. (None, [])) (\<lambda>t recs. None) (\<lambda>t m. 0) ''r1'' Map.empty) (initial_state Map.empty empty_world) = Some (None, st')"
  using Start_returns [of 3 "quiet\<lparr>ctx_err := (\<lambda>t. if t < 3 then None else Some context_Canceled)\<rparr>"
      "initial_state Map.empty empty_world"]
  by (simp add: initial_state_def eval_nat_numeral)

end
