(* ===== verification/Orphan.thy ===== *)
theory Orphan
  imports Store
begin

text \<open>
  The orphan-run detector, \<^verbatim>\<open>engine/internal/orphan\<close>: one scan pass finalises the stale \<^verbatim>\<open>running\<close>
  executions to \<^verbatim>\<open>aborted\<close>. The detector sees the result store through the two methods of its
  \<^verbatim>\<open>Scanner\<close> interface; \<open>scanner\<close> states what they promise, the detector's lemmas are proved over
  it and \<open>BigQueryStore\<close> is shown to provide it.
\<close>

section \<open>The detector\<close>

record Scanner =
  sc_list :: "time \<Rightarrow> world \<Rightarrow> ExecutionRow list result \<times> world"
  sc_write :: "ExecutionRow \<Rightarrow> world \<Rightarrow> goerr option \<times> world"

record DetectorConfig =
  dc_engine_version :: string
  dc_threshold :: duration

record Detector =
  de_scanner :: Scanner
  de_engine_version :: string
  de_threshold :: duration

definition AbandonmentSummary :: string where
  "AbandonmentSummary = ''orphan-run detection: engine instance abandoned this execution''"

text \<open>A Go duration prints as text through \<open>show_duration\<close>, which only the error message uses.\<close>

definition New :: "(duration \<Rightarrow> string) \<Rightarrow> Scanner option \<Rightarrow> DetectorConfig \<Rightarrow> Detector result" where
  "New show_duration scanner cfg =
    (case scanner of
       None \<Rightarrow> Inl (errors_New ''orphan: scanner is required'')
     | Some sc \<Rightarrow>
         (if dc_engine_version cfg = [] then Inl (errors_New ''orphan: EngineVersion is required'')
          else if dc_threshold cfg \<le> 0
          then Inl (Errorf ''orphan: Threshold must be positive; got %v'' [S (show_duration (dc_threshold cfg))])
          else Inr \<lparr>de_scanner = sc, de_engine_version = dc_engine_version cfg, de_threshold = dc_threshold cfg\<rparr>))"

definition followup_row :: "Detector \<Rightarrow> ExecutionRow \<Rightarrow> time \<Rightarrow> ExecutionRow" where
  "followup_row d candidate t =
    \<lparr>er_execution_id = er_execution_id candidate, er_attempt_id = er_attempt_id candidate,
     er_recorded_at = t, er_status = StatusAborted, er_mode = er_mode candidate,
     er_engine_version = de_engine_version d, er_ruleset_version = er_ruleset_version candidate,
     er_entity = er_entity candidate, er_trigger_source = er_trigger_source candidate,
     er_window_start = er_window_start candidate, er_window_end = er_window_end candidate,
     er_started_at = er_started_at candidate, er_completed_at = Some t,
     er_error_summary = Some AbandonmentSummary, er_supersedes = er_supersedes candidate\<rparr>"

definition buildFollowupRow :: "ext \<Rightarrow> Detector \<Rightarrow> ExecutionRow \<Rightarrow> world \<Rightarrow> ExecutionRow \<times> world" where
  "buildFollowupRow x d candidate w =
    (let (t, w) = now x w in (followup_row d candidate (UTC t), w))"

definition aborted_event :: "ExecutionRow \<Rightarrow> ExecutionRow \<Rightarrow> Event" where
  "aborted_event candidate followup =
    \<lparr>ev_execution_id = Some (er_execution_id candidate), ev_attempt_id = Some (er_attempt_id candidate),
     ev_entity = er_entity candidate, ev_check_id = None, ev_category = CategoryOperational,
     ev_severity = None, ev_source = SourceOrphanDetector, ev_result = None,
     ev_status = Some StatusAborted, ev_recorded_at = er_recorded_at followup,
     ev_error_summary = er_error_summary followup\<rparr>"

definition emitAbortedAlert :: "ext \<Rightarrow> ExecutionRow \<Rightarrow> ExecutionRow \<Rightarrow> world \<Rightarrow> world" where
  "emitAbortedAlert x candidate followup w = snd (Publish x (aborted_event candidate followup) w)"

text \<open>The candidate loop: \<open>(finalized, errs, ctx.Err())\<close>, each accumulated as the source does.\<close>

fun finalize_all ::
  "ext \<Rightarrow> Detector \<Rightarrow> ExecutionRow list \<Rightarrow> nat \<Rightarrow> goerr list \<Rightarrow> world \<Rightarrow> (nat \<times> goerr list \<times> goerr option) \<times> world" where
  "finalize_all x d [] finalized errs w = ((finalized, errs, None), w)"
| "finalize_all x d (candidate # candidates) finalized errs w =
    (case ctx_err x (tick w) of
       Some e \<Rightarrow> ((finalized, errs, Some e), step w)
     | None \<Rightarrow>
         (let (followup, w) = buildFollowupRow x d candidate (step w);
              (writeErr, w) = sc_write (de_scanner d) followup w
          in case writeErr of
               Some e \<Rightarrow>
                 finalize_all x d candidates finalized
                   (errs @ [Errorf ''finalize %s/%s: %w'' [S (er_execution_id candidate), S (er_attempt_id candidate), W e]]) w
             | None \<Rightarrow>
                 finalize_all x d candidates (finalized + 1) errs (emitAbortedAlert x candidate followup w)))"

definition RunOnce :: "ext \<Rightarrow> Detector \<Rightarrow> world \<Rightarrow> (nat \<times> goerr list \<times> goerr option) \<times> world" where
  "RunOnce x d w =
    (let (t, w) = now x w;
         cutoff = UTC t + (- de_threshold d);
         (candidates, w) = sc_list (de_scanner d) cutoff w
     in case candidates of
          Inl e \<Rightarrow> ((0, [], Some (Errorf ''scan for orphan candidates: %w'' [W e])), w)
        | Inr rows \<Rightarrow> finalize_all x d rows 0 [] w)"

section \<open>What a scanner promises\<close>

text \<open>
  A scan leaves the state alone but for the tick and returns, once each, executions whose latest
  row is \<^verbatim>\<open>running\<close> with a \<^verbatim>\<open>started_at\<close> before the cutoff; a write appends copies of the row to
  \<^verbatim>\<open>dq_executions\<close>, at least one when it reports success.
\<close>

definition latest :: "ext \<Rightarrow> world \<Rightarrow> executionRecord \<Rightarrow> bool" where
  "latest x w rec \<longleftrightarrow> rec \<in> set (visible x w) \<and>
    (\<forall>y \<in> set (visible x w). xr_execution_id y = xr_execution_id rec \<longrightarrow> xr_recorded_at y \<le> xr_recorded_at rec)"

definition stale :: "ext \<Rightarrow> time \<Rightarrow> world \<Rightarrow> executionRecord \<Rightarrow> bool" where
  "stale x before w rec \<longleftrightarrow> latest x w rec \<and> xr_status rec = StatusRunning
     \<and> nt_valid (xr_started_at rec) \<and> nt_timestamp (xr_started_at rec) < timestamp x before"

definition strictly_latest :: "ext \<Rightarrow> world \<Rightarrow> executionRecord \<Rightarrow> bool" where
  "strictly_latest x w rec \<longleftrightarrow>
    (\<forall>y \<in> set (visible x w). xr_execution_id y = xr_execution_id rec \<longrightarrow> y \<noteq> rec \<longrightarrow> xr_recorded_at y < xr_recorded_at rec)"

type_synonym finalization = "ExecutionRow \<times> ExecutionRow \<times> nat \<times> bool"

fun log_rows :: "finalization \<Rightarrow> executionRecord list" where
  "log_rows (c, fu, n, ok) = replicate n (toExecutionRecord fu)"

fun log_alerts :: "finalization \<Rightarrow> Event list" where
  "log_alerts (c, fu, n, ok) = (if ok then [aborted_event c fu] else [])"

fun log_ok :: "finalization \<Rightarrow> bool" where
  "log_ok (c, fu, n, ok) = ok"

definition attempted :: "ext \<Rightarrow> Detector \<Rightarrow> nat \<Rightarrow> ExecutionRow \<Rightarrow> finalization \<Rightarrow> bool" where
  "attempted x d t0 c en \<longleftrightarrow>
    (\<exists>t n ok. en = (c, followup_row d c (UTC (clock x t)), n, ok) \<and> t0 < t \<and> (ok \<longrightarrow> 0 < n))"

lemma attempted_mono: "attempted x d t c en \<Longrightarrow> s \<le> t \<Longrightarrow> attempted x d s c en"
proof -
  assume "attempted x d t c en" "s \<le> t"
  then obtain t' n ok where "en = (c, followup_row d c (UTC (clock x t')), n, ok)" "s < t'" "ok \<longrightarrow> 0 < n"
    by (auto simp: attempted_def)
  then show ?thesis unfolding attempted_def by (intro exI [of _ t'] exI [of _ n] exI [of _ ok]) simp
qed

locale scanner =
  fixes sc :: Scanner and x :: ext
  assumes list_frame: "snd (sc_list sc before w) = step w"
    and list_sound: "fst (sc_list sc before w) = Inr rows \<Longrightarrow> row \<in> set rows \<Longrightarrow>
      \<exists>rec. row = fromExecutionRecord rec \<and> stale x before w rec"
    and list_complete: "fst (sc_list sc before w) = Inr rows \<Longrightarrow> stale x before w rec \<Longrightarrow>
      strictly_latest x w rec \<Longrightarrow> \<exists>row \<in> set rows. er_execution_id row = xr_execution_id rec"
    and list_distinct: "fst (sc_list sc before w) = Inr rows \<Longrightarrow> distinct (map er_execution_id rows)"
    and write_appends: "\<exists>n. snd (sc_write sc row w) = (step w)\<lparr>executions := executions w @ replicate n (toExecutionRecord row)\<rparr>
      \<and> (fst (sc_write sc row w) = None \<longrightarrow> 0 < n)"
begin

lemma write_cases:
  assumes "sc_write sc row w = (err, w')"
  obtains n where "executions w' = executions w @ replicate n (toExecutionRecord row)"
    "check_results w' = check_results w" "published w' = published w" "samples w' = samples w"
    "tick w' = Suc (tick w)" "err = None \<Longrightarrow> 0 < n"
  using write_appends [of row w] assms by auto

text \<open>
  The log of a pass: per candidate handled, the follow-up row, the copies left in the table and
  whether the write reported success. Alerts and the count follow the successes, the error list
  the failures.
\<close>

lemma finalize_all_log:
  assumes "finalize_all x d cs f es w = ((f', es', ce), w')" "de_scanner d = sc"
  shows "\<exists>log. list_all2 (attempted x d (tick w)) (take (length log) cs) log \<and> length log \<le> length cs
    \<and> executions w' = executions w @ concat (map log_rows log)
    \<and> published w' = published w @ concat (map log_alerts log)
    \<and> check_results w' = check_results w \<and> extends w w'
    \<and> f' = f + length (filter log_ok log) \<and> length es' = length es + length (filter (\<lambda>en. \<not> log_ok en) log)
    \<and> (ce = None \<longrightarrow> length log = length cs)"
  using assms(1)
proof (induction cs arbitrary: f es w)
  case Nil
  then show ?case by (intro exI [of _ "[]"]) auto
next
  case (Cons c cs)
  show ?case
  proof (cases "ctx_err x (tick w)")
    case (Some e)
    then have "ce = Some e" "w' = step w" "f' = f" "es' = es" using Cons.prems by simp_all
    then show ?thesis by (intro exI [of _ "[]"]) (auto simp: append_only)
  next
    case None
    let ?fu = "followup_row d c (UTC (clock x (Suc (tick w))))"
    obtain err w1 where wr: "sc_write sc ?fu (step (step w)) = (err, w1)" by fastforce
    then obtain n where n: "executions w1 = executions w @ replicate n (toExecutionRecord ?fu)"
      "check_results w1 = check_results w" "published w1 = published w" "samples w1 = samples w"
      "tick w1 = tick w + 3" "err = None \<Longrightarrow> 0 < n"
      by (rule write_cases) auto
    define w2 where "w2 = (if err = None then emitAbortedAlert x c ?fu w1 else w1)"
    define en where "en = (c, ?fu, n, err = None)"
    have w2: "executions w2 = executions w @ log_rows en" "published w2 = published w @ log_alerts en"
      "check_results w2 = check_results w" "extends w w2" "tick w \<le> tick w2"
      using n by (auto simp: w2_def en_def emitAbortedAlert_def Publish_def extends_def)
    obtain f1 es1 where run: "finalize_all x d cs f1 es1 w2 = ((f', es', ce), w')"
      "f1 = f + (if err = None then 1 else 0)" "length es1 = length es + (if err = None then 0 else 1)"
      using Cons.prems None wr assms(2) unfolding w2_def
      by (cases err) (auto simp: buildFollowupRow_def now_def Let_def)
    obtain log where log: "list_all2 (attempted x d (tick w2)) (take (length log) cs) log" "length log \<le> length cs"
      "executions w' = executions w2 @ concat (map log_rows log)"
      "published w' = published w2 @ concat (map log_alerts log)"
      "check_results w' = check_results w2" "extends w2 w'"
      "f' = f1 + length (filter log_ok log)" "length es' = length es1 + length (filter (\<lambda>en. \<not> log_ok en) log)"
      "ce = None \<longrightarrow> length log = length cs"
      using Cons.IH [OF run(1)] by blast
    have "attempted x d (tick w) c en" using n(6) by (auto simp: attempted_def en_def)
    moreover have "list_all2 (attempted x d (tick w)) (take (length log) cs) log"
      using log(1) by (rule list_all2_mono) (rule attempted_mono [OF _ w2(5)])
    ultimately show ?thesis
      using log w2 run(2,3) extends_trans [OF w2(4) log(6)]
      by (intro exI [of _ "en # log"]) (auto simp: en_def)
  qed
qed

text \<open>
  One pass: the count and the errors account for every candidate; only \<^verbatim>\<open>aborted\<close> follow-up rows of
  stale executions are appended, and after a pass without errors the latest row of every
  candidate is \<^verbatim>\<open>aborted\<close>.
\<close>

lemma RunOnce_pass:
  assumes "RunOnce x d w = ((f, errs, None), w')" "de_scanner d = sc"
  obtains rows log where "fst (sc_list sc (UTC (clock x (tick w)) + (- de_threshold d)) (step w)) = Inr rows"
    "list_all2 (attempted x d (tick w)) rows log"
    "executions w' = executions w @ concat (map log_rows log)"
    "published w' = published w @ concat (map log_alerts log)"
    "check_results w' = check_results w" "extends w w'"
    "f = length (filter log_ok log)" "length errs = length (filter (\<lambda>en. \<not> log_ok en) log)"
proof -
  let ?cut = "UTC (clock x (tick w)) + (- de_threshold d)"
  obtain r w1 where l: "sc_list sc ?cut (step w) = (r, w1)" by fastforce
  then have w1: "w1 = step (step w)" using list_frame [of ?cut "step w"] by simp
  obtain rows where rows: "r = Inr rows" "finalize_all x d rows 0 [] w1 = ((f, errs, None), w')"
    using assms l by (cases r) (auto simp: RunOnce_def now_def Let_def)
  obtain log where log: "list_all2 (attempted x d (tick w1)) (take (length log) rows) log"
    "executions w' = executions w1 @ concat (map log_rows log)"
    "published w' = published w1 @ concat (map log_alerts log)"
    "check_results w' = check_results w1" "extends w1 w'"
    "f = 0 + length (filter log_ok log)" "length errs = length ([] :: goerr list) + length (filter (\<lambda>en. \<not> log_ok en) log)"
    "length log = length rows"
    using finalize_all_log [OF rows(2) assms(2)] by blast
  have "list_all2 (attempted x d (tick w)) rows log"
  proof -
    have "take (length log) rows = rows" using log(8) by simp
    then have "list_all2 (attempted x d (tick w1)) rows log" using log(1) by simp
    then show ?thesis by (rule list_all2_mono) (rule attempted_mono, assumption, simp add: w1)
  qed
  moreover have ew: "extends w w'"
  proof -
    have "extends w w1" unfolding w1 by (meson extends_step extends_trans)
    then show ?thesis using log(5) by (rule extends_trans)
  qed
  ultimately show thesis using log l rows w1 by (intro that [of rows log]) simp_all
qed

lemma RunOnce_aborts:
  assumes "RunOnce x d w = ((f, errs, None), w')" "de_scanner d = sc" "clock_monotone x" "errs = []"
    and old: "\<forall>y \<in> set (visible x w). xr_recorded_at y \<le> timestamp x (clock x (tick w))"
    and stale: "stale x (clock x (tick w) - de_threshold d) w rec" "strictly_latest x w rec"
    and new: "latest x w' y" "xr_execution_id y = xr_execution_id rec"
  shows "xr_status y = StatusAborted"
proof -
  obtain rows log where pass: "fst (sc_list sc (UTC (clock x (tick w)) + (- de_threshold d)) (step w)) = Inr rows"
    "list_all2 (attempted x d (tick w)) rows log" "executions w' = executions w @ concat (map log_rows log)"
    "length errs = length (filter (\<lambda>en. \<not> log_ok en) log)"
    using RunOnce_pass [OF assms(1,2)] by metis
  have "stale x (UTC (clock x (tick w)) + (- de_threshold d)) (step w) rec" "strictly_latest x (step w) rec"
    using stale by (simp_all add: stale_def latest_def strictly_latest_def visible_def UTC_def)
  then obtain row where row: "row \<in> set rows" "er_execution_id row = xr_execution_id rec"
    using list_complete [OF pass(1)] by blast
  then obtain k where k: "k < length rows" "rows ! k = row" by (auto simp: in_set_conv_nth)
  then have lk: "k < length log" "attempted x d (tick w) row (log ! k)"
    using pass(2) by (auto simp: list_all2_conv_all_nth)
  have "log_ok (log ! k)" using pass(4) assms(4) lk(1) by (auto simp: filter_empty_conv)
  then obtain t n where en: "log ! k = (row, followup_row d row (UTC (clock x t)), n, True)" "tick w < t" "0 < n"
    using lk(2) by (auto simp: attempted_def)
  let ?fu = "toExecutionRecord (followup_row d row (UTC (clock x t)))"
  have "log ! k \<in> set log" using lk(1) by (rule nth_mem)
  moreover have "?fu \<in> set (log_rows (log ! k))" unfolding en(1) using en(3) by simp
  ultimately have "?fu \<in> set (executions w')" unfolding pass(3) by (simp del: UTC_id) blast
  then have "stored_record (timestamp x) ?fu \<in> set (visible x w')" by (simp add: visible_def)
  then have "timestamp x (clock x t) \<le> xr_recorded_at y"
    using new row(2) by (auto simp: latest_def followup_row_def UTC_def)
  moreover have "timestamp x (clock x (tick w)) < timestamp x (clock x t)" using assms(3) en(2) by (simp add: clock_monotone_def)
  ultimately have "y \<notin> set (visible x w)" using old by force
  then obtain l z where "l \<in> set log" "z \<in> set (log_rows l)" "y = stored_record (timestamp x) z"
    using new(1) pass(3) by (auto simp: latest_def visible_def)
  then show ?thesis using list_all2_imp_all_right [OF pass(2)]
    by (fastforce simp: attempted_def followup_row_def)
qed

end

section \<open>The result store is such a scanner\<close>

definition bigquery_scanner :: "ext \<Rightarrow> Scanner" where
  "bigquery_scanner x = \<lparr>sc_list = ListRunningOlderThan x, sc_write = WriteExecutionRow x\<rparr>"

locale reliable_store =
  fixes x :: ext
  assumes durable: "put_durable x" and permutes: "scan_permutes x" and honest: "iter_honest x"
begin

lemma listed_rows:
  assumes "fst (ListRunningOlderThan x before w) = Inr rows"
  shows "rows = map fromExecutionRecord (runningOlderThanSQL (timestamp x before) (scanned x w))"
  using assms honest
  by (auto simp: ListRunningOlderThan_def iterate_def iter_honest_def UTC_def split: option.splits if_splits prod.splits)

lemma canonical_latest:
  assumes "rec \<in> set (canonical (scanned x w))"
  shows "latest x w rec"
  unfolding latest_def
proof (intro conjI ballI impI)
  show "rec \<in> set (visible x w)"
    using canonical_subset [OF assms] set_scanned [OF permutes] by simp
  show "xr_recorded_at y \<le> xr_recorded_at rec"
    if "y \<in> set (visible x w)" "xr_execution_id y = xr_execution_id rec" for y
  proof (rule first_max_ge [OF assms [unfolded canonical_iff]])
    show "y \<in> set (filter (\<lambda>y. xr_execution_id y = xr_execution_id rec) (scanned x w))"
      using that by (simp add: set_scanned [OF permutes])
  qed
qed

lemma latest_canonical:
  assumes "latest x w rec" "strictly_latest x w rec"
  shows "rec \<in> set (canonical (scanned x w))"
  unfolding canonical_iff
  by (rule first_max_unique) (use assms set_scanned [OF permutes] in \<open>auto simp: latest_def strictly_latest_def\<close>)

end

sublocale reliable_store \<subseteq> sc: scanner "bigquery_scanner x" x
proof unfold_locales
  fix before :: time and w :: world and rows :: "ExecutionRow list" and row :: ExecutionRow and rec :: executionRecord
  show "snd (sc_list (bigquery_scanner x) before w) = step w"
    by (simp add: bigquery_scanner_def ListRunningOlderThan_def)
  show "\<exists>n. snd (sc_write (bigquery_scanner x) row w) = (step w)\<lparr>executions := executions w @ replicate n (toExecutionRecord row)\<rparr>
      \<and> (fst (sc_write (bigquery_scanner x) row w) = None \<longrightarrow> 0 < n)"
    using durable by (auto simp: bigquery_scanner_def WriteExecutionRow_eq put_durable_def)
  assume "fst (sc_list (bigquery_scanner x) before w) = Inr rows"
  then have rows: "rows = map fromExecutionRecord (runningOlderThanSQL (timestamp x before) (scanned x w))"
    using listed_rows by (simp add: bigquery_scanner_def)
  show "distinct (map er_execution_id rows)"
    using distinct_canonical [of "scanned x w"]
    by (simp add: rows runningOlderThanSQL_def comp_def distinct_map_filter)
  show "\<exists>rec. row = fromExecutionRecord rec \<and> stale x before w rec" if "row \<in> set rows"
    using that canonical_latest by (auto simp: rows runningOlderThanSQL_def stale_def StatusRunning_def)
  show "\<exists>row \<in> set rows. er_execution_id row = xr_execution_id rec" if "stale x before w rec" "strictly_latest x w rec"
    using that latest_canonical [of w rec] by (auto simp: rows runningOlderThanSQL_def stale_def StatusRunning_def)
qed

context reliable_store
begin

lemma is_scanner: "scanner (bigquery_scanner x) x"
  by (rule sc.scanner_axioms)

end

interpretation quiet_store: reliable_store quiet
  by unfold_locales simp_all

section \<open>Properties\<close>

text \<open>
  C8. A pass only finalises what it should: every row it appends is an \<^verbatim>\<open>aborted\<close> row carrying the
  detector's version for an execution whose latest row was \<^verbatim>\<open>running\<close> and started before the cutoff,
  every such candidate is either counted or reported as an error, and there is one operational
  alert per counted candidate. Times are compared at the precision of the table's columns.
\<close>

theorem RunOnce_sound:
  assumes "put_durable x" "scan_permutes x" "iter_honest x" "de_scanner d = bigquery_scanner x"
    and "RunOnce x d w = ((f, errs, None), w')"
  shows "\<exists>new alerts. executions w' = executions w @ new \<and> published w' = published w @ alerts
    \<and> check_results w' = check_results w \<and> length alerts = f
    \<and> list_all (\<lambda>y. xr_status y = StatusAborted \<and> xr_engine_version y = de_engine_version d \<and>
         (\<exists>rec. stale x (clock x (tick w) - de_threshold d) w rec \<and> xr_execution_id rec = xr_execution_id y)) new
    \<and> (\<exists>candidates. fst (ListRunningOlderThan x (clock x (tick w) - de_threshold d) (step w)) = Inr candidates
         \<and> distinct (map er_execution_id candidates) \<and> f + length errs = length candidates)"
proof -
  have rel: "reliable_store x" using assms(1-3) by unfold_locales
  have sc: "scanner (bigquery_scanner x) x"
    using rel by (rule reliable_store.is_scanner)
  obtain rows l where pass: "fst (sc_list (bigquery_scanner x) (UTC (clock x (tick w)) + (- de_threshold d)) (step w)) = Inr rows"
    "list_all2 (attempted x d (tick w)) rows l" "executions w' = executions w @ concat (map log_rows l)"
    "published w' = published w @ concat (map log_alerts l)" "check_results w' = check_results w"
    "f = length (filter log_ok l)" "length errs = length (filter (\<lambda>en. \<not> log_ok en) l)"
    by (rule scanner.RunOnce_pass [OF sc assms(5,4)]) blast
  have alerts: "length (concat (map log_alerts l)) = length (filter log_ok l)"
    by (induction l) auto
  have count: "f + length errs = length rows"
    using pass(6,7) sum_length_filter_compl [of log_ok l] list_all2_lengthD [OF pass(2)] by simp
  have new: "xr_status y = StatusAborted \<and> xr_engine_version y = de_engine_version d \<and>
      (\<exists>rec. stale x (clock x (tick w) - de_threshold d) w rec \<and> xr_execution_id rec = xr_execution_id y)"
    if y: "y \<in> set (concat (map log_rows l))" for y
  proof -
    obtain en where en: "en \<in> set l" "y \<in> set (log_rows en)" using y by auto
    obtain c where c: "c \<in> set rows" "attempted x d (tick w) c en"
      using list_all2_imp_all_right [OF pass(2) en(1)] by blast
    obtain rec where rec: "c = fromExecutionRecord rec" "stale x (UTC (clock x (tick w)) + (- de_threshold d)) (step w) rec"
      using scanner.list_sound [OF sc pass(1) c(1)] by blast
    have "stale x (clock x (tick w) - de_threshold d) w rec"
      using rec(2) by (simp add: stale_def latest_def visible_def)
    moreover have "y = toExecutionRecord (fst (snd en))" "\<exists>t. fst (snd en) = followup_row d c t"
      using en(2) c(2) by (auto simp: attempted_def)
    ultimately show ?thesis using rec(1)
      by (auto simp: followup_row_def toExecutionRecord_def intro!: exI [of _ rec])
  qed
  show ?thesis
    using pass(1,3-6) alerts count new scanner.list_distinct [OF sc pass(1)]
    by (intro exI [of _ "concat (map log_rows l)"] exI [of _ "concat (map log_alerts l)"] conjI exI [of _ rows])
      (simp_all add: list_all_iff bigquery_scanner_def)
qed

text \<open>
  C9. A pass without errors clears what it found: no execution that was stale at the cutoff (and
  whose latest row is unique) is still \<^verbatim>\<open>running\<close> afterwards; its latest row is \<^verbatim>\<open>aborted\<close>, so
  no later pass, at any cutoff, lists it again. The clock advances from reading to reading at the precision of
  the table's columns, and no row of the table is later than the start of the pass.
\<close>

theorem RunOnce_clears:
  assumes "put_durable x" "scan_permutes x" "iter_honest x" "clock_monotone x"
    and "de_scanner d = bigquery_scanner x" "RunOnce x d w = ((f, [], None), w')"
    and "\<forall>y \<in> set (visible x w). xr_recorded_at y \<le> timestamp x (clock x (tick w))"
    and "stale x (clock x (tick w) - de_threshold d) w rec" "strictly_latest x w rec"
    and "latest x w' y" "xr_execution_id y = xr_execution_id rec"
  shows "xr_status y = StatusAborted \<and> \<not> stale x before w' y"
proof -
  have rel: "reliable_store x" using assms(1-3) by unfold_locales
  have "xr_status y = StatusAborted"
    by (rule scanner.RunOnce_aborts [OF reliable_store.is_scanner [OF rel] assms(6,5,4) refl assms(7-11)])
  then show ?thesis by (simp add: stale_def)
qed

section \<open>Witnesses\<close>

definition demo_row :: ExecutionRow where
  "demo_row = \<lparr>er_execution_id = ''e1'', er_attempt_id = ''a1'', er_recorded_at = 0, er_status = StatusRunning,
    er_mode = ModeSet, er_engine_version = ''1.0.0'', er_ruleset_version = ''r1'', er_entity = ''orders'',
    er_trigger_source = TriggerManual, er_window_start = 0, er_window_end = 1000, er_started_at = Some 0,
    er_completed_at = None, er_error_summary = None, er_supersedes = None\<rparr>"

definition demo_world :: world where
  "demo_world = \<lparr>tick = 10, executions = [toExecutionRecord demo_row], check_results = [], published = [], samples = []\<rparr>"

definition demo_detector :: Detector where
  "demo_detector = \<lparr>de_scanner = bigquery_scanner quiet, de_engine_version = ''2.0.0'', de_threshold = 5000\<rparr>"

lemma demo_pass: "fst (RunOnce quiet demo_detector demo_world) = (1, [], None)"
  by code_simp

lemma demo_detector_simps [simp]:
  "de_scanner demo_detector = bigquery_scanner quiet" "de_threshold demo_detector = 5000"
  by (simp_all add: demo_detector_def)

lemma demo_visible: "visible quiet demo_world = [toExecutionRecord demo_row]"
  by (simp add: visible_def demo_world_def demo_row_def toExecutionRecord_def stored_record_def null_timestamp_def)

lemma demo_stale: "stale quiet (clock quiet (tick demo_world) - 5000) demo_world (toExecutionRecord demo_row)"
  by (simp add: stale_def latest_def demo_visible) (simp add: demo_world_def demo_row_def toExecutionRecord_def)

theorem RunOnce_sound_witness:
  "\<exists>new. executions (snd (RunOnce quiet demo_detector demo_world)) = executions demo_world @ new
     \<and> list_all (\<lambda>y. xr_status y = StatusAborted) new
     \<and> length (published (snd (RunOnce quiet demo_detector demo_world))) = 1"
proof -
  obtain w' where run: "RunOnce quiet demo_detector demo_world = ((1, [], None), w')"
    using demo_pass by (metis prod.collapse)
  show ?thesis using RunOnce_sound [OF quiet_laws(2,3,5) demo_detector_simps(1) run] run
    by (auto simp: list_all_iff demo_world_def)
qed

theorem RunOnce_clears_witness:
  "\<exists>y. latest quiet (snd (RunOnce quiet demo_detector demo_world)) y \<and> xr_execution_id y = ''e1'' \<and> xr_status y = StatusAborted"
proof -
  obtain w' where run: "RunOnce quiet demo_detector demo_world = ((1, [], None), w')"
    using demo_pass by (metis prod.collapse)
  define y where "y = toExecutionRecord (followup_row demo_detector demo_row 13000)"
  have ex: "executions (snd (RunOnce quiet demo_detector demo_world)) = [toExecutionRecord demo_row, y]"
    unfolding y_def by code_simp
  have "visible quiet w' = [toExecutionRecord demo_row, y]"
    using ex run by (simp add: visible_def y_def followup_row_def demo_row_def toExecutionRecord_def stored_record_def null_timestamp_def)
  then have "latest quiet w' y" "xr_execution_id y = xr_execution_id (toExecutionRecord demo_row)"
    by (simp_all add: latest_def y_def followup_row_def demo_row_def)
  then show ?thesis
    using RunOnce_clears [OF quiet_laws(2,3,5,4) demo_detector_simps(1) run, of "toExecutionRecord demo_row" y 0]
      demo_stale run
    by (auto simp: demo_visible demo_row_def strictly_latest_def)
qed

end
