(* ===== verification/Alert_Publishers.thy ===== *)
theory Alert_Publishers
  imports Store
begin

text \<open>
  The two implementations of the \<^verbatim>\<open>Publisher\<close> interface of \<^verbatim>\<open>engine/internal/alerts\<close>: \<^verbatim>\<open>NoopPublisher\<close> and
  \<^verbatim>\<open>PubSubPublisher\<close>, with the JSON encoding of an event that the latter puts on the wire
  (\<^verbatim>\<open>json.Marshal\<close> of the tagged struct). The Pub/Sub client is a parameter: what it answers to the \<open>n\<close>th
  send, and whether the message reached the topic. The interface is the locale \<open>alert_publisher\<close>, which the
  two implementations and the engine's own view of the publisher (\<open>Store.Publish\<close>) interpret.
\<close>

section \<open>JSON strings\<close>

text \<open>The length of the UTF-8 sequence at the front, 0 where there is none, as \<^verbatim>\<open>utf8.DecodeRune\<close> accepts it.\<close>

definition byte :: "char \<Rightarrow> nat" where "byte c = of_char c"

definition continuation :: "char \<Rightarrow> bool" where
  "continuation c \<longleftrightarrow> 128 \<le> byte c \<and> byte c < 192"

fun rune_len :: "string \<Rightarrow> nat" where
  "rune_len [] = 0"
| "rune_len (a # s) =
    (let n = byte a; second = (\<lambda>lo hi. case s of b # _ \<Rightarrow> lo \<le> byte b \<and> byte b < hi | [] \<Rightarrow> False);
         more = (\<lambda>k. k < length s \<and> continuation (s ! k))
     in if n < 128 then 1
        else if 194 \<le> n \<and> n < 224 then (if second 128 192 then 2 else 0)
        else if 224 \<le> n \<and> n < 240 then
          (if second (if n = 224 then 160 else 128) (if n = 237 then 160 else 192) \<and> more 1 then 3 else 0)
        else if 240 \<le> n \<and> n < 245 then
          (if second (if n = 240 then 144 else 128) (if n = 244 then 144 else 192) \<and> more 1 \<and> more 2 then 4 else 0)
        else 0)"

definition escape_byte :: "char \<Rightarrow> string" where
  "escape_byte c =
    (let n = byte c in
     if n = 34 \<or> n = 92 then [char_of (92::nat), c]
     else if n = 8 then [char_of (92::nat), CHR ''b'']
     else if n = 12 then [char_of (92::nat), CHR ''f'']
     else if n = 10 then [char_of (92::nat), CHR ''n'']
     else if n = 13 then [char_of (92::nat), CHR ''r'']
     else if n = 9 then [char_of (92::nat), CHR ''t'']
     else if n < 32 \<or> n = 38 \<or> n = 60 \<or> n = 62
     then [char_of (92::nat), CHR ''u'', CHR ''0'', CHR ''0'', hex_digit (n div 16), hex_digit (n mod 16)]
     else [c])"

definition line_separator :: "nat \<Rightarrow> string" where
  "line_separator k = map char_of [226, 128, 168 + k]"

function json_escape :: "string \<Rightarrow> string" where
  "json_escape [] = []"
| "json_escape (c # s) =
    (if byte c < 128 then escape_byte c @ json_escape s
     else if rune_len (c # s) = 0 then char_of (92::nat) # ''ufffd'' @ json_escape s
     else if take 3 (c # s) = line_separator 0 then char_of (92::nat) # ''u2028'' @ json_escape (drop 3 (c # s))
     else if take 3 (c # s) = line_separator 1 then char_of (92::nat) # ''u2029'' @ json_escape (drop 3 (c # s))
     else take (rune_len (c # s)) (c # s) @ json_escape (drop (rune_len (c # s)) (c # s)))"
  by pat_completeness auto
termination by (relation "measure length") auto

definition json_string :: "string \<Rightarrow> string" where
  "json_string s = char_of (34::nat) # json_escape s @ [char_of (34::nat)]"

section \<open>The encoding of an event\<close>

text \<open>\<^verbatim>\<open>Time.MarshalJSON\<close>: RFC 3339 with the nanoseconds, trailing zeros dropped, for years of four digits.\<close>

definition fraction :: "time \<Rightarrow> string" where
  "fraction t =
    (let ns = t mod second in
     if ns = 0 then [] else CHR ''.'' # rev (dropWhile (\<lambda>c. c = CHR ''0'') (rev (append_int ns 9))))"

definition MarshalJSON :: "time \<Rightarrow> string result" where
  "MarshalJSON t =
    (if year_of t < 0 \<or> 10000 \<le> year_of t
     then Inl (errors_New ''json: error calling MarshalJSON for type time.Time: Time.MarshalJSON: year outside of range [0,9999]'')
     else Inr (char_of (34::nat) # butlast (Format t) @ fraction t @ ''Z'' @ [char_of (34::nat)]))"

definition json_field :: "string \<Rightarrow> string \<Rightarrow> string" where
  "json_field key v = json_string key @ '':'' @ v"

definition omitempty :: "string \<Rightarrow> string option \<Rightarrow> string list" where
  "omitempty key p = (case p of None \<Rightarrow> [] | Some s \<Rightarrow> [json_field key (json_string s)])"

definition event_fields :: "Event \<Rightarrow> string \<Rightarrow> string list" where
  "event_fields e recorded =
    omitempty ''execution_id'' (ev_execution_id e) @ omitempty ''attempt_id'' (ev_attempt_id e) @
    [json_field ''entity'' (json_string (ev_entity e))] @ omitempty ''check_id'' (ev_check_id e) @
    [json_field ''category'' (json_string (ev_category e))] @ omitempty ''severity'' (ev_severity e) @
    [json_field ''event_source'' (json_string (ev_source e))] @
    omitempty ''result'' (ev_result e) @ omitempty ''status'' (ev_status e) @
    [json_field ''recorded_at'' recorded] @ omitempty ''error_summary'' (ev_error_summary e)"

definition json_Marshal :: "Event \<Rightarrow> string result" where
  "json_Marshal e =
    (case MarshalJSON (ev_recorded_at e) of
       Inl err \<Rightarrow> Inl err
     | Inr recorded \<Rightarrow> Inr (''{'' @ strings_Join (event_fields e recorded) '','' @ ''}''))"

section \<open>The publishers\<close>

text \<open>\<open>tp_sends\<close> counts the calls of the client, \<open>tp_messages\<close> is what the topic has received.\<close>

record topic =
  tp_messages :: "string list"
  tp_sends :: nat
  tp_stops :: nat

record pubsub_client =
  pc_ID :: string
  pc_answer :: "nat \<Rightarrow> bool \<Rightarrow> goerr option"
  pc_delivers :: "nat \<Rightarrow> bool"

definition send :: "pubsub_client \<Rightarrow> string \<Rightarrow> topic \<Rightarrow> goerr option \<times> topic" where
  "send c d t =
    (let n = tp_sends t; r = pc_answer c n (tp_stops t > 0)
     in (r, t\<lparr>tp_sends := Suc n, tp_messages := tp_messages t @ (if r = None \<or> pc_delivers c n then [d] else [])\<rparr>))"

record PubSubPublisher =
  pp_publisher :: pubsub_client
  pp_closed :: bool

definition NewPubSubPublisher :: "(string \<Rightarrow> pubsub_client) \<Rightarrow> string \<Rightarrow> PubSubPublisher" where
  "NewPubSubPublisher client topicNameOrID = \<lparr>pp_publisher = client topicNameOrID, pp_closed = False\<rparr>"

definition PubSub_Publish :: "PubSubPublisher \<Rightarrow> Event \<Rightarrow> topic \<Rightarrow> goerr option \<times> topic" where
  "PubSub_Publish p event t =
    (case json_Marshal event of
       Inl err \<Rightarrow> (Some (Errorf ''marshal alert event: %w'' [W err]), t)
     | Inr data \<Rightarrow>
         (case send (pp_publisher p) data t of
            (Some err, t) \<Rightarrow> (Some (Errorf ''publish to Pub/Sub topic %s: %w'' [S (pc_ID (pp_publisher p)), W err]), t)
          | (None, t) \<Rightarrow> (None, t)))"

definition PubSub_Close :: "PubSubPublisher \<times> topic \<Rightarrow> PubSubPublisher \<times> topic" where
  "PubSub_Close = (\<lambda>(p, t).
    if pp_closed p then (p, t) else (p\<lparr>pp_closed := True\<rparr>, t\<lparr>tp_stops := Suc (tp_stops t)\<rparr>))"

definition Noop_Publish :: "Event \<Rightarrow> 's \<Rightarrow> goerr option \<times> 's" where
  "Noop_Publish _ s = (None, s)"

section \<open>What a consumer reads back\<close>

text \<open>A JSON string literal up to its closing quote, over the escapes the encoder writes.\<close>

definition hex_val :: "char \<Rightarrow> nat" where
  "hex_val c = (if is_digit c then byte c - 48 else byte c - 87)"

definition unescape_u :: "string \<Rightarrow> string" where
  "unescape_u h = (if h = ''2028'' then line_separator 0 else if h = ''2029'' then line_separator 1
     else [char_of (16 * hex_val (h ! 2) + hex_val (h ! 3))])"

definition unescape_char :: "char \<Rightarrow> char" where
  "unescape_char c = (if c = CHR ''b'' then char_of (8::nat) else if c = CHR ''f'' then char_of (12::nat)
     else if c = CHR ''n'' then char_of (10::nat) else if c = CHR ''r'' then char_of (13::nat)
     else if c = CHR ''t'' then char_of (9::nat) else c)"

fun json_unescape :: "string \<Rightarrow> (string \<times> string) option" where
  "json_unescape [] = None"
| "json_unescape (c # s) =
    (if byte c = 34 then Some ([], s)
     else if byte c \<noteq> 92 then map_option (apfst ((#) c)) (json_unescape s)
     else case s of
       [] \<Rightarrow> None
     | d # s1 \<Rightarrow>
         (if d = CHR ''u'' then
            (case s1 of a # b # e # f # s2 \<Rightarrow> map_option (apfst ((@) (unescape_u [a, b, e, f]))) (json_unescape s2) | _ \<Rightarrow> None)
          else map_option (apfst ((#) (unescape_char d))) (json_unescape s1)))"

text \<open>Strings that are UTF-8 throughout.\<close>

function utf8_string :: "string \<Rightarrow> bool" where
  "utf8_string [] \<longleftrightarrow> True"
| "utf8_string (c # s) \<longleftrightarrow> (if rune_len (c # s) = 0 then False else utf8_string (drop (rune_len (c # s)) (c # s)))"
  by pat_completeness auto
termination by (relation "measure length") auto

declare rune_len.simps [simp del] json_escape.simps [simp del] utf8_string.simps [simp del]

lemma byte_inject [simp]: "byte c = byte d \<longleftrightarrow> c = d"
  by (simp add: byte_def)

lemma byte_char_of [simp]: "n < 256 \<Longrightarrow> byte (char_of n) = n"
  by (simp add: byte_def)

lemma byte_less: "byte c < 256"
  by (simp add: byte_def)

lemma hex_val_digit: "n < 16 \<Longrightarrow> hex_val (hex_digit n) = n"
  by (auto simp: hex_val_def hex_digit_def is_digit_def byte_def)

text \<open>A sequence the decoder accepts: one ASCII byte, or bytes above 127 only.\<close>

lemma rune_len_le: "rune_len s \<le> length s"
  by (cases s) (auto simp: rune_len.simps Let_def split: list.splits)

lemma rune_len_ascii: "byte c < 128 \<Longrightarrow> rune_len (c # s) = 1"
  by (simp add: rune_len.simps)

lemma rune_len_shape: "128 \<le> byte c \<Longrightarrow> rune_len (c # s) \<in> {0, 2, 3, 4}"
  by (auto simp: rune_len.simps Let_def)

lemma rune_len_cont:
  assumes "128 \<le> byte c"
  shows "2 \<le> rune_len (c # s) \<Longrightarrow> 128 \<le> byte (s ! 0)" "3 \<le> rune_len (c # s) \<Longrightarrow> 128 \<le> byte (s ! 1)"
    "4 \<le> rune_len (c # s) \<Longrightarrow> 128 \<le> byte (s ! 2)"
  using assms by (cases s; simp add: rune_len.simps Let_def continuation_def split: if_splits)+

lemma rune_len_high:
  assumes "128 \<le> byte c" "d \<in> set (take (rune_len (c # s)) (c # s))"
  shows "128 \<le> byte d"
proof -
  obtain k where k: "k < rune_len (c # s)" "d = (c # s) ! k" using assms(2) by (auto simp: in_set_conv_nth)
  then have "k = 0 \<or> k = 1 \<or> k = 2 \<or> k = 3" using rune_len_shape [OF assms(1), of s] by auto
  then show ?thesis using k rune_len_cont [OF assms(1), of s] assms(1) by (auto simp: numeral_eq_Suc)
qed

lemma line_separator_len: "take 3 s = line_separator k \<Longrightarrow> k \<le> 1 \<Longrightarrow> rune_len s = 3"
  by (cases s; cases "tl s"; cases "tl (tl s)")
    (auto simp: line_separator_def rune_len.simps continuation_def numeral_eq_Suc)

section \<open>Framing\<close>

text \<open>No control byte, in particular no line break, survives in an encoded string.\<close>

lemma escape_byte_printable: "d \<in> set (escape_byte c) \<Longrightarrow> 32 \<le> byte d"
  by (auto simp: escape_byte_def Let_def hex_digit_def byte_def split: if_splits)

lemma json_escape_printable: "d \<in> set (json_escape s) \<Longrightarrow> 32 \<le> byte d"
proof (induction s rule: json_escape.induct)
  case (2 c s)
  have "d \<in> set (take (rune_len (c # s)) (c # s)) \<Longrightarrow> \<not> byte c < 128 \<Longrightarrow> 32 \<le> byte d"
    using rune_len_high [of c d s] by simp
  moreover have "32 \<le> byte x" if "x \<in> set ''ufffd'' \<or> x \<in> set ''u2028'' \<or> x \<in> set ''u2029'' \<or> x = char_of (92::nat)" for x
    using that by (auto simp: byte_def)
  ultimately show ?case
    using 2 escape_byte_printable by (auto simp: json_escape.simps(2) [of c s] split: if_splits)
qed (simp add: json_escape.simps)

section \<open>Round trip of a string\<close>

lemma json_unescape_copy:
  "\<forall>d \<in> set xs. 128 \<le> byte d \<Longrightarrow> json_unescape (xs @ s) = map_option (apfst ((@) xs)) (json_unescape s)"
proof (induction xs)
  case Nil
  then show ?case by (cases "json_unescape s") auto
next
  case (Cons d xs)
  then have "byte d \<noteq> 34" "byte d \<noteq> 92" by auto
  then show ?case using Cons by (cases "json_unescape s") (auto simp: apfst_def)
qed

lemma json_unescape_u:
  "json_unescape (char_of (92::nat) # CHR ''u'' # a # b # e # f # s) =
    map_option (apfst ((@) (unescape_u [a, b, e, f]))) (json_unescape s)"
  by (simp add: byte_def)

lemma json_unescape_short:
  "d \<noteq> CHR ''u'' \<Longrightarrow> json_unescape (char_of (92::nat) # d # s) = map_option (apfst ((#) (unescape_char d))) (json_unescape s)"
  by (simp add: byte_def)

lemma unescape_u_byte:
  assumes "byte c < 128"
  shows "unescape_u [CHR ''0'', CHR ''0'', hex_digit (byte c div 16), hex_digit (byte c mod 16)] = [c]"
proof -
  have "hex_val (hex_digit (byte c div 16)) = byte c div 16" "hex_val (hex_digit (byte c mod 16)) = byte c mod 16"
    using assms by (simp_all add: hex_val_digit)
  then have "16 * hex_val (hex_digit (byte c div 16)) + hex_val (hex_digit (byte c mod 16)) = byte c" by simp
  then show ?thesis by (simp add: unescape_u_def byte_def)
qed

lemma json_unescape_byte:
  assumes "byte c < 128"
  shows "json_unescape (escape_byte c @ s) = map_option (apfst ((#) c)) (json_unescape s)"
proof -
  have pre: "apfst ((@) [c]) = apfst ((#) c)" by (auto simp: fun_eq_iff)
  have letters: "char_of n \<noteq> d" if "n = 34 \<or> n = 92" "d \<in> set ''ubfnrt''" for n :: nat and d
  proof -
    have "byte (char_of n) \<noteq> byte d" using that by (auto simp: byte_def)
    then show ?thesis by auto
  qed
  show ?thesis
  proof (cases "byte c \<in> {8, 9, 10, 12, 13, 34, 92}")
    case True
    then have "\<exists>n \<in> {8, 9, 10, 12, 13, 34, 92 :: nat}. c = char_of n"
      by (intro bexI [of _ "byte c"]) (simp_all add: byte_def)
    then obtain d where "escape_byte c = [char_of (92::nat), d]" "d \<noteq> CHR ''u''" "unescape_char d = c"
      using letters by (auto simp: escape_byte_def unescape_char_def byte_def)
    then show ?thesis by (simp add: json_unescape_short del: json_unescape.simps)
  next
    case False
    then have "escape_byte c = [c] \<or> escape_byte c =
        [char_of (92::nat), CHR ''u'', CHR ''0'', CHR ''0'', hex_digit (byte c div 16), hex_digit (byte c mod 16)]"
      by (simp add: escape_byte_def Let_def)
    then show ?thesis
    proof
      assume "escape_byte c = [c]"
      then show ?thesis using False by simp
    qed (simp only: append.simps json_unescape_u unescape_u_byte [OF assms] pre)
  qed
qed

lemma line_separator_distinct: "line_separator 1 \<noteq> line_separator 0"
  by (simp add: line_separator_def)

lemma json_escape_separator:
  assumes "\<not> byte c < 128" "k \<le> 1" "take 3 (c # s) = line_separator k" "rune_len (c # s) \<noteq> 0"
  shows "json_unescape (json_escape (c # s) @ r) = map_option (apfst ((@) (line_separator k))) (json_unescape (json_escape (drop 3 (c # s)) @ r))"
proof -
  have u: "unescape_u ''2028'' = line_separator 0" "unescape_u ''2029'' = line_separator 1" by (simp_all add: unescape_u_def)
  show ?thesis
  proof (cases "k = 0")
    case True
    then have "json_escape (c # s) = char_of (92::nat) # ''u2028'' @ json_escape (drop 3 (c # s))"
      using assms by (subst json_escape.simps(2)) (simp only: if_False if_True simp_thms)
    then show ?thesis using True by (simp only: append.simps json_unescape_u u)
  next
    case False
    then have k: "k = 1" using assms(2) by simp
    then have "json_escape (c # s) = char_of (92::nat) # ''u2029'' @ json_escape (drop 3 (c # s))"
      using assms line_separator_distinct by (subst json_escape.simps(2)) (simp only: if_False if_True simp_thms)
    then show ?thesis using k by (simp only: append.simps json_unescape_u u)
  qed
qed

theorem json_roundtrip: "utf8_string s \<Longrightarrow> json_unescape (json_escape s @ char_of (34::nat) # r) = Some (s, r)"
proof (induction s rule: json_escape.induct)
  case (2 c s)
  let ?n = "rune_len (c # s)"
  have v: "?n \<noteq> 0" "utf8_string (drop ?n (c # s))" using 2(6) by (auto simp: utf8_string.simps(2) [of c s] split: if_splits)
  consider (a) "byte c < 128" | (l) k where "\<not> byte c < 128" "k \<le> 1" "take 3 (c # s) = line_separator k"
    | (h) "\<not> byte c < 128" "take 3 (c # s) \<noteq> line_separator 0" "take 3 (c # s) \<noteq> line_separator 1" by force
  then show ?case
  proof cases
    case a
    then have "utf8_string s" using v by (simp add: rune_len_ascii)
    then show ?thesis using 2(1) [OF a] a by (simp add: json_escape.simps(2) [of c s] json_unescape_byte)
  next
    case l
    have n: "?n = 3" using line_separator_len [OF l(3,2)] .
    have "json_unescape (json_escape (c # s) @ char_of (34::nat) # r) =
      map_option (apfst ((@) (take 3 (c # s)))) (json_unescape (json_escape (drop 3 (c # s)) @ char_of (34::nat) # r))"
      using json_escape_separator [OF l v(1)] l(3) by (simp only: )
    moreover have "json_unescape (json_escape (drop 3 (c # s)) @ char_of (34::nat) # r) = Some (drop 3 (c # s), r)"
    proof (cases "k = 0")
      case True
      then show ?thesis using 2(3) l v n by simp
    next
      case False
      then have "k = 1" using l(2) by simp
      then show ?thesis using 2(4) l v n line_separator_distinct by simp
    qed
    ultimately show ?thesis by (simp only: option.map apfst_conv append_take_drop_id)
  next
    case h
    have "\<forall>d \<in> set (take ?n (c # s)). 128 \<le> byte d" using rune_len_high [of c _ s] h(1) by auto
    from json_unescape_copy [OF this] show ?thesis
      using 2(5) v h by (simp add: json_escape.simps(2) [of c s] del: json_unescape.simps)
  qed
qed (simp add: json_escape.simps byte_def)

section \<open>The interface\<close>

text \<open>
  What every \<^verbatim>\<open>Publisher\<close> promises: a call appends to the log at most the entry of its event, whatever it
  returns. A confirming publisher appends it when it returns \<^verbatim>\<open>nil\<close>; \<^verbatim>\<open>NoopPublisher\<close> does not.
\<close>

primrec publish_each :: "(Event \<Rightarrow> 's \<Rightarrow> goerr option \<times> 's) \<Rightarrow> Event list \<Rightarrow> 's \<Rightarrow> 's" where
  "publish_each pub [] s = s"
| "publish_each pub (e # es) s = publish_each pub es (snd (pub e s))"

locale alert_publisher =
  fixes publish :: "Event \<Rightarrow> 's \<Rightarrow> goerr option \<times> 's" and log :: "'s \<Rightarrow> 'm list" and entry :: "Event \<Rightarrow> 'm option"
  assumes publish_log: "publish e s = (r, s') \<Longrightarrow> log s' = log s \<or> (\<exists>m. entry e = Some m \<and> log s' = log s @ [m])"
begin

text \<open>A sequence of calls: the log grows by some of the entries, in the order of the calls.\<close>

lemma publish_each_log: "\<exists>ms. log (publish_each publish es s) = log s @ ms \<and> subseq ms (List.map_filter entry es)"
proof (induction es arbitrary: s)
  case (Cons e es)
  obtain r s' where p: "publish e s = (r, s')" by fastforce
  obtain ms where ms: "log (publish_each publish es s') = log s' @ ms" "subseq ms (List.map_filter entry es)" using Cons by blast
  from publish_log [OF p] show ?case
  proof
    assume "log s' = log s"
    then show ?thesis using ms p by (cases "entry e") (auto simp: List.map_filter_def)
  next
    assume "\<exists>m. entry e = Some m \<and> log s' = log s @ [m]"
    then show ?thesis using ms p by (auto simp: List.map_filter_def)
  qed
qed simp

end

locale confirming_publisher = alert_publisher +
  assumes confirmed: "publish e s = (None, s') \<Longrightarrow> \<exists>m. entry e = Some m \<and> log s' = log s @ [m]"
begin

lemma publish_each_confirmed:
  "(\<And>e s. e \<in> set es \<Longrightarrow> fst (publish e s) = None) \<Longrightarrow> log (publish_each publish es s) = log s @ List.map_filter entry es"
proof (induction es arbitrary: s)
  case (Cons e es)
  obtain s' where p: "publish e s = (None, s')" using Cons.prems [of e s] by (cases "publish e s") simp
  then obtain m where "entry e = Some m" "log s' = log s @ [m]" using confirmed by blast
  moreover have "log (publish_each publish es s') = log s' @ List.map_filter entry es" using Cons by simp
  ultimately show ?case using p by (simp add: List.map_filter_def)
qed (simp add: List.map_filter_def)

end

definition wire_entry :: "Event \<Rightarrow> string option" where
  "wire_entry e = (case json_Marshal e of Inl _ \<Rightarrow> None | Inr d \<Rightarrow> Some d)"

interpretation noop: alert_publisher Noop_Publish "\<lambda>_. []" "\<lambda>_. None"
  by unfold_locales simp

interpretation pubsub: confirming_publisher "PubSub_Publish p" tp_messages wire_entry for p
  by unfold_locales (auto simp: PubSub_Publish_def wire_entry_def send_def Let_def split: sum.splits option.splits if_splits)

interpretation engine_view: confirming_publisher "Publish x" published Some for x
  by unfold_locales (auto simp: Publish_def)

section \<open>Close\<close>

lemma PubSub_Publish_stops: "tp_stops (snd (PubSub_Publish p e t)) = tp_stops t"
  by (auto simp: PubSub_Publish_def send_def Let_def split: sum.splits option.splits)

text \<open>Any number of calls to \<^verbatim>\<open>Close\<close>, with publishing in between, stops the client exactly once.\<close>

datatype publisher_call = Emit Event | Close

definition publisher_call :: "publisher_call \<Rightarrow> PubSubPublisher \<times> topic \<Rightarrow> PubSubPublisher \<times> topic" where
  "publisher_call c pt = (case c of Emit e \<Rightarrow> (fst pt, snd (PubSub_Publish (fst pt) e (snd pt))) | Close \<Rightarrow> PubSub_Close pt)"

lemma publisher_calls_stops:
  "tp_stops t = of_bool (pp_closed p) \<Longrightarrow> fold publisher_call cs (p, t) = (p', t') \<Longrightarrow>
    tp_stops t' = of_bool (pp_closed p') \<and> (pp_closed p' \<longleftrightarrow> pp_closed p \<or> Close \<in> set cs)"
proof (induction cs arbitrary: p t)
  case (Cons c cs)
  obtain p1 t1 where c: "publisher_call c (p, t) = (p1, t1)" by fastforce
  have "tp_stops t1 = of_bool (pp_closed p1)" "pp_closed p1 \<longleftrightarrow> pp_closed p \<or> c = Close"
    using c Cons.prems(1) PubSub_Publish_stops
    by (auto simp: publisher_call_def PubSub_Close_def split: publisher_call.splits if_splits)
  moreover have "fold publisher_call cs (p1, t1) = (p', t')" using Cons.prems(2) c by simp
  ultimately show ?case using Cons.IH [of t1 p1] by fastforce
qed simp

lemma Close_once:
  assumes "tp_stops t = 0" "fold publisher_call cs (NewPubSubPublisher client topicName, t) = (p, t')"
  shows "tp_stops t' = of_bool (Close \<in> set cs)"
  using publisher_calls_stops [OF _ assms(2)] assms(1) by (simp add: NewPubSubPublisher_def)

end
