(* ===== verification/Metrics.thy ===== *)
theory Metrics
  imports Store
begin

text \<open>
  The metric registry (\<^verbatim>\<open>engine/internal/metrics/registry.go\<close>): the collectors each package's \<^verbatim>\<open>Metrics\<close> struct
  holds, in the order of their registration, and when a sample fits one of them. The Prometheus client is a
  parameter: \<open>mustRegister\<close> is \<^verbatim>\<open>MustRegister\<close> on its registry, \<open>None\<close> where it panics. Help texts and histogram
  buckets are not represented.
\<close>

section \<open>Collectors\<close>

datatype vec = CounterVec | HistogramVec | GaugeVec

record collector =
  co_vec :: vec
  co_Name :: string
  co_labels :: "string list"

record RunnerMetrics =
  rm_RunsTotal :: collector
  rm_ChecksEvaluatedTotal :: collector
  rm_RunDurationSeconds :: collector
  rm_CheckDurationSeconds :: collector
  rm_BytesScanned :: collector
  rm_RecordCommitFailures :: collector
  rm_RecordCommitRetries :: collector
  rm_RecordCommitDuration :: collector

record LoaderMetrics =
  lm_RefreshFailuresTotal :: collector

record SchedulerProxyMetrics =
  sm_QueueDepth :: collector
  sm_SchedulerTriggersManaged :: collector

record 'r Registry =
  rg_reg :: 'r
  rg_Runner :: RunnerMetrics
  rg_Loader :: LoaderMetrics
  rg_SchedulerProxy :: SchedulerProxyMetrics

definition NewCounterVec :: "string \<Rightarrow> string list \<Rightarrow> collector" where
  "NewCounterVec name labels = \<lparr>co_vec = CounterVec, co_Name = name, co_labels = labels\<rparr>"

definition NewHistogramVec :: "string \<Rightarrow> string list \<Rightarrow> collector" where
  "NewHistogramVec name labels = \<lparr>co_vec = HistogramVec, co_Name = name, co_labels = labels\<rparr>"

definition NewGaugeVec :: "string \<Rightarrow> string list \<Rightarrow> collector" where
  "NewGaugeVec name labels = \<lparr>co_vec = GaugeVec, co_Name = name, co_labels = labels\<rparr>"

lemmas vec_defs = NewCounterVec_def NewHistogramVec_def NewGaugeVec_def

section \<open>Construction\<close>

type_synonym 'r must_register = "collector list \<Rightarrow> 'r \<Rightarrow> 'r option"

definition newRunnerMetrics :: "'r must_register \<Rightarrow> 'r \<Rightarrow> (RunnerMetrics \<times> 'r) option" where
  "newRunnerMetrics mustRegister reg =
    (let m = \<lparr>rm_RunsTotal = NewCounterVec ''dq_runs_total'' [''entity'', ''status'', ''trigger_source'', ''mode''],
              rm_ChecksEvaluatedTotal = NewCounterVec ''dq_checks_evaluated_total'' [''entity'', ''check_id'', ''result'', ''mode''],
              rm_RunDurationSeconds = NewHistogramVec ''dq_run_duration_seconds'' [''entity'', ''status'', ''mode''],
              rm_CheckDurationSeconds = NewHistogramVec ''dq_check_duration_seconds'' [''entity'', ''check_id'', ''mode''],
              rm_BytesScanned = NewGaugeVec ''dq_bytes_scanned'' [''entity'', ''check_id''],
              rm_RecordCommitFailures = NewCounterVec ''dq_record_commit_failures_total'' [''entity''],
              rm_RecordCommitRetries = NewCounterVec ''dq_record_commit_retries_total'' [''entity'', ''outcome''],
              rm_RecordCommitDuration = NewHistogramVec ''dq_record_commit_duration_seconds'' [''entity'']\<rparr>
     in map_option (Pair m) (mustRegister [rm_RunsTotal m, rm_ChecksEvaluatedTotal m, rm_RunDurationSeconds m,
          rm_CheckDurationSeconds m, rm_BytesScanned m, rm_RecordCommitFailures m, rm_RecordCommitRetries m,
          rm_RecordCommitDuration m] reg))"

definition newLoaderMetrics :: "'r must_register \<Rightarrow> 'r \<Rightarrow> (LoaderMetrics \<times> 'r) option" where
  "newLoaderMetrics mustRegister reg =
    (let m = \<lparr>lm_RefreshFailuresTotal = NewCounterVec ''dq_loader_refresh_failures_total'' [''error_class'']\<rparr>
     in map_option (Pair m) (mustRegister [lm_RefreshFailuresTotal m] reg))"

definition newSchedulerProxyMetrics :: "'r must_register \<Rightarrow> 'r \<Rightarrow> (SchedulerProxyMetrics \<times> 'r) option" where
  "newSchedulerProxyMetrics mustRegister reg =
    (let m = \<lparr>sm_QueueDepth = NewGaugeVec ''dq_queue_depth'' [''state'', ''source''],
              sm_SchedulerTriggersManaged = NewGaugeVec ''dq_scheduler_triggers_managed'' [''state'', ''source'']\<rparr>
     in map_option (Pair m) (mustRegister [sm_QueueDepth m, sm_SchedulerTriggersManaged m] reg))"

definition New :: "'r must_register \<Rightarrow> 'r \<Rightarrow> 'r Registry option" where
  "New mustRegister reg =
    Option.bind (newRunnerMetrics mustRegister reg) (\<lambda>(rn, reg).
    Option.bind (newLoaderMetrics mustRegister reg) (\<lambda>(ld, reg).
    Option.bind (newSchedulerProxyMetrics mustRegister reg) (\<lambda>(sp, reg).
      Some \<lparr>rg_reg = reg, rg_Runner = rn, rg_Loader = ld, rg_SchedulerProxy = sp\<rparr>)))"

definition NoopRunnerMetrics :: "'r must_register \<Rightarrow> 'r \<Rightarrow> RunnerMetrics option" where
  "NoopRunnerMetrics mustRegister reg0 = map_option fst (newRunnerMetrics mustRegister reg0)"

definition NoopLoaderMetrics :: "'r must_register \<Rightarrow> 'r \<Rightarrow> LoaderMetrics option" where
  "NoopLoaderMetrics mustRegister reg0 = map_option fst (newLoaderMetrics mustRegister reg0)"

definition NoopSchedulerProxyMetrics :: "'r must_register \<Rightarrow> 'r \<Rightarrow> SchedulerProxyMetrics option" where
  "NoopSchedulerProxyMetrics mustRegister reg0 = map_option fst (newSchedulerProxyMetrics mustRegister reg0)"

section \<open>Registration\<close>

text \<open>
  The client's contract over the collectors a registry holds: registering collectors with distinct, new and
  legal names and distinct, legal labels succeeds and adds them. Legal here is narrower than what Prometheus allows (no digits,
  capitals or colons), and excludes the labels it reserves.
\<close>

definition legal_name :: "string \<Rightarrow> bool" where
  "legal_name n \<longleftrightarrow> n \<noteq> [] \<and> list_all (\<lambda>c. is_lower c \<or> c = CHR ''_'') n \<and> \<not> HasPrefix n ''__'' \<and> n \<noteq> ''le'' \<and> n \<noteq> ''quantile''"

definition legal_collector :: "collector \<Rightarrow> bool" where
  "legal_collector c \<longleftrightarrow> legal_name (co_Name c) \<and> list_all legal_name (co_labels c) \<and> distinct (co_labels c)"

definition registers :: "'r must_register \<Rightarrow> ('r \<Rightarrow> collector list) \<Rightarrow> bool" where
  "registers mustRegister held \<longleftrightarrow>
    (\<forall>reg cs. distinct (map co_Name (held reg @ cs)) \<and> list_all legal_collector cs \<longrightarrow>
       (\<exists>reg'. mustRegister cs reg = Some reg' \<and> held reg' = held reg @ cs))"

lemma registersD:
  assumes "registers mustRegister held" "distinct (map co_Name (held reg @ cs))"
    "list_all legal_collector cs"
  obtains reg' where "mustRegister cs reg = Some reg'" "held reg' = held reg @ cs"
  using assms unfolding registers_def by blast

text \<open>What the registry of a process holds.\<close>

definition inventory :: "collector list" where
  "inventory =
    [NewCounterVec ''dq_runs_total'' [''entity'', ''status'', ''trigger_source'', ''mode''],
     NewCounterVec ''dq_checks_evaluated_total'' [''entity'', ''check_id'', ''result'', ''mode''],
     NewHistogramVec ''dq_run_duration_seconds'' [''entity'', ''status'', ''mode''],
     NewHistogramVec ''dq_check_duration_seconds'' [''entity'', ''check_id'', ''mode''],
     NewGaugeVec ''dq_bytes_scanned'' [''entity'', ''check_id''],
     NewCounterVec ''dq_record_commit_failures_total'' [''entity''],
     NewCounterVec ''dq_record_commit_retries_total'' [''entity'', ''outcome''],
     NewHistogramVec ''dq_record_commit_duration_seconds'' [''entity''],
     NewCounterVec ''dq_loader_refresh_failures_total'' [''error_class''],
     NewGaugeVec ''dq_queue_depth'' [''state'', ''source''],
     NewGaugeVec ''dq_scheduler_triggers_managed'' [''state'', ''source'']]"

lemma inventory_legal: "list_all legal_collector inventory"
  by code_simp

lemma New_inventory:
  assumes "registers mustRegister held" "held reg = []"
  obtains R where "New mustRegister reg = Some R" "held (rg_reg R) = inventory"
proof -
  note reg = registersD [OF assms(1)]
  let ?rn = "take 8 inventory" and ?ld = "take 1 (drop 8 inventory)" and ?sp = "drop 9 inventory"
  have legal: "list_all legal_collector ?rn" "list_all legal_collector ?ld" "list_all legal_collector ?sp"
    using inventory_legal by (auto simp: list_all_iff dest: in_set_takeD in_set_dropD)
  obtain r1 where r1: "mustRegister ?rn reg = Some r1" "held r1 = ?rn"
    by (rule reg [of reg ?rn]) (use legal(1) in \<open>simp_all add: assms(2) inventory_def vec_defs\<close>)
  obtain r2 where r2: "mustRegister ?ld r1 = Some r2" "held r2 = ?rn @ ?ld"
    by (rule reg [of r1 ?ld]) (use legal(2) in \<open>simp_all add: r1(2) inventory_def vec_defs\<close>)
  obtain r3 where r3: "mustRegister ?sp r2 = Some r3" "held r3 = ?rn @ ?ld @ ?sp"
    by (rule reg [of r2 ?sp]) (use legal(3) in \<open>simp_all add: r2(2) inventory_def vec_defs\<close>)
  show thesis
    using that r1(1) r2(1) r3
    by (simp add: New_def newRunnerMetrics_def newLoaderMetrics_def newSchedulerProxyMetrics_def inventory_def Let_def)
qed

section \<open>Samples\<close>

text \<open>
  \<^verbatim>\<open>WithLabelValues\<close> panics unless there is one value per label; a sample fits when its name is that of a
  collector of its kind and has as many values.
\<close>

fun vec_of :: "sample \<Rightarrow> vec" where
  "vec_of (Inc n ls) = CounterVec"
| "vec_of (Observe n ls v) = HistogramVec"
| "vec_of (Set n ls v) = GaugeVec"

fun name_of :: "sample \<Rightarrow> string" where
  "name_of (Inc n ls) = n"
| "name_of (Observe n ls v) = n"
| "name_of (Set n ls v) = n"

fun values_of :: "sample \<Rightarrow> string list" where
  "values_of (Inc n ls) = ls"
| "values_of (Observe n ls v) = ls"
| "values_of (Set n ls v) = ls"

definition fits :: "collector list \<Rightarrow> sample \<Rightarrow> bool" where
  "fits cs s \<longleftrightarrow> list_ex (\<lambda>c. co_vec c = vec_of s \<and> co_Name c = name_of s \<and> length (co_labels c) = length (values_of s)) cs"

definition sampled_in :: "collector list \<Rightarrow> world \<Rightarrow> world \<Rightarrow> bool" where
  "sampled_in cs w w' \<longleftrightarrow> (\<exists>ss. samples w' = samples w @ ss \<and> list_all (fits cs) ss)"

named_theorems well_sampled

lemma sampled_in_refl [well_sampled]: "sampled_in cs w w"
  by (simp add: sampled_in_def)

lemma sampled_in_trans: "sampled_in cs u v \<Longrightarrow> sampled_in cs v w \<Longrightarrow> sampled_in cs u w"
  unfolding sampled_in_def by (metis append.assoc list_all_append)

lemma sampled_in_same: "samples w' = samples w \<Longrightarrow> sampled_in cs w w'"
  by (simp add: sampled_in_def)

lemma sampled_in_sample [well_sampled]: "list_all (fits cs) ss \<Longrightarrow> sampled_in cs w (sample ss w)"
  by (auto simp: sampled_in_def sample_def)

lemma sampled_in_calls [well_sampled]:
  "sampled_in cs w (step w)" "sampled_in cs w (snd (WriteExecutionRow x row w))"
  "sampled_in cs w (snd (WriteCheckResultRow x cr w))" "sampled_in cs w (snd (Publish x e w))"
  by (simp_all add: sampled_in_same WriteExecutionRow_eq WriteCheckResultRow_eq Publish_def)

end
