(* ===== verification/Engine_Config.thy ===== *)
theory Engine_Config
  imports Runner Go_Duration Go_Files
begin

text \<open>
  The engine's startup configuration: the typed environments (\<^verbatim>\<open>engine/internal/env\<close>), the per-package
  log levels (\<^verbatim>\<open>engine/internal/logging\<close>) and, of \<^verbatim>\<open>cmd/dq-engine/main.go\<close>, \<^verbatim>\<open>readEnv\<close> and the
  placeholder gate. The process environment is a function from names to values.
\<close>

section \<open>Environments\<close>

type_synonym slog_level = int

definition LevelDebug :: slog_level where "LevelDebug = - 4"
definition LevelInfo :: slog_level where "LevelInfo = 0"
definition LevelWarn :: slog_level where "LevelWarn = 4"
definition LevelError :: slog_level where "LevelError = 8"

definition NameLocal :: string where "NameLocal = ''local''"
definition NameQA :: string where "NameQA = ''qa''"
definition NameProd :: string where "NameProd = ''prod''"

definition Slog :: "string \<Rightarrow> slog_level result" where
  "Slog l =
    (if l = ''debug'' then Inr LevelDebug else if l = ''info'' then Inr LevelInfo
     else if l = ''warn'' then Inr LevelWarn else if l = ''error'' then Inr LevelError
     else Inl (Errorf ''env: unknown log level %q (want debug|info|warn|error)'' [S l]))"

record RecordModeCost =
  rm_MaxEvidenceSampleSize :: int
  rm_MaxConsumerLag :: duration
  rm_MaxLatenessTolerance :: duration
  rm_SampleStorageCapMB :: int

record EvidenceRetention =
  er_ResultsRetention :: duration

record EnvConfig =
  en_Name :: string
  en_EngineVersion :: string
  en_GCSBucket :: string
  en_BigQueryProject :: string
  en_BigQueryDataset :: string
  en_PubSubProject :: string
  en_PubSubTopic :: string
  en_KafkaBootstrap :: string
  en_HTTPAddr :: string
  en_LogLevel :: string
  en_LoaderRefreshInterval :: duration
  en_OrphanThreshold :: duration
  en_OrphanScanInterval :: duration
  en_RecordModeCost :: RecordModeCost
  en_EvidenceRetention :: EvidenceRetention
  en_SchedulerCatchupHorizon :: duration
  en_OnboardingChannel :: string

definition Second :: duration where "Second = 1000000000"
definition Minute :: duration where "Minute = 60 * Second"
definition Hour :: duration where "Hour = 60 * Minute"

definition Local :: EnvConfig where
  "Local = \<lparr>en_Name = NameLocal, en_EngineVersion = ''0.1.0'', en_GCSBucket = ''dq-local'', en_BigQueryProject = ''dq-local'',
     en_BigQueryDataset = ''dq_results_local'', en_PubSubProject = ''dq-local'', en_PubSubTopic = ''dq-alerts-local'',
     en_KafkaBootstrap = ''localhost:9092'', en_HTTPAddr = '':8080'', en_LogLevel = ''info'', en_LoaderRefreshInterval = 2 * Second,
     en_OrphanThreshold = 5 * Minute, en_OrphanScanInterval = 1 * Minute,
     en_RecordModeCost = \<lparr>rm_MaxEvidenceSampleSize = 100, rm_MaxConsumerLag = 5 * Minute, rm_MaxLatenessTolerance = 5 * Minute,
       rm_SampleStorageCapMB = 100\<rparr>,
     en_EvidenceRetention = \<lparr>er_ResultsRetention = 30 * 24 * Hour\<rparr>, en_SchedulerCatchupHorizon = 1 * Hour,
     en_OnboardingChannel = ''slack:#dq-onboarding-local''\<rparr>"

definition QA :: EnvConfig where
  "QA = \<lparr>en_Name = NameQA, en_EngineVersion = ''0.1.0'', en_GCSBucket = ''dq-qa-PLACEHOLDER-rules'',
     en_BigQueryProject = ''dq-qa-PLACEHOLDER'', en_BigQueryDataset = ''dq_results_qa'', en_PubSubProject = ''dq-qa-PLACEHOLDER'',
     en_PubSubTopic = ''dq-alerts-qa'', en_KafkaBootstrap = ''dq-qa-PLACEHOLDER-kafka:9092'', en_HTTPAddr = '':8080'',
     en_LogLevel = ''info'', en_LoaderRefreshInterval = 30 * Second, en_OrphanThreshold = 1 * Hour, en_OrphanScanInterval = 5 * Minute,
     en_RecordModeCost = \<lparr>rm_MaxEvidenceSampleSize = 1000, rm_MaxConsumerLag = 1 * Hour, rm_MaxLatenessTolerance = 30 * Minute,
       rm_SampleStorageCapMB = 1000\<rparr>,
     en_EvidenceRetention = \<lparr>er_ResultsRetention = 90 * 24 * Hour\<rparr>, en_SchedulerCatchupHorizon = 6 * Hour,
     en_OnboardingChannel = ''slack:#dq-onboarding-qa-PLACEHOLDER''\<rparr>"

definition Prod :: EnvConfig where
  "Prod = \<lparr>en_Name = NameProd, en_EngineVersion = ''0.1.0'', en_GCSBucket = ''dq-prod-PLACEHOLDER-rules'',
     en_BigQueryProject = ''dq-prod-PLACEHOLDER'', en_BigQueryDataset = ''dq_results_prod'', en_PubSubProject = ''dq-prod-PLACEHOLDER'',
     en_PubSubTopic = ''dq-alerts-prod'', en_KafkaBootstrap = ''dq-prod-PLACEHOLDER-kafka:9092'', en_HTTPAddr = '':8080'',
     en_LogLevel = ''info'', en_LoaderRefreshInterval = 30 * Second, en_OrphanThreshold = 1 * Hour, en_OrphanScanInterval = 5 * Minute,
     en_RecordModeCost = \<lparr>rm_MaxEvidenceSampleSize = 10000, rm_MaxConsumerLag = 1 * Hour, rm_MaxLatenessTolerance = 30 * Minute,
       rm_SampleStorageCapMB = 10000\<rparr>,
     en_EvidenceRetention = \<lparr>er_ResultsRetention = 365 * 24 * Hour\<rparr>, en_SchedulerCatchupHorizon = 24 * Hour,
     en_OnboardingChannel = ''slack:#dq-onboarding-prod-PLACEHOLDER''\<rparr>"

definition ErrUnknownEnv :: goerr where "ErrUnknownEnv = errors_New ''env: unknown DQ_ENV value''"

definition Select :: "string \<Rightarrow> EnvConfig result" where
  "Select name =
    (if name = NameLocal then Inr Local else if name = NameQA then Inr QA else if name = NameProd then Inr Prod
     else Inl (Errorf ''%w: %q (want local|qa|prod)'' [W ErrUnknownEnv, S name]))"

section \<open>Log levels\<close>

definition RootKey :: string where "RootKey = ''root''"

definition CanonicalInventory :: "string list" where
  "CanonicalInventory = [RootKey, ''engine'', ''engine.alerts'', ''engine.api'', ''engine.dsl'', ''engine.env'', ''engine.eval'',
     ''engine.loader'', ''engine.orphan'', ''engine.results'', ''engine.runner'']"

definition identPattern :: "string \<Rightarrow> bool" where
  "identPattern s \<longleftrightarrow> s \<noteq> [] \<and> (is_lower (hd s) \<or> is_upper (hd s)) \<and> list_all (\<lambda>c. is_alnum c \<or> c = CHR ''_'') s"

fun validate_segments :: "string \<Rightarrow> string list \<Rightarrow> goerr option" where
  "validate_segments pkg [] = None"
| "validate_segments pkg (segment # rest) =
    (if segment = [] then Some (Errorf ''package %q has empty segment (leading, trailing, or doubled '.')'' [S pkg])
     else if \<not> identPattern segment
     then Some (Errorf ''package %q segment %q does not match grammar [A-Za-z][A-Za-z0-9_]*'' [S pkg, S segment])
     else validate_segments pkg rest)"

definition validatePackageIdent :: "string \<Rightarrow> goerr option" where
  "validatePackageIdent pkg = validate_segments pkg (strings_Split pkg (CHR ''.''))"

definition parseLevel :: "string \<Rightarrow> slog_level result" where
  "parseLevel raw =
    (let l = map to_lower raw
     in if l = ''debug'' then Inr LevelDebug else if l = ''info'' then Inr LevelInfo
        else if l = ''warn'' then Inr LevelWarn else if l = ''error'' then Inr LevelError
        else Inl (Errorf ''level %q is not one of debug|info|warn|error (case-insensitive)'' [S raw]))"

type_synonym log_levels = "(string \<times> slog_level) list"

record ParseResult =
  pr_Levels :: log_levels
  pr_Ignored :: "string list"

text \<open>One iteration of the loop over the comma-separated pairs.\<close>

definition parse_pair :: "string \<Rightarrow> ParseResult \<Rightarrow> ParseResult result" where
  "parse_pair rawPair result =
    (let pair = TrimSpace rawPair
     in if pair = [] then Inl (errors_New ''DQ_LOG_LEVELS: empty pair (consecutive commas?)'')
        else if CHR '':'' \<notin> set pair then Inl (Errorf ''DQ_LOG_LEVELS: pair %q missing ':' separator'' [S pair])
        else (let pkg = TrimSpace (takeWhile (\<lambda>c. c \<noteq> CHR '':'') pair); lvlRaw = TrimSpace (tl (dropWhile (\<lambda>c. c \<noteq> CHR '':'') pair))
              in if pkg = [] then Inl (Errorf ''DQ_LOG_LEVELS: pair %q has empty package name'' [S pair])
                 else if lvlRaw = [] then Inl (Errorf ''DQ_LOG_LEVELS: pair %q has empty level value'' [S pair])
                 else case validatePackageIdent pkg of
                   Some e \<Rightarrow> Inl (Errorf ''DQ_LOG_LEVELS: %w'' [W e])
                 | None \<Rightarrow>
                     (case parseLevel lvlRaw of
                        Inl e \<Rightarrow> Inl (Errorf ''DQ_LOG_LEVELS: pair %q: %w'' [S pair, W e])
                      | Inr lvl \<Rightarrow>
                          (if map_of (pr_Levels result) pkg \<noteq> None
                           then Inl (Errorf ''DQ_LOG_LEVELS: package %q appears more than once'' [S pkg])
                           else Inr \<lparr>pr_Levels = (pkg, lvl) # pr_Levels result,
                                     pr_Ignored = (if pkg \<in> set CanonicalInventory then pr_Ignored result else pr_Ignored result @ [pkg])\<rparr>))))"

fun parse_pairs :: "string list \<Rightarrow> ParseResult \<Rightarrow> ParseResult result" where
  "parse_pairs [] result = Inr result"
| "parse_pairs (p # ps) result = res_bind (parse_pair p result) (parse_pairs ps)"

definition ParseLogLevels :: "string \<Rightarrow> ParseResult result" where
  "ParseLogLevels raw =
    (let raw = TrimSpace raw
     in if raw = [] then Inr \<lparr>pr_Levels = [], pr_Ignored = []\<rparr>
        else res_bind (parse_pairs (strings_Split raw (CHR '','')) \<lparr>pr_Levels = [], pr_Ignored = []\<rparr>)
               (\<lambda>r. Inr (r\<lparr>pr_Ignored := sort (pr_Ignored r)\<rparr>)))"

text \<open>The handler without the base it forwards to.\<close>

record LogHandler =
  lh_levels :: log_levels
  lh_rootLevel :: slog_level
  lh_component :: string

definition NewLogHandler :: "log_levels \<Rightarrow> slog_level \<Rightarrow> LogHandler" where
  "NewLogHandler levels rootLevel =
    \<lparr>lh_levels = levels, lh_rootLevel = (case map_of levels RootKey of Some lvl \<Rightarrow> lvl | None \<Rightarrow> rootLevel), lh_component = []\<rparr>"

definition componentAttrKey :: string where "componentAttrKey = ''component''"

definition WithAttrs :: "LogHandler \<Rightarrow> (string \<times> string) list \<Rightarrow> LogHandler" where
  "WithAttrs h attrs = fold (\<lambda>(k, v) h. if k = componentAttrKey then h\<lparr>lh_component := v\<rparr> else h) attrs h"

text \<open>\<^verbatim>\<open>name[:strings.LastIndex(name, ".")]\<close>, if there is a dot.\<close>

definition parent :: "string \<Rightarrow> string option" where
  "parent name = (if CHR ''.'' \<in> set name then Some (rev (tl (dropWhile (\<lambda>c. c \<noteq> CHR ''.'') (rev name)))) else None)"

lemma parent_shorter: "parent name = Some p \<Longrightarrow> length p < length name"
proof -
  assume a: "parent name = Some p"
  then have "CHR ''.'' \<in> set (rev name)" by (auto simp: parent_def split: if_splits)
  then have "dropWhile (\<lambda>c. c \<noteq> CHR ''.'') (rev name) \<noteq> []" by (auto simp: dropWhile_eq_Nil_conv)
  moreover have "length (dropWhile (\<lambda>c. c \<noteq> CHR ''.'') (rev name)) \<le> length name"
    using length_dropWhile_le [of _ "rev name"] by simp
  ultimately show ?thesis using a
    by (cases "dropWhile (\<lambda>c. c \<noteq> CHR ''.'') (rev name)") (auto simp: parent_def split: if_splits)
qed

function resolve_name :: "log_levels \<Rightarrow> slog_level \<Rightarrow> string \<Rightarrow> slog_level" where
  "resolve_name levels rootLevel name =
    (case map_of levels name of
       Some lvl \<Rightarrow> lvl
     | None \<Rightarrow> (case parent name of None \<Rightarrow> rootLevel | Some p \<Rightarrow> resolve_name levels rootLevel p))"
  by pat_completeness auto
termination by (relation "measure (\<lambda>(_, _, name). length name)") (auto dest: parent_shorter)

declare resolve_name.simps [simp del]

definition resolveLevel :: "LogHandler \<Rightarrow> slog_level" where
  "resolveLevel h = (if lh_component h = [] then lh_rootLevel h else resolve_name (lh_levels h) (lh_rootLevel h) (lh_component h))"

definition Enabled :: "LogHandler \<Rightarrow> slog_level \<Rightarrow> bool" where
  "Enabled h level \<longleftrightarrow> resolveLevel h \<le> level"

section \<open>readEnv and the placeholder gate\<close>

record startupConfig =
  sc_EnvConfig :: EnvConfig
  sc_SlogLevel :: slog_level
  sc_LogLevels :: log_levels
  sc_IgnoredLogPackages :: "string list"
  sc_StorageEmulatorHost :: string
  sc_BigQueryEmulatorHost :: string

definition readEnv :: "(string \<Rightarrow> string) \<Rightarrow> startupConfig result" where
  "readEnv getenv =
    (let envName = getenv ''DQ_ENV''
     in if envName = [] then Inl (errors_New ''DQ_ENV is required (one of local|qa|prod per B1-4 MD-2)'')
        else case Select envName of
          Inl e \<Rightarrow> Inl (Errorf ''DQ_ENV: %w'' [W e])
        | Inr envCfg \<Rightarrow>
            (case Slog (en_LogLevel envCfg) of
               Inl e \<Rightarrow> Inl (Errorf ''env %q: %w'' [S (en_Name envCfg), W e])
             | Inr slogLevel \<Rightarrow>
                 (case ParseLogLevels (getenv ''DQ_LOG_LEVELS'') of
                    Inl e \<Rightarrow> Inl e
                  | Inr parsed \<Rightarrow>
                      Inr \<lparr>sc_EnvConfig = envCfg, sc_SlogLevel = slogLevel, sc_LogLevels = pr_Levels parsed,
                           sc_IgnoredLogPackages = pr_Ignored parsed, sc_StorageEmulatorHost = getenv ''STORAGE_EMULATOR_HOST'',
                           sc_BigQueryEmulatorHost = getenv ''BIGQUERY_EMULATOR_HOST''\<rparr>)))"

text \<open>What reflection sees of a struct: its fields in order, strings, nested structs and other kinds.\<close>

datatype rvalue = RString string | RStruct "(string \<times> rvalue) list" | ROther

definition reflect_EnvConfig :: "EnvConfig \<Rightarrow> (string \<times> rvalue) list" where
  "reflect_EnvConfig c =
    [(''Name'', RString (en_Name c)), (''EngineVersion'', RString (en_EngineVersion c)), (''GCSBucket'', RString (en_GCSBucket c)),
     (''BigQueryProject'', RString (en_BigQueryProject c)), (''BigQueryDataset'', RString (en_BigQueryDataset c)),
     (''PubSubProject'', RString (en_PubSubProject c)), (''PubSubTopic'', RString (en_PubSubTopic c)),
     (''KafkaBootstrap'', RString (en_KafkaBootstrap c)), (''HTTPAddr'', RString (en_HTTPAddr c)), (''LogLevel'', RString (en_LogLevel c)),
     (''LoaderRefreshInterval'', ROther), (''OrphanThreshold'', ROther), (''OrphanScanInterval'', ROther),
     (''RecordModeCost'', RStruct [(''MaxEvidenceSampleSize'', ROther), (''MaxConsumerLag'', ROther), (''MaxLatenessTolerance'', ROther),
        (''SampleStorageCapMB'', ROther)]),
     (''EvidenceRetention'', RStruct [(''ResultsRetention'', ROther)]), (''SchedulerCatchupHorizon'', ROther),
     (''OnboardingChannel'', RString (en_OnboardingChannel c))]"

definition placeholderMarker :: string where "placeholderMarker = ''PLACEHOLDER''"

fun walkPlaceholderFields :: "string \<Rightarrow> (string \<times> rvalue) list \<Rightarrow> string list" where
  "walkPlaceholderFields path [] = []"
| "walkPlaceholderFields path ((f, RString s) # fs) =
    (if Contains s placeholderMarker then [(if path = [] then f else path @ ''.'' @ f) @ '' = '' @ quote s] else [])
    @ walkPlaceholderFields path fs"
| "walkPlaceholderFields path ((f, RStruct gs) # fs) =
    walkPlaceholderFields (if path = [] then f else path @ ''.'' @ f) gs @ walkPlaceholderFields path fs"
| "walkPlaceholderFields path ((f, ROther) # fs) = walkPlaceholderFields path fs"

definition validateNoPlaceholders :: "startupConfig \<Rightarrow> goerr option" where
  "validateNoPlaceholders cfg =
    (let c = sc_EnvConfig cfg
     in if en_Name c = NameLocal then None
        else (let offenders = walkPlaceholderFields [] (reflect_EnvConfig c)
              in if offenders = [] then None
                 else Some (errors_New (''env '' @ quote (en_Name c) @ '': PLACEHOLDER substring found in config field(s):'' @ [char_of (10::nat)]
                        @ concat (map (\<lambda>off. ''  '' @ off @ [char_of (10::nat)]) (sort offenders))
                        @ ''replace these in engine/internal/env/'' @ en_Name c @ ''.go before deploying''))))"

section \<open>Properties\<close>

text \<open>The level of a component is that of its longest dotted prefix that has one, else the root level.\<close>

fun ancestors :: "nat \<Rightarrow> string \<Rightarrow> string list" where
  "ancestors 0 name = []"
| "ancestors (Suc n) name = name # (case parent name of None \<Rightarrow> [] | Some p \<Rightarrow> ancestors n p)"

lemma resolve_name_first:
  "length name < n \<Longrightarrow>
   resolve_name levels rl name = (case find (\<lambda>p. map_of levels p \<noteq> None) (ancestors n name) of None \<Rightarrow> rl | Some p \<Rightarrow> the (map_of levels p))"
proof (induction n arbitrary: name)
  case (Suc n)
  show ?case
  proof (cases "map_of levels name")
    case None
    show ?thesis
    proof (cases "parent name")
      case None
      then show ?thesis using \<open>map_of levels name = None\<close> by (simp add: resolve_name.simps)
    next
      case (Some p)
      then have "length p < n" using parent_shorter [OF Some] Suc.prems by simp
      then show ?thesis using Suc.IH Some \<open>map_of levels name = None\<close> resolve_name.simps [of levels rl name] by simp
    qed
  qed (simp add: resolve_name.simps)
qed simp

lemma parse_pair_distinct:
  assumes "parse_pair p r = Inr r'" "distinct (map fst (pr_Levels r))"
  shows "distinct (map fst (pr_Levels r'))"
  using assms by (auto simp: parse_pair_def Let_def map_of_eq_None_iff split: if_splits option.splits sum.splits)

lemma parse_pairs_distinct:
  "parse_pairs ps r = Inr r' \<Longrightarrow> distinct (map fst (pr_Levels r)) \<Longrightarrow> distinct (map fst (pr_Levels r'))"
  by (induction ps arbitrary: r) (auto simp: res_bind_Inr_iff dest: parse_pair_distinct)

lemma ParseLogLevels_distinct: "ParseLogLevels raw = Inr r \<Longrightarrow> distinct (map fst (pr_Levels r))"
  by (auto simp: ParseLogLevels_def Let_def res_bind_Inr_iff split: if_splits dest: parse_pairs_distinct)

text \<open>What the gate lets through: the local environment, or one no string field of which has the marker.\<close>

lemma validateNoPlaceholders_None:
  "validateNoPlaceholders cfg = None \<longleftrightarrow>
    en_Name (sc_EnvConfig cfg) = NameLocal \<or> walkPlaceholderFields [] (reflect_EnvConfig (sc_EnvConfig cfg)) = []"
  by (simp add: validateNoPlaceholders_def Let_def)

lemma gate_strings:
  "walkPlaceholderFields [] (reflect_EnvConfig c) = [] \<longleftrightarrow>
    list_all (\<lambda>s. \<not> Contains s placeholderMarker)
      [en_Name c, en_EngineVersion c, en_GCSBucket c, en_BigQueryProject c, en_BigQueryDataset c, en_PubSubProject c,
       en_PubSubTopic c, en_KafkaBootstrap c, en_HTTPAddr c, en_LogLevel c, en_OnboardingChannel c]"
  by (simp add: reflect_EnvConfig_def)

lemma Select_Inr: "Select name = Inr c \<longleftrightarrow> name = ''local'' \<and> c = Local \<or> name = ''qa'' \<and> c = QA \<or> name = ''prod'' \<and> c = Prod"
  by (auto simp: Select_def NameLocal_def NameQA_def NameProd_def)

text \<open>
  As committed, only the local environment gets past the two configuration gates of \<^verbatim>\<open>main\<close>: both \<^verbatim>\<open>qa\<close> and
  \<^verbatim>\<open>prod\<close> still carry placeholders.
\<close>

lemma startup_gates: "readEnv getenv = Inr cfg \<Longrightarrow> validateNoPlaceholders cfg = None \<longleftrightarrow> getenv ''DQ_ENV'' = ''local''"
proof -
  assume r: "readEnv getenv = Inr cfg"
  then have sel: "Select (getenv ''DQ_ENV'') = Inr (sc_EnvConfig cfg)"
    by (auto simp: readEnv_def Let_def split: if_splits sum.splits)
  have gate: "Contains (en_BigQueryProject c) placeholderMarker \<Longrightarrow> walkPlaceholderFields [] (reflect_EnvConfig c) \<noteq> []" for c
    unfolding gate_strings by (simp only: list.pred_inject) blast
  have "Contains (en_BigQueryProject QA) placeholderMarker" "Contains (en_BigQueryProject Prod) placeholderMarker" by code_simp+
  then have "walkPlaceholderFields [] (reflect_EnvConfig QA) \<noteq> []" "walkPlaceholderFields [] (reflect_EnvConfig Prod) \<noteq> []"
    by (simp_all only: gate not_False_eq_True)
  moreover have "en_Name Local = NameLocal" "en_Name QA \<noteq> NameLocal" "en_Name Prod \<noteq> NameLocal"
    by (simp_all add: Local_def QA_def Prod_def NameLocal_def NameQA_def NameProd_def)
  ultimately have "validateNoPlaceholders cfg = None \<longleftrightarrow> sc_EnvConfig cfg = Local"
    using sel unfolding validateNoPlaceholders_None Select_Inr by metis
  moreover have "Local \<noteq> QA" "Local \<noteq> Prod" using \<open>en_Name Local = NameLocal\<close> \<open>en_Name QA \<noteq> NameLocal\<close> \<open>en_Name Prod \<noteq> NameLocal\<close> by metis+
  ultimately show ?thesis using sel unfolding Select_Inr by auto
qed

end
