(* ===== verification/Engine.thy ===== *)
theory Engine
  imports Loader Trigger_Api Eval Record_Runner Orphan Alert_Publishers Metrics Engine_Config
begin

text \<open>
  The engine binary (\<^verbatim>\<open>engine/cmd/dq-engine/main.go\<close>): the dispatcher startup invariant over the embedded
  kind catalog (\<^verbatim>\<open>engine/internal/dsl/catalog\<close>), the manifest holder and its refresh loop, the resolution of
  a trigger's checks, the construction of the record runners, and the other two periodic loops.

  \<open>rd\<close> is \<^verbatim>\<open>gcsStore.ReadObject\<close>, \<open>decode\<close> the strict YAML decoder of a rule. The holder is an atomic
  pointer: what a reader sees is a function \<open>cur\<close> of the tick, so that a swap may fall between any two reads.
\<close>

section \<open>Kind catalog\<close>

record catalog_kind =
  ca_Name :: string
  ca_Mode :: string
  ca_SourceMode :: string

record Catalog =
  ca_Version :: int
  ca_Kinds :: "catalog_kind list"

definition parseCatalog :: "(string \<Rightarrow> (int \<times> catalog_kind list) result) \<Rightarrow> string \<Rightarrow> Catalog result" where
  "parseCatalog yaml raw =
    (case yaml raw of
       Inl e \<Rightarrow> Inl (Errorf ''parse embedded catalog: %w'' [W e])
     | Inr (v, ks) \<Rightarrow>
         (if v \<noteq> 1
          then Inl (Errorf ''embedded catalog version %d is not supported (expected 1 per ADR-0022)'' [S (show_int v)])
          else Inr \<lparr>ca_Version = v, ca_Kinds = ks\<rparr>))"

definition verifyHandlerRegistryAgainstCatalog :: "Catalog result \<Rightarrow> Evaluator \<Rightarrow> goerr option" where
  "verifyHandlerRegistryAgainstCatalog loaded evaluator =
    (case loaded of
       Inl e \<Rightarrow> Some (Errorf ''load embedded catalog: %w'' [W e])
     | Inr cat \<Rightarrow>
         (let missing = filter (\<lambda>k. k \<notin> set (RegisteredKinds evaluator)) (map ca_Name (ca_Kinds cat))
          in if missing = [] then None
             else Some (Errorf ''catalog declares %d kind(s) with no registered handler: %v''
                          [S (show_nat (length missing)), S (show_strings missing)])))"

section \<open>Checks of a trigger\<close>

definition resolveChecks ::
  "object_reader \<Rightarrow> (string \<Rightarrow> RuleSpec result) \<Rightarrow> CostGuardrails \<Rightarrow> (nat \<Rightarrow> LoadedManifest option) \<Rightarrow> ResolveChecksFunc" where
  "resolveChecks rd decode g cur t entity =
    (case cur t of
       None \<Rightarrow> Inl (errors_New ''active manifest is unavailable'')
     | Some m \<Rightarrow>
         (case find (\<lambda>r. mr_entity r = entity) (mf_rules m) of
            None \<Rightarrow> Inl ErrEntityNotInManifest
          | Some rule \<Rightarrow>
              (case rd (mr_yaml_path rule) t of
                 Inl e \<Rightarrow> Inl (Errorf ''read yaml body %q: %w'' [S (mr_yaml_path rule), W e])
               | Inr body \<Rightarrow>
                   (case Dsl_Spec.Parse decode body of
                      Inl e \<Rightarrow> Inl (Errorf ''parse yaml %q: %w'' [S (mr_yaml_path rule), W e])
                    | Inr parsed \<Rightarrow>
                        (case EvaluateCost parsed g of
                           Some e \<Rightarrow> Inl e
                         | None \<Rightarrow> Inr (ToCheckSpecs parsed))))))"

section \<open>Record runners\<close>

definition runner_ParseDuration :: "string \<Rightarrow> duration result" where
  "runner_ParseDuration s =
    (case ParseDuration (TrimSpace s) of
       Inl e \<Rightarrow> Inl (Errorf ''parse duration %q: %w'' [S s, W e])
     | Inr d \<Rightarrow> Inr d)"

text \<open>The Kafka client: whether it can be created, and what its polls and commits answer per consumer.\<close>

record kafka =
  k_new :: "FranzConsumerConfig \<Rightarrow> goerr option"
  k_poll :: "FranzConsumerConfig \<Rightarrow> nat \<Rightarrow> goerr option \<times> FetchedRecord list"
  k_commit :: "FranzConsumerConfig \<Rightarrow> nat \<Rightarrow> (string \<times> int \<times> int) list \<Rightarrow> goerr option"

text \<open>The body of the loop for one rule: no runner for a rule that is not in record mode.\<close>

definition record_runner_of ::
  "kafka \<Rightarrow> (TriggerRequest \<Rightarrow> world \<Rightarrow> ExecutionRow result \<times> world) \<Rightarrow> (nat \<Rightarrow> duration \<Rightarrow> duration) \<Rightarrow> EnvConfig \<Rightarrow>
   CostGuardrails \<Rightarrow> (string \<Rightarrow> RuleSpec result) \<Rightarrow> string \<Rightarrow> string \<Rightarrow> string result
   \<Rightarrow> (RecordRunner \<times> (string \<rightharpoonup> entityState)) option result" where
  "record_runner_of k run jitter cfg g decode rulesetVersion entity yamlBody =
    (case yamlBody of
       Inl e \<Rightarrow> Inl (Errorf ''read rule %q yaml body: %w'' [S entity, W e])
     | Inr body \<Rightarrow>
         (case Dsl_Spec.Parse decode body of
            Inl e \<Rightarrow> Inl (Errorf ''parse rule %q: %w'' [S entity, W e])
          | Inr parsed \<Rightarrow>
              (if ru_Mode parsed \<noteq> SpecModeRecord then Inr None
               else case EvaluateCost parsed g of
                 Some e \<Rightarrow> Inl (Errorf ''rule %q rejected by cost guardrails: %w'' [S entity, W e])
               | None \<Rightarrow>
                   (case Option.bind (ru_Source parsed) (\<lambda>s. map_option (Pair s) (so_Window s)) of
                      None \<Rightarrow> Inl (Errorf ''rule %q: record-mode requires source.kafka.window'' [S entity])
                    | Some (s, w) \<Rightarrow>
                        (case runner_ParseDuration (wi_Duration w) of
                           Inl e \<Rightarrow> Inl (Errorf ''rule %q: parse window.duration: %w'' [S entity, W e])
                         | Inr windowDur \<Rightarrow>
                             (case runner_ParseDuration (wi_LatenessTolerance w) of
                                Inl e \<Rightarrow> Inl (Errorf ''rule %q: parse window.lateness_tolerance: %w'' [S entity, W e])
                              | Inr lateness \<Rightarrow>
                                  (case NewFranzConsumer (k_new k) \<lparr>fc_brokers = [en_KafkaBootstrap cfg],
                                          fc_consumer_group = so_ConsumerGroup s, fc_topics = [so_Topic s]\<rparr> of
                                     Inl e \<Rightarrow> Inl (Errorf ''rule %q: create kafka consumer: %w'' [S entity, W e])
                                   | Inr fc \<Rightarrow>
                                       (case NewRecordRunner jitter
                                               \<lparr>rc_consumer = Some (PollFetches (k_poll k fc), Commit (k_commit k fc)),
                                                rc_sources = [\<lparr>so_entity = ru_Entity parsed, so_topic = so_Topic s, so_consumer_group = so_ConsumerGroup s,
                                                  so_window_duration = windowDur, so_lateness_tolerance = lateness,
                                                  so_checks = ToCheckSpecs parsed\<rparr>],
                                                rc_dispatcher = Some run, rc_ruleset_version = rulesetVersion\<rparr> of
                                          Inl e \<Rightarrow> Inl (Errorf ''rule %q: new record runner: %w'' [S entity, W e])
                                        | Inr rr \<Rightarrow> Inr (Some rr)))))))))"

fun build_runners ::
  "(string \<Rightarrow> string result \<Rightarrow> (RecordRunner \<times> (string \<rightharpoonup> entityState)) option result) \<Rightarrow> object_reader \<Rightarrow> ManifestRule list
   \<Rightarrow> (RecordRunner \<times> (string \<rightharpoonup> entityState)) list \<Rightarrow> world \<Rightarrow> (RecordRunner \<times> (string \<rightharpoonup> entityState)) list result \<times> world" where
  "build_runners mk rd [] out w = (Inr out, w)"
| "build_runners mk rd (mr # mrs) out w =
    (case mk (mr_entity mr) (rd (mr_yaml_path mr) (tick w)) of
       Inl e \<Rightarrow> (Inl e, step w)
     | Inr None \<Rightarrow> build_runners mk rd mrs out (step w)
     | Inr (Some rr) \<Rightarrow> build_runners mk rd mrs (out @ [rr]) (step w))"

definition buildRecordRunners ::
  "kafka \<Rightarrow> (TriggerRequest \<Rightarrow> world \<Rightarrow> ExecutionRow result \<times> world) \<Rightarrow> (nat \<Rightarrow> duration \<Rightarrow> duration) \<Rightarrow> EnvConfig \<Rightarrow>
   CostGuardrails \<Rightarrow> (string \<Rightarrow> RuleSpec result) \<Rightarrow> object_reader \<Rightarrow> LoadedManifest \<Rightarrow> world
   \<Rightarrow> (RecordRunner \<times> (string \<rightharpoonup> entityState)) list result \<times> world" where
  "buildRecordRunners k run jitter cfg g decode rd manifest w =
    build_runners (record_runner_of k run jitter cfg g decode (mf_ruleset_version manifest)) rd (mf_rules manifest) [] w"

section \<open>Periodic loops\<close>

text \<open>
  Each loop is a \<^verbatim>\<open>select\<close> between the ticker and \<^verbatim>\<open>ctx.Done()\<close>: the list gives the choices in order, \<open>True\<close> for
  the ticker. A round's body runs to its end before the next choice.
\<close>

definition refresh_tick :: "codec \<Rightarrow> 'v semver \<Rightarrow> 'v Loader \<Rightarrow> LoadedManifest \<times> world \<Rightarrow> LoadedManifest \<times> world" where
  "refresh_tick c sv l s =
    (case s of (cur, w) \<Rightarrow>
       (case Refresh c sv l (mf_Hash cur) w of
          (Inl e, w) \<Rightarrow> (cur, w)
        | (Inr (Some newManifest, True), w) \<Rightarrow> (newManifest, w)
        | (Inr _, w) \<Rightarrow> (cur, w)))"

definition orphan_tick :: "ext \<Rightarrow> Detector \<Rightarrow> world \<Rightarrow> world" where
  "orphan_tick x d w = snd (RunOnce x d w)"

definition set_zeroes :: "sample list" where
  "set_zeroes = [Set ''dq_queue_depth'' [''scheduled'', ''engine''] (Fin 0),
     Set ''dq_scheduler_triggers_managed'' [''healthy'', ''engine''] (Fin 0),
     Set ''dq_scheduler_triggers_managed'' [''errored'', ''engine''] (Fin 0)]"

definition proxy_tick :: "ext \<Rightarrow> world \<Rightarrow> world" where
  "proxy_tick x w =
    (case CountRunningExecutions x w of
       (Inl e, w) \<Rightarrow> w
     | (Inr n, w) \<Rightarrow> sample (Set ''dq_queue_depth'' [''running'', ''engine''] (float64_of_int n) # set_zeroes) w)"

fun ticker_loop :: "('s \<Rightarrow> 's) \<Rightarrow> bool list \<Rightarrow> 's \<Rightarrow> 's" where
  "ticker_loop body [] s = s"
| "ticker_loop body (ticked # cs) s = (if ticked then ticker_loop body cs (body s) else s)"

definition loaderRefreshLoop ::
  "codec \<Rightarrow> 'v semver \<Rightarrow> 'v Loader \<Rightarrow> bool list \<Rightarrow> LoadedManifest \<times> world \<Rightarrow> LoadedManifest \<times> world" where
  "loaderRefreshLoop c sv l = ticker_loop (refresh_tick c sv l)"

definition orphanScanLoop :: "ext \<Rightarrow> Detector \<Rightarrow> bool list \<Rightarrow> world \<Rightarrow> world" where
  "orphanScanLoop x d = ticker_loop (orphan_tick x d)"

definition schedulerProxyMetricsLoop :: "ext \<Rightarrow> bool list \<Rightarrow> world \<Rightarrow> world" where
  "schedulerProxyMetricsLoop x cs w = ticker_loop (proxy_tick x) cs (sample set_zeroes w)"

section \<open>Boot\<close>

text \<open>
  The alert publisher of the process and what \<^verbatim>\<open>main\<close> defers for it. \<open>mk\<close> is \<^verbatim>\<open>pubsub.NewClient\<close> over a project;
  the flush of the publisher precedes the closing of the client (\<open>closes\<close> counts the latter).
\<close>

datatype alertsPublisher = Noop | PubSub PubSubPublisher

definition newAlertsPublisher ::
  "(string \<Rightarrow> (string \<Rightarrow> pubsub_client) result) \<Rightarrow> startupConfig \<Rightarrow> alertsPublisher result" where
  "newAlertsPublisher mk cfg =
    (let c = sc_EnvConfig cfg in
     if en_PubSubTopic c = [] then Inr Noop
     else let project = (if en_PubSubProject c = [] then en_BigQueryProject c else en_PubSubProject c)
          in case mk project of
               Inl e \<Rightarrow> Inl (Errorf ''pubsub.NewClient(project=%q): %w'' [S project, W e])
             | Inr client \<Rightarrow> Inr (PubSub (NewPubSubPublisher client (en_PubSubTopic c))))"

definition closePublisher :: "alertsPublisher \<Rightarrow> topic \<times> nat \<Rightarrow> alertsPublisher \<times> topic \<times> nat" where
  "closePublisher a = (\<lambda>(t, closes). case a of
     Noop \<Rightarrow> (Noop, t, closes)
   | PubSub p \<Rightarrow> (case PubSub_Close (p, t) of (p, t) \<Rightarrow> (PubSub p, t, Suc closes)))"

text \<open>
  \<^verbatim>\<open>main\<close> up to the start of its goroutines: the exit status, or the parts it wires. \<open>su_clients\<close> holds the
  errors of the two SDK clients, which are created first, \<open>su_pubsub\<close> is \<^verbatim>\<open>pubsub.NewClient\<close>.
\<close>

record 'v parts =
  pa_config :: startupConfig
  pa_publisher :: alertsPublisher
  pa_loader :: "'v Loader"
  pa_initial :: LoadedManifest
  pa_detector :: Detector
  pa_evaluator :: Evaluator
  pa_runner :: Runner
  pa_guardrails :: CostGuardrails
  pa_record_runners :: "(RecordRunner \<times> (string \<rightharpoonup> entityState)) list"

record 'v surroundings =
  su_getenv :: "string \<Rightarrow> string"
  su_clients :: "goerr option list"
  su_pubsub :: "string \<Rightarrow> (string \<Rightarrow> pubsub_client) result"
  su_read :: object_reader
  su_codec :: codec
  su_semver :: "'v semver"
  su_semver_err :: "string \<Rightarrow> goerr option"
  su_catalog :: "Catalog result"
  su_decode :: "string \<Rightarrow> RuleSpec result"
  su_backend :: backend
  su_kafka :: kafka
  su_jitter :: "nat \<Rightarrow> duration \<Rightarrow> duration"

definition guardrails_of :: "EnvConfig \<Rightarrow> CostGuardrails" where
  "guardrails_of c = \<lparr>cg_MaxEvidenceSampleSize = rm_MaxEvidenceSampleSize (en_RecordModeCost c),
     cg_MaxLatenessTolerance = rm_MaxLatenessTolerance (en_RecordModeCost c)\<rparr>"

text \<open>From the configuration on; every failure exits with status 1.\<close>

definition wire :: "ext \<Rightarrow> 'v surroundings \<Rightarrow> startupConfig \<Rightarrow> world \<Rightarrow> (goerr + 'v parts) \<times> world" where
  "wire x su cfg w =
    (let c = sc_EnvConfig cfg; g = guardrails_of c
     in case first_err (su_clients su) of
       Some e \<Rightarrow> (Inl e, w)
     | None \<Rightarrow>
      (case newAlertsPublisher (su_pubsub su) cfg of
       Inl e \<Rightarrow> (Inl e, w)
     | Inr publisher \<Rightarrow>
       (case EnsureSchema x (en_BigQueryDataset c) w of
          (Some e, w) \<Rightarrow> (Inl e, w)
        | (None, w) \<Rightarrow>
         (case Loader.New (su_semver su) (Some (su_read su)) \<lparr>lc_EngineVersion = en_EngineVersion c,
                 lc_SupportedSchemaVersions = [1, 2], lc_SupportedManifestVersions = [], lc_PointerKey = [], lc_BodyPrefix = [],
                 lc_Metrics = True\<rparr> of
            Inl e \<Rightarrow> (Inl e, w)
          | Inr ldr \<Rightarrow>
              (case Load (su_codec su) (su_semver su) ldr w of
                 (Inl e, w) \<Rightarrow> (Inl e, w)
               | (Inr initial, w) \<Rightarrow>
                   (case Orphan.New Duration_String (Some (bigquery_scanner x))
                           \<lparr>dc_engine_version = en_EngineVersion c, dc_threshold = en_OrphanThreshold c\<rparr> of
                      Inl e \<Rightarrow> (Inl e, w)
                    | Inr detector \<Rightarrow>
                        (case Eval.New \<lparr>ec_client = True, ec_resultsProject = en_BigQueryProject c,
                                ec_resultsDataset = en_BigQueryDataset c,
                                ec_resultsRetention = er_ResultsRetention (en_EvidenceRetention c)\<rparr> of
                           Inl e \<Rightarrow> (Inl e, w)
                         | Inr evaluator \<Rightarrow>
                             (case verifyHandlerRegistryAgainstCatalog (su_catalog su) evaluator of
                                Some e \<Rightarrow> (Inl e, w)
                              | None \<Rightarrow>
                                  (case Runner.New (su_semver_err su) x \<lparr>rg_store = True, rg_precheck = None,
                                          rg_evaluator = Some (Evaluate (su_backend su) evaluator),
                                          rg_engine_version = en_EngineVersion c, rg_ruleset_version = mf_ruleset_version initial,
                                          rg_attempt_id = None\<rparr> of
                                     Inl e \<Rightarrow> (Inl e, w)
                                   | Inr rn \<Rightarrow>
                                       (case buildRecordRunners (su_kafka su) (Run x rn) (su_jitter su) c g (su_decode su) (su_read su) initial w of
                                          (Inl e, w) \<Rightarrow> (Inl e, w)
                                        | (Inr rrs, w) \<Rightarrow>
                                            (Inr \<lparr>pa_config = cfg, pa_publisher = publisher, pa_loader = ldr, pa_initial = initial, pa_detector = detector,
                                                  pa_evaluator = evaluator, pa_runner = rn, pa_guardrails = g, pa_record_runners = rrs\<rparr>, w)))))))))))"

definition boot :: "ext \<Rightarrow> 'v surroundings \<Rightarrow> world \<Rightarrow> (int + 'v parts) \<times> world" where
  "boot x su w =
    (case readEnv (su_getenv su) of
       Inl e \<Rightarrow> (Inl 2, w)
     | Inr cfg \<Rightarrow>
         (case validateNoPlaceholders cfg of
            Some e \<Rightarrow> (Inl 2, w)
          | None \<Rightarrow> (case wire x su cfg w of (Inl e, w) \<Rightarrow> (Inl 1, w) | (Inr parts, w) \<Rightarrow> (Inr parts, w))))"

text \<open>The HTTP handler as \<^verbatim>\<open>main\<close> wires it: the runner never panics here, so it always returns.\<close>

definition engine_handler :: "ext \<Rightarrow> 'v surroundings \<Rightarrow> 'v parts \<Rightarrow> (nat \<Rightarrow> LoadedManifest option) \<Rightarrow> Handler" where
  "engine_handler x su p cur =
    \<lparr>ha_dispatcher = (\<lambda>tr w. case Run x (pa_runner p) tr w of (r, w) \<Rightarrow> (Returned r, w)),
     ha_activeManifest = cur,
     ha_resolveChecks = Some (resolveChecks (su_read su) (su_decode su) (pa_guardrails p) cur),
     ha_attemptID = new_uuid x, ha_publisher = True\<rparr>"

lemma engine_handler_wired:
  "NewHandler x \<lparr>hc_Dispatcher = Some (\<lambda>tr w. case Run x (pa_runner p) tr w of (r, w) \<Rightarrow> (Returned r, w)),
     hc_ActiveManifest = Some cur, hc_EngineCtx = True,
     hc_ResolveChecks = Some (resolveChecks (su_read su) (su_decode su) (pa_guardrails p) cur),
     hc_AttemptID = None, hc_Publisher = True\<rparr> = Inr (engine_handler x su p cur)"
  by (simp add: NewHandler_def engine_handler_def)

section \<open>The running engine\<close>

text \<open>
  The shared state of the goroutines and their steps. A step is one round of a loop, one dispatched attempt, or
  one fetched record handled by a record runner, with the window it closes; \<open>idle\<close> stands for the polls and waits
  in between. A request takes two steps, because the handler and \<^verbatim>\<open>resolveChecks\<close> each read the manifest holder: with
  \<open>arrived\<close> the handler reads it, and the manifest joins \<open>eg_reads\<close>; with \<open>trigger\<close> the rest of the request runs, in which
  \<^verbatim>\<open>resolveChecks\<close> reads the holder as it is by then. Any interleaving of steps is covered, so a refresh may swap the
  manifest between the two reads.
\<close>

definition two_reads :: "nat \<Rightarrow> LoadedManifest \<Rightarrow> LoadedManifest \<Rightarrow> nat \<Rightarrow> LoadedManifest option" where
  "two_reads t m m' u = Some (if u \<le> t then m else m')"

record engine =
  eg_current :: LoadedManifest
  eg_reads :: "LoadedManifest list"
  eg_pending :: "spawned list"
  eg_streams :: "(RecordRunner \<times> rr_state) list"
  eg_world :: world

inductive engine_step :: "ext \<Rightarrow> 'v surroundings \<Rightarrow> 'v parts \<Rightarrow> engine \<Rightarrow> engine \<Rightarrow> bool" for x su p where
  refresh: "refresh_tick (su_codec su) (su_semver su) (pa_loader p) (eg_current s, eg_world s) = (m, w) \<Longrightarrow>
    engine_step x su p s (s\<lparr>eg_current := m, eg_world := w\<rparr>)"
| orphan: "engine_step x su p s (s\<lparr>eg_world := orphan_tick x (pa_detector p) (eg_world s)\<rparr>)"
| proxy: "engine_step x su p s (s\<lparr>eg_world := proxy_tick x (eg_world s)\<rparr>)"
| arrived: "engine_step x su p s (s\<lparr>eg_reads := eg_reads s @ [eg_current s]\<rparr>)"
| trigger: "m \<in> set (eg_reads s) \<Longrightarrow>
    HandleTrigger x (engine_handler x su p (two_reads (tick (eg_world s)) m (eg_current s))) j httpMethod httpBody (eg_world s) = (out, sp, w) \<Longrightarrow>
    engine_step x su p s (s\<lparr>eg_pending := eg_pending s @ (case sp of None \<Rightarrow> [] | Some sp \<Rightarrow> [sp]), eg_world := w\<rparr>)"
| dispatched: "sp \<in> set (eg_pending s) \<Longrightarrow>
    engine_step x su p s (s\<lparr>eg_world := dispatch x (engine_handler x su p cur) sp (eg_world s)\<rparr>)"
| recorded: "i < length (eg_streams s) \<Longrightarrow> eg_streams s ! i = (r, st) \<Longrightarrow>
    handleFetched x r f (st\<lparr>st_world := eg_world s\<rparr>) = st' \<Longrightarrow>
    engine_step x su p s (s\<lparr>eg_streams := (eg_streams s)[i := (r, st')], eg_world := st_world st'\<rparr>)"
| zeroes: "engine_step x su p s (s\<lparr>eg_world := sample set_zeroes (eg_world s)\<rparr>)"
| idle: "engine_step x su p s (s\<lparr>eg_world := step (eg_world s)\<rparr>)"

abbreviation engine_steps :: "ext \<Rightarrow> 'v surroundings \<Rightarrow> 'v parts \<Rightarrow> engine \<Rightarrow> engine \<Rightarrow> bool" where
  "engine_steps x su p \<equiv> (engine_step x su p)\<^sup>*\<^sup>*"

definition boot_state :: "'v parts \<Rightarrow> world \<Rightarrow> engine" where
  "boot_state p w = \<lparr>eg_current = pa_initial p, eg_reads = [], eg_pending = [],
     eg_streams = map (\<lambda>(r, es). (r, \<lparr>st_entities = es, st_world = w, st_calls = []\<rparr>)) (pa_record_runners p), eg_world = w\<rparr>"

text \<open>
  A verified manifest: an object read under its content-addressed key has its digest, decodes to it and
  passes the contract checks. A sound plan: the request's ruleset version is that of a verified manifest, its
  checks are those of a well-formed rule within the guardrails, read at the path its entity has in a verified
  manifest, which need not be the same one.
\<close>

definition verified :: "codec \<Rightarrow> 'v semver \<Rightarrow> 'v Loader \<Rightarrow> LoadedManifest \<Rightarrow> bool" where
  "verified c sv l m \<longleftrightarrow>
    (\<exists>raw m0 t. lo_store l (lo_bodyPrefix l @ ''sha256-'' @ mf_Hash m @ ''.json'') t = Inr raw \<and> sha256_hex raw = mf_Hash m \<and>
       unmarshal_manifest c raw = Inr m0 \<and> compatible sv (lo_engineVersion l) (lo_supportedMV l) (lo_supportedSV l) m0 \<and>
       m = Manifest.extend m0 (LoadedManifest.fields (mf_Hash m)))"

definition resolved_from ::
  "object_reader \<Rightarrow> (string \<Rightarrow> RuleSpec result) \<Rightarrow> CostGuardrails \<Rightarrow> LoadedManifest \<Rightarrow> string \<Rightarrow> CheckSpec list \<Rightarrow> bool" where
  "resolved_from rd decode g m entity checks \<longleftrightarrow>
    (\<exists>rule body r t. rule \<in> set (mf_rules m) \<and> mr_entity rule = entity \<and> rd (mr_yaml_path rule) t = Inr body \<and>
       decode body = Inr r \<and> wf_rule r \<and> EvaluateCost r g = None \<and> checks = ToCheckSpecs r)"

definition sound_plan :: "'v surroundings \<Rightarrow> 'v parts \<Rightarrow> spawned \<Rightarrow> bool" where
  "sound_plan su p sp \<longleftrightarrow>
    (\<exists>m m'. verified (su_codec su) (su_semver su) (pa_loader p) m \<and> verified (su_codec su) (su_semver su) (pa_loader p) m' \<and>
       tr_ruleset_version (sp_request sp) = mf_ruleset_version m \<and>
       resolved_from (su_read su) (su_decode su) (pa_guardrails p) m' (tr_entity (sp_request sp)) (tr_checks (sp_request sp)) \<and>
       validateTrigger (sp_request sp) = None)"

lemma resolveChecks_ok:
  "resolveChecks rd decode g cur t entity = Inr checks \<Longrightarrow> \<exists>m. cur t = Some m \<and> resolved_from rd decode g m entity checks"
  by (auto simp: resolveChecks_def resolved_from_def Parse_Inr find_Some_iff nth_mem
      split: option.splits sum.splits) (metis nth_mem)

lemma fetch_verified:
  assumes "fst (fetchAndVerify c sv l p w) = Inr m"
  shows "verified c sv l m"
proof -
  obtain h raw m0 where "lo_store l (body_key l h) (tick w) = Inr raw" "sha256_hex raw = h" "unmarshal_manifest c raw = Inr m0"
    "compatible sv (lo_engineVersion l) (lo_supportedMV l) (lo_supportedSV l) m0" "m = Manifest.extend m0 (LoadedManifest.fields h)"
    using assms unfolding fetchAndVerify_ok by blast
  moreover from this have "mf_Hash m = h" by (simp add: Manifest.defs LoadedManifest.defs)
  ultimately show ?thesis unfolding verified_def by metis
qed

lemma Load_is_verified: "fst (Load c sv l w) = Inr m \<Longrightarrow> verified c sv l m"
  by (auto simp: Load_eq fetch_verified split: sum.splits)

lemma Load_pair_verified: "Load c sv l w = (Inr m, w') \<Longrightarrow> verified c sv l m"
  using Load_is_verified [of c sv l w m] by simp

lemma refresh_tick_verified:
  assumes "refresh_tick c sv l (cur, w) = (m, w')" "verified c sv l cur"
  shows "verified c sv l m" and "extends w w'"
proof -
  have 1: "extends w (step (step w))" by (meson extends_step extends_trans)
  then have 2: "extends w (refresh_failure l cls (step (step w)))" "extends w (refresh_failure l cls (step w))" for cls
    by (auto simp: refresh_failure_def intro: extends_trans append_only)
  show "verified c sv l m" "extends w w'"
    using assms 1 2 by (cases rule: Refresh_cases [of c l w sv "mf_Hash cur"];
        auto simp: refresh_tick_def fetch_verified append_only)+
qed

lemma finalize_all_extends:
  assumes "de_scanner d = bigquery_scanner x"
  shows "extends w (snd (finalize_all x d rows f es w))"
proof (induction rows arbitrary: f es w)
  case (Cons c rows)
  have w1: "extends w (snd (WriteExecutionRow x fu (step (step w))))" for fu
    by (meson extends_step extends_trans extends_WriteExecutionRow)
  then have w2: "extends w (snd (Publish x ev (snd (WriteExecutionRow x fu (step (step w))))))" for fu ev
    by (meson extends_Publish extends_trans)
  show ?case
    using assms w1 w2 Cons [THEN extends_trans [rotated]]
    by (auto simp: bigquery_scanner_def buildFollowupRow_def now_def emitAbortedAlert_def Let_def append_only
        split: option.splits prod.splits) (metis snd_conv)+
qed simp

lemma orphan_tick_extends:
  assumes "de_scanner d = bigquery_scanner x"
  shows "extends w (orphan_tick x d w)"
proof -
  have list: "snd (sc_list (de_scanner d) t u) = step u" for t u
    using assms by (simp add: bigquery_scanner_def ListRunningOlderThan_def)
  have steps: "extends w (step (step w))" by (meson extends_step extends_trans)
  have "snd (RunOnce x d w) = (case fst (sc_list (de_scanner d) (UTC (clock x (tick w)) + (- de_threshold d)) (step w)) of
      Inl e \<Rightarrow> step (step w) | Inr rows \<Rightarrow> snd (finalize_all x d rows 0 [] (step (step w))))"
    using list [of "UTC (clock x (tick w)) + (- de_threshold d)" "step w"]
    by (auto simp: RunOnce_def now_def Let_def split: prod.splits sum.splits)
  then show ?thesis using steps extends_trans [OF steps finalize_all_extends [OF assms]]
    by (auto simp: orphan_tick_def split: sum.split)
qed

lemma proxy_tick_extends: "extends w (proxy_tick x w)"
proof -
  have "snd (CountRunningExecutions x w) = step w" by (simp add: CountRunningExecutions_def)
  then obtain r where "CountRunningExecutions x w = (r, step w)" by (metis prod.collapse)
  then show ?thesis by (auto simp: proxy_tick_def append_only extends_trans [OF extends_step extends_sample] split: sum.split)
qed

lemma HandleTrigger_extends:
  assumes "HandleTrigger x h j httpMethod httpBody w = (out, sp, w')"
  shows "extends w w'"
proof -
  have s: "extends w (step w)" "extends w (step (step w))" "extends w (step (step (step w)))" "extends w (step (step (step (step w))))"
    by (meson extends_step extends_trans)+
  have acc: "extends w w''" if "accept x h req m ws we i (step w) = (o', sp', w'')" for req m ws we i o' sp' w''
    using that s by (auto simp: accept_def now_def Let_def split: option.splits sum.splits if_splits)
  show ?thesis
    using assms s acc by (auto simp: HandleTrigger_def split: if_splits sum.splits option.splits)
qed

lemma dispatch_extends: "extends w (dispatch x (engine_handler x su p cur) sp w)"
  using extends_Run [of w x "pa_runner p" "sp_request sp"]
  by (auto simp: dispatch_def engine_handler_def split: prod.splits)

text \<open>The detector that \<^verbatim>\<open>main\<close> wires scans the result store.\<close>

lemma wire_parts:
  assumes "wire x su cfg w = (Inr p, w')"
  shows "de_scanner (pa_detector p) = bigquery_scanner x" "verified (su_codec su) (su_semver su) (pa_loader p) (pa_initial p)"
    "verifyHandlerRegistryAgainstCatalog (su_catalog su) (pa_evaluator p) = None"
    "lo_store (pa_loader p) = su_read su" "pa_guardrails p = guardrails_of (sc_EnvConfig cfg)" "rn_attempt_id (pa_runner p) = new_uuid x"
  using assms
  by (auto simp: wire_def Let_def Orphan.New_def Runner.New_def DefaultAttemptID_def fun_eq_iff Loader.New_def split: option.splits sum.splits prod.splits if_splits
      dest!: Load_pair_verified)

text \<open>
  The process never runs with \<^verbatim>\<open>NoopPublisher\<close>: each committed environment names a topic, and no environment
  variable replaces it.
\<close>

lemma wire_publisher:
  assumes "wire x su cfg w = (Inr p, w')"
  shows "newAlertsPublisher (su_pubsub su) cfg = Inr (pa_publisher p)"
  using assms by (auto simp: wire_def Let_def split: option.splits sum.splits prod.splits)

lemma boot_publishes:
  assumes "boot x su w = (Inr p, w')"
  shows "\<exists>pub. pa_publisher p = PubSub pub \<and> \<not> pp_closed pub"
proof -
  obtain cfg where cfg: "readEnv (su_getenv su) = Inr cfg" "wire x su cfg w = (Inr p, w')"
    using assms by (auto simp: boot_def split: sum.splits option.splits prod.splits)
  have "Select (su_getenv su ''DQ_ENV'') = Inr (sc_EnvConfig cfg)"
    using cfg(1) by (auto simp: readEnv_def Let_def split: if_splits sum.splits)
  then have "en_PubSubTopic (sc_EnvConfig cfg) \<noteq> []" unfolding Select_Inr by (auto simp: Local_def QA_def Prod_def)
  then show ?thesis
    using wire_publisher [OF cfg(2)] by (auto simp: newAlertsPublisher_def NewPubSubPublisher_def Let_def eq_commute [of _ "pa_publisher p"] split: sum.splits)
qed

text \<open>
  An entity the trigger surface accepts is UTF-8 in the encoder's sense too, so an alert consumer reads it back
  unchanged.
\<close>

lemma valid_utf8_step:
  "valid_utf8 (map of_char (a # s)) \<longleftrightarrow>
    rune_len (a # s) \<noteq> 0 \<and> valid_utf8 (map of_char (drop (rune_len (a # s)) (a # s)))"
proof -
  consider "byte a < 128" | "128 \<le> byte a" "byte a < 194" | "194 \<le> byte a" "byte a < 224"
    | "224 \<le> byte a" "byte a < 240" | "240 \<le> byte a" "byte a < 245" | "245 \<le> byte a" by linarith
  then show ?thesis
  proof cases
    case 3
    then show ?thesis
      by (cases s) (auto simp: rune_len.simps byte_def)
  next
    case 4
    then show ?thesis
      by (cases s; cases "tl s") (auto simp: rune_len.simps byte_def continuation_def)
  next
    case 5
    then show ?thesis
      by (cases s; cases "tl s"; cases "tl (tl s)") (auto simp: rune_len.simps byte_def continuation_def)
  qed (simp_all add: rune_len.simps byte_def)
qed
lemma ValidString_utf8: "ValidString s \<longleftrightarrow> utf8_string s"
  unfolding ValidString_def
proof (induction s rule: utf8_string.induct)
  case (2 c s)
  then show ?case unfolding valid_utf8_step utf8_string.simps(2) [of c s] by (cases "rune_len (c # s) = 0") (simp_all only: simp_thms if_True if_False)
qed (simp add: utf8_string.simps)

lemma accepted_entity_readable:
  assumes "valid_request req"
  shows "json_unescape (tl (json_string (hq_entity req)) @ r) = Some (hq_entity req, r)"
  using json_roundtrip [of "hq_entity req" r] assms by (simp add: valid_request_def ValidString_utf8 json_string_def)

text \<open>The record runners \<^verbatim>\<open>main\<close> wires dispatch to the process's runner and commit through a Kafka consumer.\<close>

definition wired_stream :: "ext \<Rightarrow> 'v parts \<Rightarrow> RecordRunner \<Rightarrow> bool" where
  "wired_stream x p r \<longleftrightarrow> rr_run r = Run x (pa_runner p) \<and> (\<exists>flush. rr_commit r = Commit flush)"

text \<open>
  The triggers of the engine, from either side: no operator's rerun, checks of one of the two modes, and an attempt
  id, where there is one, that \<^verbatim>\<open>uuid.NewString\<close> returned.
\<close>

definition known_modes :: "CheckSpec list \<Rightarrow> bool" where
  "known_modes cs \<longleftrightarrow> list_all (\<lambda>c. cs_mode c \<in> {ModeSet, ModeRecord}) cs"

definition planned :: "ext \<Rightarrow> TriggerRequest \<Rightarrow> bool" where
  "planned x tr \<longleftrightarrow> tr_supersedes tr = None \<and> tr_source tr \<in> {TriggerScheduler, TriggerManual} \<and> known_modes (tr_checks tr) \<and>
    (\<forall>a. tr_attempt_id tr = Some a \<longrightarrow> a \<in> range (new_uuid x))"

definition planned_source :: "RecordSource \<Rightarrow> bool" where
  "planned_source src \<longleftrightarrow> known_modes (so_checks src)"

lemma ToCheckSpecs_modes: "wf_rule r \<Longrightarrow> known_modes (ToCheckSpecs r)"
  by (auto simp: wf_rule_def ToCheckSpecs_def known_modes_def list_all_iff SpecModeSet_def mode_defs)

lemma window_planned: "planned_source (es_source es) \<Longrightarrow> planned x (window_trigger r es a)"
  by (simp add: planned_def planned_source_def window_trigger_def)

lemma record_runner_of_wired:
  assumes "record_runner_of k run jitter cfg g decode v entity body = Inr (Some (r, es))"
  shows "rr_run r = run \<and> (\<exists>flush. rr_commit r = Commit flush) \<and> (\<forall>e s. es e = Some s \<longrightarrow> planned_source (es_source s))"
  using assms
  by (auto simp: record_runner_of_def NewRecordRunner_def Parse_Inr planned_source_def ToCheckSpecs_modes
      split: sum.splits option.splits if_splits prod.splits)

lemma build_runners_wired:
  assumes "build_runners mk rd mrs out w = (Inr rrs, w')" "\<forall>ent body rr. mk ent body = Inr (Some rr) \<longrightarrow> P rr" "list_all P out"
  shows "list_all P rrs"
  using assms
  by (induction mk rd mrs out w rule: build_runners.induct) (auto split: sum.splits option.splits)

lemma wire_streams:
  assumes "wire x su cfg w = (Inr p, w')" "(r, es) \<in> set (pa_record_runners p)"
  shows "wired_stream x p r" "es e = Some s \<Longrightarrow> planned_source (es_source s)"
proof -
  obtain g c m u u' where "buildRecordRunners (su_kafka su) (Run x (pa_runner p)) (su_jitter su) c g (su_decode su) (su_read su) m u
      = (Inr (pa_record_runners p), u')"
    using assms(1) by (auto simp: wire_def Let_def split: option.splits sum.splits prod.splits)
  then have "list_all (\<lambda>(r, es). wired_stream x p r \<and> (\<forall>e s. es e = Some s \<longrightarrow> planned_source (es_source s))) (pa_record_runners p)"
    unfolding buildRecordRunners_def
    by (rule build_runners_wired) (use record_runner_of_wired in \<open>fastforce simp: wired_stream_def\<close>, simp)
  then show "wired_stream x p r" "es e = Some s \<Longrightarrow> planned_source (es_source s)" using assms(2) by (auto simp: list_all_iff)
qed

lemma extends_stream:
  assumes "wired_stream x p r"
  shows "stream_relation r extends planned_source"
proof
  show "extends w (snd (rr_commit r recs w))" for w recs
    using assms by (auto simp: wired_stream_def Commit_def append_only split: option.split)
  show "extends w (snd (rr_run r (window_trigger r es a) w))" for w es a
    using assms by (simp add: wired_stream_def extends_Run)
qed (auto intro: extends_trans append_only)

definition engine_ok :: "ext \<Rightarrow> 'v surroundings \<Rightarrow> 'v parts \<Rightarrow> world \<Rightarrow> engine \<Rightarrow> bool" where
  "engine_ok x su p w0 s \<longleftrightarrow> list_all (\<lambda>(r, st). wired_stream x p r \<and> sources_ok planned_source st) (eg_streams s) \<and>
    list_all (verified (su_codec su) (su_semver su) (pa_loader p)) (eg_current s # eg_reads s) \<and> extends w0 (eg_world s) \<and>
    list_all (\<lambda>sp. sound_plan su p sp \<and> planned x (sp_request sp)) (eg_pending s)"

lemma engine_ok_stream:
  assumes "engine_ok x su p w0 s" "i < length (eg_streams s)" "eg_streams s ! i = (r, st)"
  shows "wired_stream x p r" "sources_ok planned_source (st\<lparr>st_world := w\<rparr>)"
  using assms by (auto simp: engine_ok_def list_all_length sources_ok_def)

text \<open>What an accepted request carries when a swap may fall between the two reads of the holder.\<close>

lemma accepted_plan:
  assumes "HandleTrigger x (engine_handler x su p cur) j httpMethod httpBody w = (out, Some sp, w')"
  shows "\<exists>m m'. cur (tick w) = Some m \<and> cur (tick w + 1) = Some m' \<and> tr_ruleset_version (sp_request sp) = mf_ruleset_version m \<and>
    resolved_from (su_read su) (su_decode su) (pa_guardrails p) m' (tr_entity (sp_request sp)) (tr_checks (sp_request sp)) \<and>
    validateTrigger (sp_request sp) = None"
proof -
  have "validateTrigger (sp_request sp) = None"
    using assms by (rule accepted_valid)
  from assms show ?thesis
  proof (cases rule: HandleTrigger_accepted)
    case (1 req m ws we checks a t)
    have req: "tr_ruleset_version (sp_request sp) = mf_ruleset_version m" "tr_entity (sp_request sp) = hq_entity req"
      "tr_checks (sp_request sp) = checks" using arg_cong [OF 1(7), of sp_request] by simp_all
    have "resolveChecks (su_read su) (su_decode su) (pa_guardrails p) cur (tick w + 1) (hq_entity req) = Inr checks"
      using 1(9) by (simp add: engine_handler_def)
    then show ?thesis using 1(3) req \<open>validateTrigger (sp_request sp) = None\<close> resolveChecks_ok
      by (metis (no_types, lifting) Handler.select_convs(2) engine_handler_def)
  qed
qed

lemma resolved_modes: "resolved_from rd decode g m entity checks \<Longrightarrow> known_modes checks"
  by (auto simp: resolved_from_def ToCheckSpecs_modes)

lemma accepted_planned:
  assumes "HandleTrigger x (engine_handler x su p (two_reads t m m')) j httpMethod httpBody w = (out, Some sp, w')"
    and "verified (su_codec su) (su_semver su) (pa_loader p) m" "verified (su_codec su) (su_semver su) (pa_loader p) m'"
  shows "sound_plan su p sp \<and> planned x (sp_request sp)"
proof -
  obtain m1 m2 where plan: "two_reads t m m' (tick w) = Some m1" "two_reads t m m' (tick w + 1) = Some m2"
    "tr_ruleset_version (sp_request sp) = mf_ruleset_version m1" "validateTrigger (sp_request sp) = None"
    "resolved_from (su_read su) (su_decode su) (pa_guardrails p) m2 (tr_entity (sp_request sp)) (tr_checks (sp_request sp))"
    using accepted_plan [OF assms(1)] by blast
  have "verified (su_codec su) (su_semver su) (pa_loader p) m1" "verified (su_codec su) (su_semver su) (pa_loader p) m2"
    using plan(1,2) assms(2,3) by (auto simp: two_reads_def split: if_splits)
  then have "sound_plan su p sp" unfolding sound_plan_def using plan(3-5) by blast
  moreover have "planned x (sp_request sp)"
    unfolding planned_def using accepted_request [OF assms(1)] resolved_modes [OF plan(5)] by (auto simp: engine_handler_def)
  ultimately show ?thesis by blast
qed

lemma engine_ok_boot: "wire x su cfg w = (Inr p, w0) \<Longrightarrow> engine_ok x su p w0 (boot_state p w0)"
  using wire_parts(2) wire_streams by (fastforce simp: engine_ok_def boot_state_def list_all_iff sources_ok_def)

lemma engine_step_ok:
  assumes "engine_step x su p s s'" "engine_ok x su p w0 s" "de_scanner (pa_detector p) = bigquery_scanner x"
  shows "engine_ok x su p w0 s'"
proof -
  have ext: "extends w0 w" if "extends (eg_world s) w" for w
    using assms(2) that extends_trans by (auto simp: engine_ok_def)
  have vm: "verified (su_codec su) (su_semver su) (pa_loader p) (eg_current s)" using assms(2) by (simp add: engine_ok_def)
  show ?thesis using assms(1)
  proof (cases rule: engine_step.cases)
    case (refresh m w)
    then show ?thesis using refresh_tick_verified [OF refresh(2) vm] ext assms(2) by (simp add: engine_ok_def)
  next
    case orphan
    then show ?thesis using ext [OF orphan_tick_extends [OF assms(3)]] assms(2) by (simp add: engine_ok_def)
  next
    case proxy
    then show ?thesis using ext [OF proxy_tick_extends] assms(2) by (simp add: engine_ok_def)
  next
    case arrived
    then show ?thesis using assms(2) by (simp add: engine_ok_def)
  next
    case (trigger m j httpMethod httpBody out sp w)
    have "sound_plan su p sp' \<and> planned x (sp_request sp')" if "sp = Some sp'" for sp'
      using accepted_planned [OF trigger(3) [unfolded that]] trigger(2) vm assms(2) by (simp add: engine_ok_def list_all_iff)
    then show ?thesis using trigger(1) ext [OF HandleTrigger_extends [OF trigger(3)]] assms(2)
      by (auto simp: engine_ok_def split: option.split)
  next
    case (dispatched sp cur)
    then show ?thesis using ext [OF dispatch_extends] assms(2) by (simp add: engine_ok_def)
  next
    case (recorded i r st f st')
    note wired = engine_ok_stream(1) [OF assms(2) recorded(2,3)] and src = engine_ok_stream(2) [OF assms(2) recorded(2,3), of "eg_world s"]
    have "extends (eg_world s) (st_world st')" "sources_ok planned_source st'"
      using stream_relation.handleFetched_rel [OF extends_stream [OF wired] src, of x f] handleFetched_sources [OF src, of x r f]
        recorded(4) by simp_all
    then show ?thesis using recorded ext assms(2) wired
      by (auto simp: engine_ok_def list_all_length nth_list_update)
  next
    case zeroes
    then show ?thesis using ext [OF extends_sample] assms(2) by (simp add: engine_ok_def)
  next
    case idle
    then show ?thesis using ext [OF extends_step] assms(2) by (simp add: engine_ok_def)
  qed
qed

text \<open>
  C31. Whatever the running engine does, in any interleaving of refresh rounds, orphan scans, metric rounds, the two
  halves of requests, attempts and records, from a successful boot on: the active manifest is a verified one
  (refused refreshes keep the previous), both tables, the published alerts and the samples only grow, and every
  accepted request passes the runner's validation and carries the ruleset version of one verified manifest and the
  checks of a well-formed rule of its entity in a verified manifest, within the cost guardrails. The two may be
  different manifests: a refresh can fall between the two reads of the holder.
\<close>

theorem engine_invariant:
  assumes "boot x su w = (Inr p, w0)" "engine_steps x su p (boot_state p w0) s"
  shows "verified (su_codec su) (su_semver su) (pa_loader p) (eg_current s) \<and> extends w0 (eg_world s) \<and>
    list_all (sound_plan su p) (eg_pending s)"
proof -
  obtain cfg where wi: "wire x su cfg w = (Inr p, w0)"
    using assms(1) by (auto simp: boot_def split: sum.splits option.splits prod.splits)
  have "engine_ok x su p w0 (boot_state p w0)" by (rule engine_ok_boot [OF wi])
  with assms(2) have "engine_ok x su p w0 s"
    by (induction rule: rtranclp_induct) (use engine_step_ok wire_parts(1) [OF wi] in blast)+
  then show ?thesis by (auto simp: engine_ok_def list_all_iff)
qed

section \<open>Isolation of a plan\<close>

text \<open>
  C34. An accepted request under any history of manifest swaps, which may fall between the handler's read of the
  holder and the one in \<open>resolveChecks\<close>: the ruleset version is that of the manifest at the first
  read, the checks are those of the manifest at the second, and both are verified. Nothing makes the two the same
  manifest.
\<close>

theorem trigger_plan_two_reads:
  assumes "HandleTrigger x (engine_handler x su p cur) j httpMethod httpBody w = (out, Some sp, w')"
    and "\<And>t m. cur t = Some m \<Longrightarrow> verified (su_codec su) (su_semver su) (pa_loader p) m"
  shows "\<exists>m m'. cur (tick w) = Some m \<and> cur (tick w + 1) = Some m' \<and>
    verified (su_codec su) (su_semver su) (pa_loader p) m \<and> verified (su_codec su) (su_semver su) (pa_loader p) m' \<and>
    tr_ruleset_version (sp_request sp) = mf_ruleset_version m \<and>
    resolved_from (su_read su) (su_decode su) (pa_guardrails p) m' (tr_entity (sp_request sp)) (tr_checks (sp_request sp))"
  using accepted_plan [OF assms(1)] assms(2) by metis

definition rehash :: "(ManifestRule \<Rightarrow> string) \<Rightarrow> LoadedManifest \<Rightarrow> LoadedManifest" where
  "rehash h m = m\<lparr>mf_rules := map (\<lambda>r. r\<lparr>mr_yaml_hash := h r\<rparr>) (mf_rules m)\<rparr>"

lemma find_rehash:
  "find (\<lambda>r. mr_entity r = e) (map (\<lambda>r. r\<lparr>mr_yaml_hash := h r\<rparr>) rs) = map_option (\<lambda>r. r\<lparr>mr_yaml_hash := h r\<rparr>) (find (\<lambda>r. mr_entity r = e) rs)"
  by (induction rs) auto

lemma build_runners_rehash: "build_runners mk rd (map (\<lambda>r. r\<lparr>mr_yaml_hash := h r\<rparr>) rs) out w = build_runners mk rd rs out w"
  by (induction rs arbitrary: out w) (simp_all split: sum.split option.split)

text \<open>
  The engine never looks at the digests the manifest records for its rules: with any other \<^verbatim>\<open>yaml_hash\<close>
  values the same checks are resolved for every trigger and the same record runners are built, so a
  rule body that does not have its recorded digest is run like any other.
\<close>

theorem yaml_hash_unused:
  "resolveChecks rd decode g (\<lambda>t. map_option (rehash h) (cur t)) = resolveChecks rd decode g cur \<and>
   buildRecordRunners k run jitter cfg g decode rd (rehash h m) w = buildRecordRunners k run jitter cfg g decode rd m w"
  by (auto simp: fun_eq_iff resolveChecks_def buildRecordRunners_def build_runners_rehash rehash_def find_rehash split: option.split sum.split)

section \<open>An engine\<close>

definition tiny_manifest :: "string \<Rightarrow> Manifest" where
  "tiny_manifest v = \<lparr>mf_manifest_version = 1, mf_ruleset_version = v, mf_schema_versions_present = [2],
     mf_engine_compatibility = ''*'', mf_linter_used = ''l'', mf_generated_at = 0,
     mf_rules = [\<lparr>mr_entity = ''orders'', mr_yaml_path = v, mr_yaml_hash = []\<rparr>]\<rparr>"

definition tiny_loaded :: "string \<Rightarrow> string \<Rightarrow> LoadedManifest" where
  "tiny_loaded v body = Manifest.extend (tiny_manifest v) (LoadedManifest.fields (sha256_hex body))"

definition tiny_codec :: codec where
  "tiny_codec = \<lparr>marshal_manifest = (\<lambda>m. Inr []), unmarshal_manifest = (\<lambda>b. Inr (tiny_manifest b)), marshal_pointer = (\<lambda>p. Inr []),
     unmarshal_pointer = (\<lambda>b. Inr \<lparr>po_pointer_version = 1, po_manifest_hash = ''sha256:'' @ sha256_hex ''r1'',
       po_ruleset_version = ''r1'', po_published_at = 0\<rparr>)\<rparr>"

text \<open>The body under every manifest key is \<open>r1\<close> up to tick 99 and \<open>r2\<close> from then on; a rule body is its path.\<close>

definition tiny_read :: object_reader where
  "tiny_read key t = (if HasPrefix key ''manifests/'' then Inr (if t < 100 then ''r1'' else ''r2'') else Inr key)"

definition tiny_rule :: "string \<Rightarrow> RuleSpec" where
  "tiny_rule i = \<lparr>ru_Version = 2, ru_Entity = ''orders'', ru_Mode = ''set'',
     ru_Source = Some \<lparr>so_Type = ''bigquery'', so_ProjectID = ''p'', so_DatasetID = ''d'', so_TableID = ''t'',
       so_PartitionColumn = [], so_Topic = [], so_ConsumerGroup = [], so_Window = None\<rparr>,
     ru_Description = [],
     ru_Checks = [\<lparr>ck_CheckID = i, ck_Kind = ''set.row_count_positive'', ck_Description = [], ck_Params = None\<rparr>]\<rparr>"

definition embedded_catalog :: Catalog where
  "embedded_catalog = \<lparr>ca_Version = 1, ca_Kinds =
     [\<lparr>ca_Name = ''set.row_count_positive'', ca_Mode = ''set'', ca_SourceMode = ''set''\<rparr>,
      \<lparr>ca_Name = ''set.row_count_within_baseline'', ca_Mode = ''set'', ca_SourceMode = ''set''\<rparr>,
      \<lparr>ca_Name = ''record.schema_conformance'', ca_Mode = ''record'', ca_SourceMode = ''record''\<rparr>]\<rparr>"

definition tiny_surroundings :: "unit surroundings" where
  "tiny_surroundings = \<lparr>su_getenv = (\<lambda>n. if n = ''DQ_ENV'' then ''local'' else []), su_clients = [],
     su_pubsub = (\<lambda>project. Inr (\<lambda>topic. \<lparr>pc_ID = topic, pc_answer = (\<lambda>n stopped. None), pc_delivers = (\<lambda>n. True)\<rparr>)), su_read = tiny_read,
     su_codec = tiny_codec, su_semver = any_version, su_semver_err = (\<lambda>v. None), su_catalog = Inr embedded_catalog,
     su_decode = (\<lambda>b. Inr (tiny_rule b)), su_backend = demo_backend 1,
     su_kafka = \<lparr>k_new = (\<lambda>c. None), k_poll = (\<lambda>c t. (None, [])), k_commit = (\<lambda>c t os. None)\<rparr>, su_jitter = (\<lambda>t d. 0)\<rparr>"

text \<open>The catalog the binary embeds is covered by the handlers the evaluator registers.\<close>

lemma RegisteredKinds_New:
  assumes "Eval.New cfg = Inr e"
  shows "set (RegisteredKinds e) = {KindSetRowCountPositive, KindSetRowCountWithinBaseline, KindRecordSchemaConformance}"
  using assms
  by (auto simp: Eval.New_def RegisteredKinds_def Register_def KindSetRowCountPositive_def KindSetRowCountWithinBaseline_def
      KindRecordSchemaConformance_def split: if_splits)

lemma embedded_catalog_covered: "Eval.New cfg = Inr e \<Longrightarrow> verifyHandlerRegistryAgainstCatalog (Inr embedded_catalog) e = None"
  by (simp add: verifyHandlerRegistryAgainstCatalog_def embedded_catalog_def RegisteredKinds_New KindSetRowCountPositive_def
      KindSetRowCountWithinBaseline_def KindRecordSchemaConformance_def)

lemma tiny_rule_wf: "wf_rule (tiny_rule ''r1'')" "wf_rule (tiny_rule ''r2'')"
proof -
  have "Dsl_Spec.Parse (\<lambda>_. Inr (tiny_rule ''r1'')) [] = Inr (tiny_rule ''r1'')" "Dsl_Spec.Parse (\<lambda>_. Inr (tiny_rule ''r2'')) [] = Inr (tiny_rule ''r2'')"
    by code_simp+
  then show "wf_rule (tiny_rule ''r1'')" "wf_rule (tiny_rule ''r2'')" by (simp_all add: Parse_Inr)
qed

definition tiny_loader :: "unit Loader" where
  "tiny_loader = \<lparr>lo_store = tiny_read, lo_engineVersion = (), lo_supportedMV = [1], lo_supportedSV = [1, 2],
     lo_pointerKey = ''manifests/latest.json'', lo_bodyPrefix = ''manifests/by-hash/'', lo_metrics = True\<rparr>"

lemma tiny_verified:
  assumes "tiny_read (''manifests/by-hash/'' @ ''sha256-'' @ sha256_hex v @ ''.json'') t = Inr v"
  shows "verified tiny_codec any_version tiny_loader (tiny_loaded v v)"
proof -
  have "compatible any_version () [1] [1, 2] (tiny_manifest v)"
    by (simp add: compatible_def any_version_def tiny_manifest_def)
  moreover have h: "mf_Hash (tiny_loaded v v) = sha256_hex v" by (simp add: tiny_loaded_def Manifest.defs LoadedManifest.defs)
  ultimately show ?thesis
    unfolding verified_def h
    by (intro exI [of _ v] exI [of _ "tiny_manifest v"] exI [of _ t])
      (use assms in \<open>simp add: tiny_loader_def tiny_codec_def tiny_loaded_def\<close>)
qed

lemma tiny_reads: "tiny_read (''manifests/'' @ k) t = Inr (if t < 100 then ''r1'' else ''r2'')"
  by (simp add: tiny_read_def HasPrefix_def)

lemma tiny_both_verified:
  "verified tiny_codec any_version tiny_loader (tiny_loaded ''r1'' ''r1'')" "verified tiny_codec any_version tiny_loader (tiny_loaded ''r2'' ''r2'')"
  using tiny_reads [of "''by-hash/'' @ k" for k] by (auto intro: tiny_verified [of _ 0] tiny_verified [of _ 100])

lemma tiny_Load:
  assumes "tick w < 50"
  shows "Load tiny_codec any_version tiny_loader w = (Inr (tiny_loaded ''r1'' ''r1''), step (step w))"
proof -
  define ptr where "ptr = \<lparr>po_pointer_version = 1, po_manifest_hash = ''sha256:'' @ sha256_hex ''r1'', po_ruleset_version = ''r1'', po_published_at = 0\<rparr>"
  have strip: "stripSha256Prefix (po_manifest_hash ptr) = Inr (sha256_hex ''r1'')"
    unfolding ptr_def stripSha256Prefix_ok by (simp add: sha256_hex_shape)
  have reads: "lo_store tiny_loader (lo_pointerKey tiny_loader) (tick w) = Inr ''r1''"
    "lo_store tiny_loader (body_key tiny_loader h) (tick (step w)) = Inr ''r1''" for h
    using assms by (simp_all add: tiny_loader_def tiny_read_def HasPrefix_def)
  have p: "readPointer tiny_codec tiny_loader w = (Inr ptr, step w)"
    using reads(1) strip by (simp add: readPointer_def tiny_codec_def ptr_def)
  have "runContractChecks any_version (tiny_manifest ''r1'') () [1] [1, 2] = None"
    unfolding runContractChecks_None by (simp add: compatible_def any_version_def tiny_manifest_def)
  then have "fetchAndVerify tiny_codec any_version tiny_loader ptr (step w) = (Inr (tiny_loaded ''r1'' ''r1''), step (step w))"
    using reads(2) strip by (simp add: fetchAndVerify_def Let_def tiny_codec_def tiny_loaded_def) (simp add: tiny_loader_def)
  then show ?thesis by (simp add: Load_def p)
qed

definition local_config :: startupConfig where
  "local_config = \<lparr>sc_EnvConfig = Local, sc_SlogLevel = 0, sc_LogLevels = [], sc_IgnoredLogPackages = [],
     sc_StorageEmulatorHost = [], sc_BigQueryEmulatorHost = []\<rparr>"

lemma tiny_env: "readEnv (su_getenv tiny_surroundings) = Inr local_config" "validateNoPlaceholders local_config = None"
proof -
  have "ParseLogLevels [] = Inr \<lparr>pr_Levels = [], pr_Ignored = []\<rparr>" by (simp add: ParseLogLevels_def TrimSpace_def)
  then show "readEnv (su_getenv tiny_surroundings) = Inr local_config"
    by (simp add: readEnv_def tiny_surroundings_def Select_def NameLocal_def Slog_def LevelInfo_def local_config_def) (simp add: Local_def Slog_def LevelInfo_def)
  show "validateNoPlaceholders local_config = None"
    by (simp add: validateNoPlaceholders_def local_config_def Local_def)
qed

lemma tiny_loaded_simps [simp]:
  "mf_ruleset_version (tiny_loaded v b) = v" "mf_Hash (tiny_loaded v b) = sha256_hex b"
  "mf_rules (tiny_loaded v b) = [\<lparr>mr_entity = ''orders'', mr_yaml_path = v, mr_yaml_hash = []\<rparr>]"
  by (simp_all add: tiny_loaded_def tiny_manifest_def Manifest.defs LoadedManifest.defs)

lemma tiny_parts:
  "\<exists>p w. wire quiet tiny_surroundings local_config empty_world = (Inr p, w) \<and> pa_loader p = tiny_loader \<and> pa_initial p = tiny_loaded ''r1'' ''r1''"
proof -
  have c: "create_err quiet t = None" for t by (simp add: quiet_def)
  obtain w where w: "EnsureSchema quiet (en_BigQueryDataset Local) empty_world = (None, w)" "tick w < 50"
    by (simp add: EnsureSchema_def ensureTable_def ensureView_def Let_def c)
  have ldr: "Loader.New any_version (Some tiny_read) \<lparr>lc_EngineVersion = en_EngineVersion Local, lc_SupportedSchemaVersions = [1, 2],
      lc_SupportedManifestVersions = [], lc_PointerKey = [], lc_BodyPrefix = [], lc_Metrics = True\<rparr> = Inr tiny_loader"
    by (simp add: Loader.New_def any_version_def tiny_loader_def)
  obtain d where d: "Orphan.New Duration_String (Some (bigquery_scanner quiet))
      \<lparr>dc_engine_version = en_EngineVersion Local, dc_threshold = en_OrphanThreshold Local\<rparr> = Inr d"
    by (simp add: Orphan.New_def Local_def Minute_def Second_def)
  obtain e where e: "Eval.New \<lparr>ec_client = True, ec_resultsProject = en_BigQueryProject Local, ec_resultsDataset = en_BigQueryDataset Local,
      ec_resultsRetention = er_ResultsRetention (en_EvidenceRetention Local)\<rparr> = Inr e"
    by (simp add: Eval.New_def)
  obtain rn where rn: "Runner.New (\<lambda>v. None) quiet \<lparr>rg_store = True, rg_precheck = None, rg_evaluator = Some (Evaluate (demo_backend 1) e), rg_engine_version = en_EngineVersion Local,
      rg_ruleset_version = ''r1'', rg_attempt_id = None\<rparr> = Inr rn"
    by (simp add: Runner.New_def Local_def)
  have "record_runner_of k run jitter cfg g (\<lambda>b. Inr (tiny_rule b)) v ent (Inr ''r1'') = Inr None" for k run jitter cfg g v ent
    using tiny_rule_wf(1) by (simp add: record_runner_of_def Parse_Inr [THEN iffD2, of _ _ "tiny_rule ''r1''"]) (simp add: tiny_rule_def SpecModeRecord_def)
  then have rr: "buildRecordRunners k run jitter cfg g (\<lambda>b. Inr (tiny_rule b)) tiny_read (tiny_loaded ''r1'' ''r1'') u = (Inr [], step u)"
    for k run jitter cfg g u
    by (simp add: buildRecordRunners_def tiny_read_def HasPrefix_def)
  have "\<exists>pub. newAlertsPublisher (su_pubsub tiny_surroundings) local_config = Inr pub"
    by (simp add: newAlertsPublisher_def tiny_surroundings_def Let_def)
  then obtain pub where pub: "newAlertsPublisher (su_pubsub tiny_surroundings) local_config = Inr pub" ..
  show ?thesis
    using w ldr d e rn embedded_catalog_covered [OF e] tiny_Load [OF w(2)]
    unfolding wire_def pub by (simp add: tiny_surroundings_def local_config_def Let_def rr)
qed


text \<open>A boot, an accepted request in its two steps and its attempt.\<close>

lemma steady_accept:
  "\<exists>out sp w'. HandleTrigger quiet (engine_handler quiet tiny_surroundings p (two_reads t (tiny_loaded ''r1'' ''r1'') (tiny_loaded ''r1'' ''r1'')))
    (api_json jan_1 jan_2) ''POST'' (Inr ''{}'') w = (out, Some sp, w')"
proof -
  let ?cur = "two_reads t (tiny_loaded ''r1'' ''r1'') (tiny_loaded ''r1'' ''r1'')"
  have "Compute ''r1'' ''orders'' (Parse_or_zero jan_1) (Parse_or_zero jan_2) TriggerManual = Inr api_id"
    by (simp add: Compute_Inr_iff api_id_def source_defs)
  moreover have "resolveChecks tiny_read (\<lambda>b. Inr (tiny_rule b)) g ?cur u ''orders'' = Inr (ToCheckSpecs (tiny_rule ''r1''))" for g u
  proof -
    have "EvaluateCost (tiny_rule ''r1'') g = None" by (simp add: EvaluateCost_def tiny_rule_def SpecModeRecord_def)
    then show ?thesis using tiny_rule_wf(1) Parse_Inr [of "\<lambda>b. Inr (tiny_rule b)" "''r1''" "tiny_rule ''r1''"]
      by (simp add: resolveChecks_def tiny_read_def HasPrefix_def two_reads_def)
  qed
  ultimately show ?thesis
    unfolding HandleTrigger_def api_decode [OF api_times(2,3,6)] mustParseValidatedWindow_def
    by (simp add: engine_handler_def jan_parses accept_def now_def Let_def tiny_surroundings_def two_reads_def)
qed

lemma attempted_state:
  "\<exists>(p :: unit parts) w0 sp w1 s. boot quiet tiny_surroundings empty_world = (Inr p, w0) \<and>
     engine_steps quiet tiny_surroundings p (boot_state p w0) s \<and> eg_pending s = [sp] \<and>
     eg_world s = dispatch quiet (engine_handler quiet tiny_surroundings p (\<lambda>_. None)) sp w1"
proof -
  obtain p w0 where w: "wire quiet tiny_surroundings local_config empty_world = (Inr p, w0)" "pa_initial p = tiny_loaded ''r1'' ''r1''"
    using tiny_parts by blast
  then have b: "boot quiet tiny_surroundings empty_world = (Inr p, w0)" by (simp add: boot_def tiny_env)
  let ?step = "engine_step quiet tiny_surroundings p"
  define s1 where "s1 = (boot_state p w0)\<lparr>eg_reads := [pa_initial p]\<rparr>"
  have 1: "?step (boot_state p w0) s1"
    using engine_step.arrived [of quiet tiny_surroundings p "boot_state p w0"] by (simp add: boot_state_def s1_def)
  obtain out sp w1 where h: "HandleTrigger quiet (engine_handler quiet tiny_surroundings p (two_reads (tick (eg_world s1)) (pa_initial p) (eg_current s1)))
      (api_json jan_1 jan_2) ''POST'' (Inr ''{}'') (eg_world s1) = (out, Some sp, w1)"
    using steady_accept [of p "tick w0" w0] w(2) by (auto simp: boot_state_def s1_def)
  define s2 where "s2 = s1\<lparr>eg_pending := [sp], eg_world := w1\<rparr>"
  have 2: "?step s1 s2" using engine_step.trigger [OF _ h] by (simp add: boot_state_def s1_def s2_def)
  define s3 where "s3 = s2\<lparr>eg_world := dispatch quiet (engine_handler quiet tiny_surroundings p (\<lambda>_. None)) sp (eg_world s2)\<rparr>"
  have 3: "?step s2 s3" unfolding s3_def by (rule engine_step.dispatched) (simp add: s2_def)
  have "engine_steps quiet tiny_surroundings p (boot_state p w0) s3" using 1 2 3
    by (blast intro: rtranclp.rtrancl_into_rtrancl)
  moreover have "eg_pending s3 = [sp]" "eg_world s3 = dispatch quiet (engine_handler quiet tiny_surroundings p (\<lambda>_. None)) sp (eg_world s2)"
    by (simp_all add: s3_def s2_def)
  ultimately show ?thesis using b by blast
qed

theorem engine_invariant_witness:
  "\<exists>(p :: unit parts) w0 s sp. boot quiet tiny_surroundings empty_world = (Inr p, w0) \<and>
     engine_steps quiet tiny_surroundings p (boot_state p w0) s \<and> eg_pending s = [sp] \<and> sound_plan tiny_surroundings p sp"
proof -
  obtain p :: "unit parts" and w0 s sp where s: "boot quiet tiny_surroundings empty_world = (Inr p, w0)"
    "engine_steps quiet tiny_surroundings p (boot_state p w0) s" "eg_pending s = [sp]"
    using attempted_state by blast
  from engine_invariant [OF s(1,2)] s show ?thesis by auto
qed

text \<open>A swap from \<open>r1\<close> to \<open>r2\<close> between the two reads: the attempt runs the checks of \<open>r2\<close> under the version \<open>r1\<close>.\<close>

definition swapping :: "nat \<Rightarrow> LoadedManifest option" where
  "swapping t = Some (if t = 0 then tiny_loaded ''r1'' ''r1'' else tiny_loaded ''r2'' ''r2'')"

lemma swapped_accept:
  "\<exists>out sp w'. HandleTrigger quiet (engine_handler quiet tiny_surroundings p swapping) (api_json jan_1 jan_2) ''POST'' (Inr ''{}'') empty_world
    = (out, Some sp, w') \<and> tr_ruleset_version (sp_request sp) = ''r1'' \<and> tr_checks (sp_request sp) = ToCheckSpecs (tiny_rule ''r2'')"
proof -
  have "Compute ''r1'' ''orders'' (Parse_or_zero jan_1) (Parse_or_zero jan_2) TriggerManual = Inr api_id"
    by (simp add: Compute_Inr_iff api_id_def source_defs)
  moreover have "resolveChecks tiny_read (\<lambda>b. Inr (tiny_rule b)) g swapping (Suc 0) ''orders'' = Inr (ToCheckSpecs (tiny_rule ''r2''))" for g
  proof -
    have "EvaluateCost (tiny_rule ''r2'') g = None" by (simp add: EvaluateCost_def tiny_rule_def SpecModeRecord_def)
    then show ?thesis using tiny_rule_wf(2) Parse_Inr [of "\<lambda>b. Inr (tiny_rule b)" "''r2''" "tiny_rule ''r2''"]
      by (simp add: resolveChecks_def swapping_def tiny_read_def HasPrefix_def)
  qed
  ultimately show ?thesis
    unfolding HandleTrigger_def api_decode [OF api_times(2,3,6)] mustParseValidatedWindow_def
    by (simp add: engine_handler_def jan_parses accept_def swapping_def [of 0] now_def Let_def tiny_surroundings_def)
qed

theorem trigger_plan_two_reads_witness:
  "\<exists>(p :: unit parts) m m'. swapping 0 = Some m \<and> swapping 1 = Some m' \<and> mf_ruleset_version m = ''r1'' \<and> mf_ruleset_version m' = ''r2'' \<and>
    resolved_from tiny_read (\<lambda>b. Inr (tiny_rule b)) (pa_guardrails p) m' ''orders'' (ToCheckSpecs (tiny_rule ''r2'')) \<and>
    pa_loader p = tiny_loader"
proof -
  obtain p :: "unit parts" where p: "pa_loader p = tiny_loader" using tiny_parts by blast
  obtain out sp w' where h: "HandleTrigger quiet (engine_handler quiet tiny_surroundings p swapping) (api_json jan_1 jan_2) ''POST'' (Inr ''{}'')
      empty_world = (out, Some sp, w')" "tr_ruleset_version (sp_request sp) = ''r1''" "tr_checks (sp_request sp) = ToCheckSpecs (tiny_rule ''r2'')"
    using swapped_accept [of p] by blast
  have v: "swapping t = Some m \<Longrightarrow> verified (su_codec tiny_surroundings) (su_semver tiny_surroundings) (pa_loader p) m" for t m
    using tiny_both_verified p by (auto simp: swapping_def tiny_surroundings_def split: if_splits)
  have e: "tr_entity (sp_request sp) = ''orders''"
    using h(1) by (cases rule: HandleTrigger_accepted) (auto simp: api_decode [OF api_times(2,3,6)] dest: arg_cong [of _ _ sp_request])
  have "\<exists>m m'. swapping (tick empty_world) = Some m \<and> swapping (tick empty_world + 1) = Some m' \<and>
    verified (su_codec tiny_surroundings) (su_semver tiny_surroundings) (pa_loader p) m \<and>
    verified (su_codec tiny_surroundings) (su_semver tiny_surroundings) (pa_loader p) m' \<and>
    tr_ruleset_version (sp_request sp) = mf_ruleset_version m \<and>
    resolved_from (su_read tiny_surroundings) (su_decode tiny_surroundings) (pa_guardrails p) m' (tr_entity (sp_request sp)) (tr_checks (sp_request sp))"
    by (rule trigger_plan_two_reads [OF h(1)]) (rule v)
  then show ?thesis using h(2,3) e p by (auto simp: swapping_def tiny_surroundings_def)
qed

end
