(* ===== verification/Engine_Metrics.thy ===== *)
theory Engine_Metrics
  imports Engine
begin

text \<open>
  The samples of the running engine: every one of them fits a collector of the registry the process was
  started with, so no \<^verbatim>\<open>WithLabelValues\<close> of the engine panics for the number of its values.
\<close>

abbreviation well :: "world \<Rightarrow> world \<Rightarrow> bool" where
  "well \<equiv> sampled_in inventory"

section \<open>The runner\<close>

lemma fits_inventory:
  "fits inventory (Inc ''dq_runs_total'' [a, b, c, d])"
  "fits inventory (Observe ''dq_run_duration_seconds'' [a, b, c] v)"
  "fits inventory (Inc ''dq_checks_evaluated_total'' [a, b, c, d])"
  "fits inventory (Observe ''dq_check_duration_seconds'' [a, b, c] v)"
  "fits inventory (Set ''dq_bytes_scanned'' [a, b] v)"
  "fits inventory (Inc ''dq_record_commit_failures_total'' [a])"
  "fits inventory (Inc ''dq_record_commit_retries_total'' [a, b])"
  "fits inventory (Observe ''dq_record_commit_duration_seconds'' [a] v)"
  "fits inventory (Inc ''dq_loader_refresh_failures_total'' [a])"
  "fits inventory (Set ''dq_queue_depth'' [a, b] v)"
  "fits inventory (Set ''dq_scheduler_triggers_managed'' [a, b] v)"
  by (simp_all add: fits_def inventory_def vec_defs)

lemma well_emitted [well_sampled]: "well w (snd (emitted d es w))"
  by (simp add: sampled_in_same)

lemma well_emitRunMetrics [well_sampled]: "well w (emitRunMetrics tr s st t w)"
  by (simp add: emitRunMetrics_def Let_def well_sampled fits_inventory)

lemma well_finish [well_sampled]: "well w (snd (finish fmt x r d i a st tr s m w))"
proof -
  let ?w1 = "(step (step w))\<lparr>executions := es\<rparr>"
  have "well w ((step (step w))\<lparr>executions := es\<rparr>)" for es by (simp add: sampled_in_same)
  moreover from this have "well w (snd (emitted d evs (emitRunMetrics tr s st t ((step (step w))\<lparr>executions := es\<rparr>))))" for evs t es
    by (meson sampled_in_trans well_emitRunMetrics well_emitted)
  ultimately show ?thesis by (auto simp: finish_def Let_def split: option.split)
qed

lemma well_run_check: "well w (snd (snd (run_check x r i a tr spec d w)))"
  by (auto simp: run_check_def now_def WriteCheckResultRow_eq emitCheckEvent_eq Let_def sampled_in_def sample_def fits_inventory
      split: prod.split option.split)

lemma well_run_checks: "run_checks x r i a tr specs d w = (res, d', w') \<Longrightarrow> well w w'"
proof (induction specs arbitrary: d w res d' w')
  case (Cons spec specs)
  have s: "well w (step w)" by (rule well_sampled)
  show ?case
  proof (cases "ctx_err x (tick w)")
    case None
    obtain res1 d1 w1 where r1: "run_check x r i a tr spec d (step w) = (res1, d1, w1)" by (metis surj_pair)
    obtain res2 d2 w2 where r2: "run_checks x r i a tr specs d1 w1 = (res2, d2, w2)" by (metis surj_pair)
    have w1: "well w w1" using well_run_check [of "step w" x r i a tr spec d] r1 s sampled_in_trans by simp
    moreover have "well w w2" using Cons.IH [OF r2] w1 sampled_in_trans by blast
    ultimately show ?thesis using Cons.prems None r1 r2 by (auto split: sum.splits)
  qed (use Cons.prems s in auto)
qed (auto simp: well_sampled)

lemma well_run_present: "well w (snd (run_present x r i a st tr d w))"
proof -
  let ?row = "buildRunningRow r i a st tr"
  obtain e w1 where w1: "WriteExecutionRow x ?row w = (e, w1)" by fastforce
  obtain res d2 w2 where w2: "run_checks x r i a tr (tr_checks tr) d w1 = (res, d2, w2)" by (metis surj_pair)
  have 1: "well w w1" using sampled_in_calls(2) [of inventory w x ?row] w1 by simp
  have 2: "well w w2" using 1 well_run_checks [OF w2] sampled_in_trans by blast
  have "well w (snd (writeTerminalRow x r d' i a st tr s m w2))" for d' s m
    unfolding writeTerminalRow_eq by (rule sampled_in_trans [OF 2 well_finish])
  with 1 2 show ?thesis by (auto simp: run_present_def w1 w2 split: option.split sum.split)
qed

lemma well_Run [well_sampled]: "well w (snd (Run x r tr w))"
proof (cases "validateTrigger tr = None \<and> \<not> isl (trigger_id r tr)")
  case False
  then have "snd (Run x r tr w) = w" by (intro Run_invalid) auto
  then show ?thesis by (simp add: well_sampled)
next
  case True
  then obtain i where v: "validateTrigger tr = None" "trigger_id r tr = Inr i"
    by (cases "trigger_id r tr") auto
  have "well w (started tr w)" by (simp add: sampled_in_same)
  then show ?thesis
    unfolding Run_eq [OF v] Let_def
    by (auto intro!: sampled_in_trans [OF _ well_finish] sampled_in_trans [OF _ well_run_present] split: option.split)
qed

section \<open>The other operations\<close>

lemma record_sample_fits: "record_sample s \<Longrightarrow> fits inventory s"
  unfolding record_sample_def by (elim disjE exE) (simp_all only: fits_inventory)

lemma well_stream:
  assumes "wired_stream x p r"
  shows "stream_relation r well planned_source"
proof
  show "well w (snd (rr_commit r recs w))" for w recs
    using assms by (auto simp: wired_stream_def Commit_def well_sampled split: option.split)
  show "well w (snd (rr_run r (window_trigger r es a) w))" for w es a
    using assms by (simp add: wired_stream_def well_Run)
  show "well w (sample ss w)" if "list_all record_sample ss" for w ss
    using that record_sample_fits by (intro sampled_in_sample) (rule list.pred_mono_strong)
qed (rule sampled_in_refl, erule (1) sampled_in_trans, rule sampled_in_calls)

lemma well_refresh_tick: "refresh_tick c sv l (cur, w) = (m, w') \<Longrightarrow> well w w'"
proof -
  have "well u (refresh_failure l cls u)" for cls u by (simp add: refresh_failure_def well_sampled fits_inventory)
  then have 1: "well w (refresh_failure l cls (step (step w)))" "well w (refresh_failure l cls (step w))" "well w (step (step w))" for cls
    by (meson sampled_in_trans sampled_in_calls(1))+
  assume "refresh_tick c sv l (cur, w) = (m, w')"
  then show ?thesis
    using 1 by (cases rule: Refresh_cases [of c l w sv "mf_Hash cur"]; auto simp: refresh_tick_def well_sampled)
qed

lemma well_set_zeroes: "list_all (fits inventory) set_zeroes"
  by (simp add: set_zeroes_def fits_inventory)

lemma well_proxy_tick: "well w (proxy_tick x w)"
proof -
  have "snd (CountRunningExecutions x w) = step w" by (simp add: CountRunningExecutions_def)
  then show ?thesis
    using sampled_in_trans [OF sampled_in_calls(1) sampled_in_sample]
    by (auto simp: proxy_tick_def well_sampled well_set_zeroes fits_inventory split: prod.splits sum.splits)
qed

lemma well_trigger:
  assumes "HandleTrigger x h j httpMethod httpBody w = (out, sp, w')"
  shows "well w w'"
proof -
  have "samples w'' = samples w" if "accept x h req m ws we i (step w) = (o', sp', w'')" for req m ws we i o' sp' w''
    using that by (auto simp: accept_def now_def Let_def split: option.splits sum.splits if_splits)
  with assms have "samples w' = samples w"
    by (auto simp: HandleTrigger_def split: if_splits sum.splits option.splits)
  then show ?thesis by (rule sampled_in_same)
qed

lemma well_dispatch: "well w (dispatch x (engine_handler x su p cur) sp w)"
  using well_Run [of w x "pa_runner p" "sp_request sp"] by (auto simp: dispatch_def engine_handler_def split: prod.splits)

lemma well_orphan_tick:
  assumes "de_scanner d = bigquery_scanner x"
  shows "well w (orphan_tick x d w)"
proof -
  have fin: "samples (snd (finalize_all x d rows f es w)) = samples w" for rows f es w
    using assms
    by (induction rows arbitrary: f es w)
      (auto simp: bigquery_scanner_def buildFollowupRow_def now_def emitAbortedAlert_def Publish_def WriteExecutionRow_eq Let_def
        split: option.splits prod.splits)
  have "samples (snd (RunOnce x d w)) = samples w"
    using assms fin by (auto simp: RunOnce_def now_def Let_def bigquery_scanner_def ListRunningOlderThan_def split: sum.splits prod.splits)
  then show ?thesis by (simp add: orphan_tick_def sampled_in_same)
qed

lemma well_step:
  assumes "engine_step x su p s s'" "engine_ok x su p w0 s" "de_scanner (pa_detector p) = bigquery_scanner x"
  shows "well (eg_world s) (eg_world s')"
  using assms(1)
proof (cases rule: engine_step.cases)
  case (recorded i r st f st')
  show ?thesis
    using stream_relation.handleFetched_rel [OF well_stream [OF engine_ok_stream(1) [OF assms(2) recorded(2,3)]]
        engine_ok_stream(2) [OF assms(2) recorded(2,3)], of "eg_world s" x f] recorded(1,4) by simp
qed (simp_all add: well_refresh_tick well_orphan_tick [OF assms(3)] well_proxy_tick well_trigger well_dispatch well_set_zeroes well_sampled)

section \<open>The running engine\<close>

text \<open>
  C32. Metric typing. The process's registry is built without a panic, and every sample any reachable state of
  the running engine has recorded since boot, by attempts, record runners, refreshes and the proxy loop, names a
  collector of that registry, of the sample's kind and with as many labels as the sample has values.
\<close>

theorem engine_samples_registered:
  assumes "registers mustRegister held" "held reg = []"
    and "boot x su w = (Inr p, w0)" "engine_steps x su p (boot_state p w0) s"
  shows "\<exists>R ss. Metrics.New mustRegister reg = Some R \<and> samples (eg_world s) = samples w0 @ ss \<and> list_all (fits (held (rg_reg R))) ss"
proof -
  obtain R where R: "Metrics.New mustRegister reg = Some R" "held (rg_reg R) = inventory" using New_inventory [OF assms(1,2)] .
  obtain cfg where wi: "wire x su cfg w = (Inr p, w0)"
    using assms(3) by (auto simp: boot_def split: sum.splits option.splits prod.splits)
  have "engine_ok x su p w0 (boot_state p w0)" by (rule engine_ok_boot [OF wi])
  with assms(4) have "engine_ok x su p w0 s \<and> well w0 (eg_world s)"
  proof (induction rule: rtranclp_induct)
    case base
    then show ?case by (simp add: boot_state_def well_sampled)
  next
    case (step s s')
    then show ?case
      using engine_step_ok [OF step(2)] well_step [OF step(2)] wire_parts(1) [OF wi] sampled_in_trans by blast
  qed
  then show ?thesis using R by (auto simp: sampled_in_def)
qed

text \<open>A registry as the list of its collectors.\<close>

definition list_register :: "collector list must_register" where
  "list_register cs reg = (if distinct (map co_Name (reg @ cs)) then Some (reg @ cs) else None)"

theorem engine_samples_registered_witness:
  "\<exists>p w0. boot quiet tiny_surroundings empty_world = (Inr p, w0) \<and>
     (\<exists>R ss. Metrics.New list_register [] = Some R \<and>
        samples (proxy_tick quiet w0) = samples w0 @ ss \<and> list_all (fits (rg_reg R)) ss)"
proof -
  obtain p w0 where w: "wire quiet tiny_surroundings local_config empty_world = (Inr p, w0)" using tiny_parts by blast
  then have b: "boot quiet tiny_surroundings empty_world = (Inr p, w0)" by (simp add: boot_def tiny_env)
  have "engine_steps quiet tiny_surroundings p (boot_state p w0) ((boot_state p w0)\<lparr>eg_world := proxy_tick quiet w0\<rparr>)"
    using engine_step.proxy [of quiet tiny_surroundings p "boot_state p w0"] by (simp add: boot_state_def r_into_rtranclp)
  moreover have "registers list_register (\<lambda>reg. reg)" by (auto simp: registers_def list_register_def)
  ultimately show ?thesis using engine_samples_registered [of list_register "\<lambda>reg. reg" "[]", OF _ _ b] b by fastforce
qed

end
