(* ===== verification/Engine_Shutdown.thy ===== *)
theory Engine_Shutdown
  imports Engine
begin

text \<open>
  The end of \<^verbatim>\<open>main\<close> (\<^verbatim>\<open>engine/cmd/dq-engine/main.go\<close>), from the signal on: the HTTP drain under its deadline, the bounded
  wait for the goroutines of the wait group, and then the deferred closes, in reverse order of their
  registration. Times are durations since the signal; an operation that never ends has the duration \<open>None\<close>.
\<close>

section \<open>Waiting\<close>

definition shutdownTimeout :: duration where "shutdownTimeout = 5 * second"
definition waitTimeout :: duration where "waitTimeout = 10 * second"

text \<open>
  \<open>sh_drain\<close> is how long the in-flight requests need, \<open>sh_done\<close> when each goroutine of the wait group calls
  \<^verbatim>\<open>Done\<close>, \<open>sh_flush\<close> the duration of \<^verbatim>\<open>Stop\<close> of the Pub/Sub publisher, and the last three those of the clients' \<^verbatim>\<open>Close\<close>.
\<close>

record shutdown =
  sh_drain :: "duration option"
  sh_done :: "duration option list"
  sh_flush :: "duration option"
  sh_pubsub_close :: "duration option"
  sh_bq_close :: "duration option"
  sh_gcs_close :: "duration option"

text \<open>\<^verbatim>\<open>httpServer.Shutdown\<close>: returns when the requests have drained or its context is done, with an error then.\<close>

definition Shutdown :: "shutdown \<Rightarrow> duration \<times> goerr option" where
  "Shutdown sh =
    (case sh_drain sh of
       None \<Rightarrow> (shutdownTimeout, Some context_DeadlineExceeded)
     | Some d \<Rightarrow> if d < shutdownTimeout then (d, None) else (shutdownTimeout, Some context_DeadlineExceeded))"

text \<open>\<^verbatim>\<open>wg.Wait\<close> from time \<open>t\<close> on: the last \<^verbatim>\<open>Done\<close>.\<close>

fun wg_Wait :: "duration \<Rightarrow> duration option list \<Rightarrow> duration option" where
  "wg_Wait t [] = Some t"
| "wg_Wait t (None # ds) = None"
| "wg_Wait t (Some d # ds) = wg_Wait (max t d) ds"

text \<open>The \<^verbatim>\<open>select\<close>: when it returns and whether by \<^verbatim>\<open>shutdownDone\<close>. Of two ready channels either may be chosen.\<close>

definition await :: "bool \<Rightarrow> shutdown \<Rightarrow> duration \<times> bool" where
  "await tie sh =
    (let t = fst (Shutdown sh)
     in case wg_Wait t (sh_done sh) of
          None \<Rightarrow> (t + waitTimeout, False)
        | Some d \<Rightarrow> if d < t + waitTimeout then (d, True) else (t + waitTimeout, d = t + waitTimeout \<and> tie))"

section \<open>Deferred calls\<close>

definition after :: "duration option \<Rightarrow> duration option \<Rightarrow> duration option" where
  "after t d = Option.bind t (\<lambda>t. map_option ((+) t) d)"

text \<open>\<^verbatim>\<open>closePublisher\<close>, \<^verbatim>\<open>bqClient.Close\<close>, \<^verbatim>\<open>gcsClient.Close\<close>; the time at which the process is gone.\<close>

definition process_exit :: "alertsPublisher \<Rightarrow> bool \<Rightarrow> shutdown \<Rightarrow> duration option" where
  "process_exit a tie sh =
    (let t = Some (fst (await tie sh));
         t = (case a of Noop \<Rightarrow> t | PubSub p \<Rightarrow> after (if pp_closed p then t else after t (sh_flush sh)) (sh_pubsub_close sh))
     in after (after t (sh_bq_close sh)) (sh_gcs_close sh))"

section \<open>Bounds\<close>

lemma wg_Wait_Some:
  "wg_Wait t ds = Some e \<longleftrightarrow> (\<forall>d \<in> set ds. d \<noteq> None) \<and> e = fold max (map the ds) t"
  by (induction t ds rule: wg_Wait.induct) (auto simp: max.commute)

lemma fold_max_less: "fold max ds t < b \<longleftrightarrow> t < b \<and> (\<forall>d \<in> set ds. d < (b :: int))"
  by (induction ds arbitrary: t) auto

lemma Shutdown_bound: "fst (Shutdown sh) \<le> shutdownTimeout"
  by (auto simp: Shutdown_def split: option.split)

lemma await_bound: "fst (await tie sh) \<le> shutdownTimeout + waitTimeout"
  using Shutdown_bound [of sh] by (auto simp: await_def Let_def split: option.split)

text \<open>The wait ends cleanly when every goroutine is done in time.\<close>

lemma await_clean:
  "snd (await False sh) \<longleftrightarrow> (\<forall>d \<in> set (sh_done sh). \<exists>e. d = Some e \<and> e < fst (Shutdown sh) + waitTimeout)"
proof (cases "None \<in> set (sh_done sh)")
  case True
  then have "wg_Wait (fst (Shutdown sh)) (sh_done sh) = None"
    using wg_Wait_Some [of "fst (Shutdown sh)" "sh_done sh"] by (cases "wg_Wait (fst (Shutdown sh)) (sh_done sh)") auto
  then show ?thesis using True by (auto simp: await_def Let_def)
next
  case False
  let ?t = "fst (Shutdown sh)"
  have "wg_Wait ?t (sh_done sh) = Some (fold max (map the (sh_done sh)) ?t)"
    unfolding wg_Wait_Some using False by metis
  then have "snd (await False sh) \<longleftrightarrow> fold max (map the (sh_done sh)) ?t < ?t + waitTimeout"
    by (simp add: await_def Let_def)
  also have "\<dots> \<longleftrightarrow> (\<forall>d \<in> set (sh_done sh). the d < ?t + waitTimeout)"
    by (simp add: fold_max_less waitTimeout_def second_def)
  also have "\<dots> \<longleftrightarrow> (\<forall>d \<in> set (sh_done sh). \<exists>e. d = Some e \<and> e < ?t + waitTimeout)"
    using False by (metis option.collapse option.sel)
  finally show ?thesis .
qed

lemma after_Some: "after t d = Some e \<longleftrightarrow> (\<exists>t' d'. t = Some t' \<and> d = Some d' \<and> e = t' + d')"
  by (cases t; cases d) (auto simp: after_def)

text \<open>
  C33. Shutdown of a process that has booted. From the signal, \<^verbatim>\<open>main\<close> reaches its end within fifteen seconds, whatever
  the requests and goroutines do, and reports a clean shutdown exactly when every goroutine ends within ten
  seconds after the drain. The process itself ends only after the deferred closes, outside of that wait: it
  exits exactly when the publisher's flush and all three clients' closes return, later by their durations.
\<close>

theorem shutdown_time:
  assumes "boot x su w = (Inr p, w0)"
  shows "fst (await tie sh) \<le> 15 * second \<and>
    (snd (await False sh) \<longleftrightarrow> list_all (\<lambda>d. \<exists>e. d = Some e \<and> e < fst (Shutdown sh) + 10 * second) (sh_done sh)) \<and>
    (process_exit (pa_publisher p) tie sh = Some e \<longleftrightarrow>
      (\<exists>f a b c. sh_flush sh = Some f \<and> sh_pubsub_close sh = Some a \<and> sh_bq_close sh = Some b \<and> sh_gcs_close sh = Some c \<and>
         e = fst (await tie sh) + f + a + b + c))"
proof (intro conjI)
  show "fst (await tie sh) \<le> 15 * second"
    using await_bound [of tie sh] by (simp add: shutdownTimeout_def waitTimeout_def second_def)
  show "snd (await False sh) \<longleftrightarrow> list_all (\<lambda>d. \<exists>e. d = Some e \<and> e < fst (Shutdown sh) + 10 * second) (sh_done sh)"
    unfolding await_clean waitTimeout_def list_all_iff ..
  obtain pub where "pa_publisher p = PubSub pub" "\<not> pp_closed pub" using boot_publishes [OF assms] by blast
  then show "process_exit (pa_publisher p) tie sh = Some e \<longleftrightarrow>
      (\<exists>f a b c. sh_flush sh = Some f \<and> sh_pubsub_close sh = Some a \<and> sh_bq_close sh = Some b \<and> sh_gcs_close sh = Some c \<and>
         e = fst (await tie sh) + f + a + b + c)"
    by (auto simp: process_exit_def after_Some Let_def)
qed

text \<open>
  Everything is done at once, but the flush takes an hour: the process outlives the fifteen seconds.
\<close>

definition slow_flush :: shutdown where
  "slow_flush = \<lparr>sh_drain = Some 0, sh_done = replicate 4 (Some 0), sh_flush = Some hour, sh_pubsub_close = Some 0,
     sh_bq_close = Some 0, sh_gcs_close = Some 0\<rparr>"

theorem shutdown_time_witness:
  "\<exists>p w0. boot quiet tiny_surroundings empty_world = (Inr p, w0) \<and> snd (await False slow_flush) \<and>
     process_exit (pa_publisher p) False slow_flush = Some hour"
proof -
  obtain p w0 where w: "wire quiet tiny_surroundings local_config empty_world = (Inr p, w0)" using tiny_parts by blast
  then have b: "boot quiet tiny_surroundings empty_world = (Inr p, w0)" by (simp add: boot_def tiny_env)
  have "fst (await False slow_flush) = 0"
    by (simp add: await_def Shutdown_def slow_flush_def shutdownTimeout_def waitTimeout_def second_def numeral_eq_Suc)
  then show ?thesis
    using shutdown_time [OF b, of False slow_flush hour] b by (auto simp: slow_flush_def Shutdown_def shutdownTimeout_def second_def list_all_iff)
qed

end
