(* ===== verification/Execution_Table.thy ===== *)
theory Execution_Table
  imports Engine
begin

text \<open>
  The execution table under the whole engine: the rows the runner and the detector write, one write at a time, and
  that every step of the running engine is a sequence of such writes.
\<close>

section \<open>Writes\<close>

text \<open>
  The runner's running and terminal rows, of a trigger of the engine that it accepted, under an attempt id that
  \<^verbatim>\<open>uuid.NewString\<close> returned, and the detector's follow-up row of a row of the table that the scan may return.
  Attempts and scans run concurrently, so a reachable table is any interleaving of such writes.
\<close>

inductive row_step :: "ext \<Rightarrow> executionRecord list \<Rightarrow> executionRecord list \<Rightarrow> bool" for x where
  running: "validateTrigger tr = None \<Longrightarrow> trigger_id r tr = Inr i \<Longrightarrow> planned x tr \<Longrightarrow> a \<in> range (new_uuid x) \<Longrightarrow>
    row_step x xs (xs @ [toExecutionRecord (buildRunningRow r i a st (effective r tr))])"
| terminal: "validateTrigger tr = None \<Longrightarrow> trigger_id r tr = Inr i \<Longrightarrow> planned x tr \<Longrightarrow> a \<in> range (new_uuid x) \<Longrightarrow>
    s \<in> {StatusSuccess, StatusFailed, StatusError} \<Longrightarrow> (m = None \<longleftrightarrow> s = StatusSuccess) \<Longrightarrow>
    row_step x xs (xs @ [toExecutionRecord (terminal_row r i a st (effective r tr) s m t)])"
| aborted: "y \<in> set xs \<Longrightarrow> xr_status y = StatusRunning \<Longrightarrow> nt_valid (xr_started_at y) \<Longrightarrow>
    row_step x xs (xs @ [toExecutionRecord (followup_row d (fromExecutionRecord (stored_record q y)) t)])"

inductive_cases row_stepE: "row_step x xs ys"

abbreviation row_steps :: "ext \<Rightarrow> executionRecord list \<Rightarrow> executionRecord list \<Rightarrow> bool" where
  "row_steps x \<equiv> (row_step x)\<^sup>*\<^sup>*"

abbreviation writes_rows :: "ext \<Rightarrow> world \<Rightarrow> world \<Rightarrow> bool" where
  "writes_rows x w w' \<equiv> row_steps x (executions w) (executions w')"

lemma row_step_mono: "row_step x xs ys \<Longrightarrow> set xs \<subseteq> set ys"
  by (erule row_stepE) auto

lemma row_steps_mono: "row_steps x xs ys \<Longrightarrow> set xs \<subseteq> set ys"
  by (induction rule: rtranclp_induct) (use row_step_mono in blast)+

lemma row_steps_replicate:
  assumes "\<And>ys. set xs \<subseteq> set ys \<Longrightarrow> row_step x ys (ys @ [y])"
  shows "row_steps x xs (xs @ replicate n y)"
proof (induction n)
  case (Suc n)
  then show ?case using assms [of "xs @ replicate n y"]
    by (simp add: replicate_append_same flip: replicate_Suc)
qed simp

section \<open>The runner\<close>

lemma finish_row_steps:
  assumes "finish fmt x r d i a st (effective r tr) s m u = (res, u')" "s \<in> {StatusSuccess, StatusFailed, StatusError}"
    and "m = None \<longleftrightarrow> s = StatusSuccess" "validateTrigger tr = None" "trigger_id r tr = Inr i" "planned x tr" "a \<in> range (new_uuid x)"
  shows "writes_rows x u u'"
  using assms(1) by (cases rule: finish_cases) (use row_steps_replicate row_step.terminal [OF assms(4-7,2,3)] in metis)+

lemma Run_row_steps:
  assumes "planned x tr" "rn_attempt_id r = new_uuid x"
  shows "writes_rows x w (snd (Run x r tr w))"
proof (cases "validateTrigger tr = None \<and> \<not> isl (trigger_id r tr)")
  case False
  then have "snd (Run x r tr w) = w" by (intro Run_invalid) auto
  then show ?thesis by simp
next
  case True
  then obtain i where v: "validateTrigger tr = None" "trigger_id r tr = Inr i"
    by (cases "trigger_id r tr") auto
  obtain res w' where run: "Run x r tr w = (res, w')" by fastforce
  let ?a = "attempt_of r tr w" and ?st = "UTC (clock x (tick w + mint_ticks tr))" and ?tr = "effective r tr"
  have a: "?a \<in> range (new_uuid x)" using assms by (auto simp: attempt_of_def planned_def split: option.split)
  have rows: "row_steps x xs (xs @ replicate n (toExecutionRecord (buildRunningRow r i ?a ?st ?tr)))" for xs n
    by (rule row_steps_replicate) (rule row_step.running [OF v assms(1) a])
  consider m where "finish ''write pre-check error row: %w'' x r NewAttemptDeduper i ?a ?st ?tr StatusError (Some m) (started tr w) = (res, w')"
    | "run_present x r i ?a ?st ?tr NewAttemptDeduper (started tr w) = (res, w')"
    using run Run_eq [OF v] by (auto simp: Let_def split: option.splits if_splits)
  then show ?thesis
  proof cases
    case 1
    then show ?thesis using finish_row_steps [OF 1 _ _ v assms(1) a] run by (simp add: status_distinct)
  next
    case 2
    then show ?thesis
    proof (cases rule: run_present_cases)
      case (ran l w1)
      have "writes_rows x w w1" using rows ran(4) by simp
      also have "writes_rows x w1 w'"
        using finish_row_steps [OF ran(9) verdict_status verdict_summary v assms(1) a] .
      finally show ?thesis using run by simp
    qed (use rows run in simp_all)
  qed
qed

section \<open>The detector\<close>

definition candidate :: "executionRecord list \<Rightarrow> ExecutionRow \<Rightarrow> bool" where
  "candidate xs c \<longleftrightarrow> (\<exists>y \<in> set xs. \<exists>q. c = fromExecutionRecord (stored_record q y) \<and> xr_status y = StatusRunning \<and> nt_valid (xr_started_at y))"

lemma listed_candidates:
  assumes "scan_permutes x" "ListRunningOlderThan x b w = (Inr rows, w')" "c \<in> set rows"
  shows "candidate (executions w) c"
proof -
  have "c \<in> fromExecutionRecord ` set (runningOlderThanSQL (timestamp x b) (scanned x w))"
    using assms(2,3) by (auto simp: ListRunningOlderThan_def iterate_def split: option.splits if_splits)
      (meson imageI in_set_takeD)
  then obtain z where z: "z \<in> set (scanned x w)" "c = fromExecutionRecord z" "xr_status z = StatusRunning" "nt_valid (xr_started_at z)"
    using canonical_subset by (auto simp: runningOlderThanSQL_def StatusRunning_def)
  then obtain y where "y \<in> set (executions w)" "z = stored_record (timestamp x) y"
    using set_scanned [OF assms(1)] by (auto simp: visible_def)
  then show ?thesis using z by (auto simp: candidate_def)
qed

lemma finalize_all_row_steps:
  assumes "de_scanner d = bigquery_scanner x" "\<forall>c \<in> set rows. candidate (executions w) c"
  shows "writes_rows x w (snd (finalize_all x d rows f es w))"
  using assms(2)
proof (induction rows arbitrary: f es w)
  case (Cons c rows)
  show ?case
  proof (cases "ctx_err x (tick w)")
    case None
    define row where "row = followup_row d c (UTC (clock x (Suc (tick w))))"
    obtain e w1 where w1: "WriteExecutionRow x row (step (step w)) = (e, w1)" by fastforce
    have tbl: "executions w1 = executions w @ replicate (inserted x (Suc (Suc (tick w)))) (toExecutionRecord row)"
      using w1 by (simp add: WriteExecutionRow_eq) auto
    obtain y q where y: "y \<in> set (executions w)" "c = fromExecutionRecord (stored_record q y)" "xr_status y = StatusRunning" "nt_valid (xr_started_at y)"
      using Cons.prems by (auto simp: candidate_def)
    have wr: "writes_rows x w w1"
      unfolding tbl row_def y(2) by (rule row_steps_replicate) (use y row_step.aborted in blast)
    then have cands: "\<forall>c \<in> set rows. candidate (executions w1) c"
      using Cons.prems row_steps_mono [OF wr] by (fastforce simp: candidate_def)
    have "writes_rows x w (snd (finalize_all x d rows f' es' w1))" for f' es'
      using wr Cons.IH [OF cands] by (rule rtranclp_trans)
    moreover have "writes_rows x w (snd (finalize_all x d rows f' es' (snd (Publish x ev w1))))" for f' es' ev
      using wr Cons.IH [of "snd (Publish x ev w1)"] cands by (auto simp: Publish_def intro: rtranclp_trans)
    ultimately show ?thesis
      using None w1 assms(1)
      by (auto simp: bigquery_scanner_def buildFollowupRow_def now_def emitAbortedAlert_def row_def split: option.split)
  qed simp
qed simp

lemma orphan_tick_row_steps:
  assumes "de_scanner d = bigquery_scanner x" "scan_permutes x"
  shows "writes_rows x w (orphan_tick x d w)"
proof -
  define b where "b = UTC (clock x (tick w)) + (- de_threshold d)"
  obtain res w1 where l: "ListRunningOlderThan x b (step w) = (res, w1)" by fastforce
  then have w1: "executions w1 = executions w" by (auto simp: ListRunningOlderThan_def)
  have "writes_rows x w (snd (finalize_all x d rows 0 [] w1))" if "res = Inr rows" for rows
    using finalize_all_row_steps [OF assms(1), of rows w1 0 "[]"] listed_candidates [OF assms(2), of b "step w" rows w1] l that w1 by simp
  then show ?thesis
    using assms(1) l w1 by (auto simp: orphan_tick_def RunOnce_def now_def bigquery_scanner_def b_def Let_def split: sum.split)
qed

section \<open>The engine\<close>

lemma rows_stream:
  assumes "wired_stream x p r" "rn_attempt_id (pa_runner p) = new_uuid x"
  shows "stream_relation r (writes_rows x) planned_source"
proof
  show "writes_rows x w (snd (rr_commit r recs w))" for w recs
    using assms by (auto simp: wired_stream_def Commit_def split: option.split)
  show "writes_rows x w (snd (rr_run r (window_trigger r es a) w))" if "planned_source (es_source es)" for w es a
    using assms Run_row_steps [OF window_planned [OF that]] by (simp add: wired_stream_def)
qed (auto intro: rtranclp_trans)

lemma quiet_steps:
  "refresh_tick c sv l (cur, w) = (m, w') \<Longrightarrow> executions w' = executions w"
  "HandleTrigger x h j httpMethod httpBody w = (out, sp, w') \<Longrightarrow> executions w' = executions w"
  "executions (proxy_tick x w) = executions w"
proof -
  show "executions w' = executions w" if "refresh_tick c sv l (cur, w) = (m, w')"
    using that by (cases rule: Refresh_cases [of c l w sv "mf_Hash cur"]; auto simp: refresh_tick_def refresh_failure_def)
  have "executions w'' = executions w" if "accept x h req m ws we i (step w) = (o', sp', w'')" for req m ws we i o' sp' w''
    using that by (auto simp: accept_def now_def Let_def split: option.splits sum.splits if_splits)
  then show "executions w' = executions w" if "HandleTrigger x h j httpMethod httpBody w = (out, sp, w')"
    using that by (auto simp: HandleTrigger_def split: if_splits sum.splits option.splits)
  have "snd (CountRunningExecutions x w) = step w" by (simp add: CountRunningExecutions_def)
  then show "executions (proxy_tick x w) = executions w"
    by (auto simp: proxy_tick_def split: prod.splits sum.splits)
qed

lemma dispatch_row_steps:
  assumes "planned x (sp_request sp)" "rn_attempt_id (pa_runner p) = new_uuid x"
  shows "writes_rows x w (dispatch x (engine_handler x su p cur) sp w)"
  using Run_row_steps [OF assms, of w] by (auto simp: dispatch_def engine_handler_def split: prod.splits)

lemma engine_row_steps:
  assumes "engine_step x su p s s'" "engine_ok x su p w0 s" "de_scanner (pa_detector p) = bigquery_scanner x" "scan_permutes x"
    and "rn_attempt_id (pa_runner p) = new_uuid x"
  shows "writes_rows x (eg_world s) (eg_world s')"
  using assms(1)
proof (cases rule: engine_step.cases)
  case (recorded i r st f st')
  show ?thesis
    using stream_relation.handleFetched_rel [OF rows_stream [OF engine_ok_stream(1) [OF assms(2) recorded(2,3)] assms(5)]
        engine_ok_stream(2) [OF assms(2) recorded(2,3)], of "eg_world s" x f] recorded(1,4) by simp
next
  case (dispatched sp cur)
  then show ?thesis using dispatch_row_steps [OF _ assms(5)] assms(2) by (simp add: engine_ok_def list_all_iff)
qed (simp_all add: quiet_steps orphan_tick_row_steps [OF assms(3,4)])

text \<open>Boot writes no row.\<close>

lemma build_runners_quiet: "build_runners mk rd mrs out w = (res, w') \<Longrightarrow> executions w' = executions w"
  by (induction mk rd mrs out w rule: build_runners.induct) (auto split: sum.splits option.splits)

lemma EnsureSchema_quiet: "EnsureSchema x ds w = (e, w') \<Longrightarrow> executions w' = executions w"
  by (auto simp: EnsureSchema_def ensureTable_def ensureView_def Let_def split: option.splits prod.splits if_splits)

lemma Load_quiet: "Load c sv l w = (res, w') \<Longrightarrow> executions w' = executions w"
  by (auto simp: Load_def readPointer_def fetchAndVerify_def Let_def split: sum.splits prod.splits if_splits)

lemma boot_quiet:
  assumes "boot x su w = (Inr p, w0)"
  shows "executions w0 = executions w"
  using assms
  by (auto simp: boot_def wire_def buildRecordRunners_def Let_def split: option.splits sum.splits prod.splits
      dest!: EnsureSchema_quiet Load_quiet build_runners_quiet)

lemma engine_table:
  assumes "boot x su w = (Inr p, w0)" "scan_permutes x" "engine_steps x su p (boot_state p w0) s"
  shows "writes_rows x w (eg_world s)"
proof -
  obtain cfg where wi: "wire x su cfg w = (Inr p, w0)"
    using assms(1) by (auto simp: boot_def split: sum.splits option.splits prod.splits)
  from assms(3) have "engine_ok x su p w0 s \<and> writes_rows x w0 (eg_world s)"
  proof (induction rule: rtranclp_induct)
    case base
    then show ?case using engine_ok_boot [OF wi] by (simp add: boot_state_def)
  next
    case (step s s')
    then show ?case
      using engine_step_ok [OF step(2)] engine_row_steps [OF step(2)] wire_parts(1,6) [OF wi] assms(2) by (meson rtranclp_trans)
  qed
  then show ?thesis using boot_quiet [OF assms(1)] by simp
qed

section \<open>Column contracts\<close>

text \<open>
  What the column descriptions of \<^verbatim>\<open>executionsSchema\<close> and the comments of \<^verbatim>\<open>ExecutionRow\<close> say of a row, and how its columns hang
  together: the identifier is the digest of the row's own ruleset version, entity, window and source, all free of
  the separator; the attempt id was returned by \<^verbatim>\<open>uuid.NewString\<close>; the status is running or one of three terminal ones;
  the mode is one of the two; the source is one that a trigger of the engine has; \<^verbatim>\<open>started_at\<close> and \<^verbatim>\<open>completed_at\<close> are null on
  running rows and set on terminal ones, where the row was recorded at its completion; there is a summary exactly
  on \<^verbatim>\<open>failed\<close> and \<^verbatim>\<open>error\<close>; no execution is superseded.
\<close>

definition row_ok :: "ext \<Rightarrow> executionRecord \<Rightarrow> bool" where
  "row_ok x y \<longleftrightarrow>
    xr_execution_id y = sha256_hex (identity_string (xr_ruleset_version y) (xr_entity y) (xr_window_start y) (xr_window_end y) (xr_trigger_source y)) \<and>
    xr_attempt_id y \<in> range (new_uuid x) \<and> xr_status y \<in> {StatusRunning, StatusSuccess, StatusFailed, StatusError} \<and>
    xr_mode y \<in> {ModeSet, ModeRecord} \<and> xr_entity y \<noteq> [] \<and> CHR ''|'' \<notin> set (xr_entity y) \<and> CHR ''|'' \<notin> set (xr_ruleset_version y) \<and>
    xr_trigger_source y \<in> {TriggerScheduler, TriggerManual} \<and> xr_window_start y < xr_window_end y \<and>
    (if xr_status y = StatusRunning then \<not> nt_valid (xr_started_at y) \<and> \<not> nt_valid (xr_completed_at y)
     else nt_valid (xr_started_at y) \<and> nt_valid (xr_completed_at y) \<and> nt_timestamp (xr_completed_at y) = xr_recorded_at y) \<and>
    (ns_valid (xr_error_summary y) \<longleftrightarrow> xr_status y \<in> {StatusFailed, StatusError}) \<and> \<not> ns_valid (xr_supersedes y)"

lemma first_mode_known: "known_modes cs \<Longrightarrow> first_mode cs \<in> {ModeSet, ModeRecord}"
  by (induction cs) (auto simp: known_modes_def)

lemma trigger_columns:
  assumes "validateTrigger tr = None" "trigger_id r tr = Inr i"
  shows "i = sha256_hex (identity_string (tr_ruleset_version (effective r tr)) (tr_entity tr) (tr_window_start tr) (tr_window_end tr) (tr_source tr))"
    "tr_entity tr \<noteq> []" "CHR ''|'' \<notin> set (tr_entity tr)" "CHR ''|'' \<notin> set (tr_ruleset_version (effective r tr))"
    "tr_window_start tr < tr_window_end tr"
  using assms by (auto simp: validateTrigger_def trigger_id_def Compute_Inr_iff Let_def split: if_splits)

lemma row_step_ok:
  assumes "row_step x xs ys" "list_all (row_ok x) xs"
  shows "list_all (row_ok x) ys"
  using assms(1)
proof (cases rule: row_step.cases)
  case (running tr r i a st)
  note t = trigger_columns [OF running(2,3)]
  have m: "first_mode (tr_checks tr) \<in> {ModeSet, ModeRecord}" "tr_supersedes tr = None" "tr_source tr \<in> {TriggerScheduler, TriggerManual}"
    using running(4) first_mode_known by (auto simp: planned_def)
  have "row_ok x (toExecutionRecord (buildRunningRow r i a st (effective r tr)))"
    using t m running(5) status_distinct
    by (simp add: row_ok_def buildRunningRow_def triggerMode_def toExecutionRecord_def null_timestamp_def null_string_def)
  then show ?thesis using assms(2) running(1) by simp
next
  case (terminal tr r i a s m st t)
  note c = trigger_columns [OF terminal(2,3)]
  have m: "first_mode (tr_checks tr) \<in> {ModeSet, ModeRecord}" "tr_supersedes tr = None" "tr_source tr \<in> {TriggerScheduler, TriggerManual}"
    using terminal(4) first_mode_known by (auto simp: planned_def)
  have "row_ok x (toExecutionRecord (terminal_row r i a st (effective r tr) s m t))"
    using c m terminal(5-7) status_distinct
    by (auto simp: row_ok_def terminal_row_def triggerMode_def toExecutionRecord_def null_timestamp_def null_string_def split: option.splits)
  then show ?thesis using assms(2) terminal(1) by simp
next
  case (aborted y d q t)
  then show ?thesis using assms(2) by (auto simp: list_all_iff row_ok_def)
qed

lemma row_steps_ok: "row_steps x xs ys \<Longrightarrow> list_all (row_ok x) xs \<Longrightarrow> list_all (row_ok x) ys"
  by (induction rule: rtranclp_induct) (auto intro: row_step_ok)

end
