(* ===== verification/Table_Schemas.thy ===== *)
theory Table_Schemas
  imports Store
begin

text \<open>
  The table schemas of \<^verbatim>\<open>engine/internal/results/schema.go\<close> and the columns of the structs that \<^verbatim>\<open>inserter.Put\<close> saves
  (\<^verbatim>\<open>executionRecord\<close> and \<^verbatim>\<open>checkResultRecord\<close> of \<^verbatim>\<open>bigquery_store.go\<close>, by their \<^verbatim>\<open>bigquery\<close> tags): every row of either
  table fits its schema, column by column. Column descriptions are not represented.
\<close>

datatype field_type = StringFieldType | TimestampFieldType | JSONFieldType

record FieldSchema =
  fd_Name :: string
  fd_Type :: field_type
  fd_Required :: bool

definition column :: "string \<Rightarrow> field_type \<Rightarrow> bool \<Rightarrow> FieldSchema" where
  "column name type required = \<lparr>fd_Name = name, fd_Type = type, fd_Required = required\<rparr>"

definition tableExecutions :: string where "tableExecutions = ''dq_executions''"
definition tableCheckResults :: string where "tableCheckResults = ''dq_check_results''"
definition viewExecutionsView :: string where "viewExecutionsView = ''dq_executions_current''"

definition executionsSchema :: "FieldSchema list" where
  "executionsSchema =
    [column ''execution_id'' StringFieldType True, column ''attempt_id'' StringFieldType True,
     column ''recorded_at'' TimestampFieldType True, column ''status'' StringFieldType True,
     column ''mode'' StringFieldType True, column ''engine_version'' StringFieldType True,
     column ''ruleset_version'' StringFieldType True, column ''entity'' StringFieldType True,
     column ''trigger_source'' StringFieldType True, column ''window_start'' TimestampFieldType True,
     column ''window_end'' TimestampFieldType True, column ''started_at'' TimestampFieldType False,
     column ''completed_at'' TimestampFieldType False, column ''error_summary'' StringFieldType False,
     column ''supersedes_execution_id'' StringFieldType False]"

definition checkResultsSchema :: "FieldSchema list" where
  "checkResultsSchema =
    [column ''execution_id'' StringFieldType True, column ''attempt_id'' StringFieldType True,
     column ''check_id'' StringFieldType True, column ''result'' StringFieldType True,
     column ''executed_at'' TimestampFieldType True, column ''engine_version'' StringFieldType True,
     column ''evidence_summary'' JSONFieldType False, column ''sample_violating_rows'' JSONFieldType False]"

section \<open>Saved rows\<close>

text \<open>What the client sends per column: \<open>Null\<close> for a null wrapper that is not valid. A JSON column takes the document its text encodes.\<close>

datatype cell = Text string | Instant time | Json any | Null

definition null_time_cell :: "NullTimestamp \<Rightarrow> cell" where
  "null_time_cell n = (if nt_valid n then Instant (nt_timestamp n) else Null)"

definition null_string_cell :: "NullString \<Rightarrow> cell" where
  "null_string_cell n = (if ns_valid n then Text (ns_string n) else Null)"

definition execution_cells :: "executionRecord \<Rightarrow> (string \<times> cell) list" where
  "execution_cells r =
    [(''execution_id'', Text (xr_execution_id r)), (''attempt_id'', Text (xr_attempt_id r)),
     (''recorded_at'', Instant (xr_recorded_at r)), (''status'', Text (xr_status r)), (''mode'', Text (xr_mode r)),
     (''engine_version'', Text (xr_engine_version r)), (''ruleset_version'', Text (xr_ruleset_version r)),
     (''entity'', Text (xr_entity r)), (''trigger_source'', Text (xr_trigger_source r)),
     (''window_start'', Instant (xr_window_start r)), (''window_end'', Instant (xr_window_end r)),
     (''started_at'', null_time_cell (xr_started_at r)), (''completed_at'', null_time_cell (xr_completed_at r)),
     (''error_summary'', null_string_cell (xr_error_summary r)),
     (''supersedes_execution_id'', null_string_cell (xr_supersedes r))]"

definition check_result_cells :: "checkResultRecord \<Rightarrow> (string \<times> cell) list" where
  "check_result_cells r =
    [(''execution_id'', Text (kr_execution_id r)), (''attempt_id'', Text (kr_attempt_id r)),
     (''check_id'', Text (kr_check_id r)), (''result'', Text (kr_result r)),
     (''executed_at'', Instant (kr_executed_at r)), (''engine_version'', Text (kr_engine_version r)),
     (''evidence_summary'', Json (kr_evidence_summary r)), (''sample_violating_rows'', Json (kr_sample_violating_rows r))]"

fun cell_fits :: "FieldSchema \<Rightarrow> string \<times> cell \<Rightarrow> bool" where
  "cell_fits f (name, v) \<longleftrightarrow> fd_Name f = name \<and>
    (case v of Null \<Rightarrow> \<not> fd_Required f
     | Text s \<Rightarrow> fd_Type f = StringFieldType
     | Json d \<Rightarrow> fd_Type f = JSONFieldType
     | Instant t \<Rightarrow> fd_Type f = TimestampFieldType)"

definition row_fits :: "FieldSchema list \<Rightarrow> (string \<times> cell) list \<Rightarrow> bool" where
  "row_fits schema cells \<longleftrightarrow> list_all2 cell_fits schema cells"

lemma execution_row_fits: "row_fits executionsSchema (execution_cells r)"
  by (simp add: row_fits_def executionsSchema_def execution_cells_def column_def null_time_cell_def null_string_cell_def)

lemma check_result_row_fits: "row_fits checkResultsSchema (check_result_cells r)"
  by (simp add: row_fits_def checkResultsSchema_def check_result_cells_def column_def)

end
