(* ===== verification/Spec2Isabelle.thy ===== *)
theory Spec2Isabelle
  imports Sha256_Vectors Manifest_Cli Lint_Publish Dryrun Migrate Engine_Metrics Engine_Shutdown Execution_Table Table_Schemas
begin

text \<open>
  Verification of \<^bold>\<open>dq-platform\<close>, a data-quality engine: rules written in YAML are linted, priced and published as an
  immutable manifest; the engine loads the manifest, runs a rule's checks when it is triggered (over HTTP, or by
  a window of a Kafka topic), persists one row per state of an execution, and raises alerts.

  \<^bold>\<open>How the parts interact.\<close> \<^verbatim>\<open>dq-lint\<close> and \<^verbatim>\<open>dq-dryrun\<close> read a rules workspace; \<^verbatim>\<open>dq-migrate\<close> rewrites a rule of
  schema version 1. \<^verbatim>\<open>dq-manifest\<close> collects the workspace, inlines external references and writes rule bodies, a
  manifest and finally the pointer \<^verbatim>\<open>manifests/latest.json\<close> to a bucket. The engine's loader follows the pointer,
  verifies the digest and keeps the manifest in an atomic holder that a refresh loop swaps. A trigger is decoded
  and validated by the API, its checks are resolved from the holder, and the runner executes them through the
  evaluator, writing rows to two append-only tables. The record runner does the same for closed windows. The
  orphan detector scans the execution table for abandoned runs.

  \<^bold>\<open>Conventions.\<close> A Go string is a byte list. A \<^verbatim>\<open>(value, error)\<close> pair is a \<open>result\<close> (\<open>goerr + 'a\<close>), a lone error a
  \<open>goerr option\<close>; errors are trees, so that \<^verbatim>\<open>errors.Is\<close> and the rendered text are functions. State is passed
  explicitly (\<open>Store.world\<close>, the bucket, the topic). Whatever leaves the process is an oracle indexed by the number
  of calls made so far (\<open>tick\<close>): a statement for every oracle covers every sequence of answers, errors, clock
  readings and losses. Integers wrap at 64 bits where the source can overflow (\<open>wrap64\<close>, \<open>time.Duration\<close>), and
  \<^verbatim>\<open>float64\<close> is binary64 with round-to-nearest-even over exact rationals.

  \<^bold>\<open>Theories\<close>, with the sources they translate.
  \<^item> Go's library, as far as the program uses it: \<open>Prelude\<close> (errors, \<^verbatim>\<open>fmt\<close>, \<^verbatim>\<open>strings\<close>, \<^verbatim>\<open>strconv\<close>), \<open>Go_Time\<close> (calendar,
    RFC 3339 printing and parsing with its round trip), \<open>Go_Duration\<close> (\<^verbatim>\<open>time.ParseDuration\<close>), \<open>Go_Value\<close> and \<open>Go_Float\<close>
    (dynamic values, binary64), \<open>Go_Files\<close> (\<^verbatim>\<open>path/filepath\<close>, a file tree, \<^verbatim>\<open>WalkDir\<close>), \<open>Sha256\<close> (FIPS 180-4 on 32-bit
    words; \<open>Sha256_Vectors\<close> evaluates the standard's example in the kernel).
  \<^item> \<open>Results\<close> and \<open>Store\<close>: \<^verbatim>\<open>engine/internal/results\<close>. Row and record types and their round trips, the queries as
    functions of a table (\<open>canonical\<close> is the view that picks the current row), every write and read of
    \<^verbatim>\<open>BigQueryStore\<close>. Inserts may duplicate or land although they report an error. Go times have nanoseconds; what a query
    sees of them is their value at the precision of a BigQuery TIMESTAMP (the field \<open>timestamp\<close> of the surroundings, any function;
    the concrete \<open>quiet\<close> truncates to microseconds). JSON columns take \<^verbatim>\<open>json.Marshal\<close>'s error path for values it rejects.
  \<^item> \<open>Alerts\<close> and \<open>Alert_Publishers\<close>: \<^verbatim>\<open>engine/internal/alerts\<close>. Categories, duplicate suppression, the JSON encoding of an
    event (printable, injective on UTF-8) and the publishers; the \<^verbatim>\<open>Publisher\<close> interface is the locale \<open>alert_publisher\<close>,
    interpreted on both implementations and on the runner's view of it.
  \<^item> \<open>Runner\<close>: \<^verbatim>\<open>engine/internal/runner/runner.go\<close>, \<^verbatim>\<open>status.go\<close>, \<^verbatim>\<open>execution_id.go\<close>. The exact trace of an attempt, its
    identity, what is read back of it at column precision, and its alerts, after the suppression of repeated ones.
  \<^item> \<open>Orphan\<close>: \<^verbatim>\<open>engine/internal/orphan\<close>, over the locale \<open>scanner\<close> of the interface it scans, which \<open>reliable_store\<close>
    (\<^verbatim>\<open>BigQueryStore\<close> without errors) provides.
  \<^item> \<open>Record_Runner\<close>: \<^verbatim>\<open>record_runner.go\<close>, \<^verbatim>\<open>kafka_consumer.go\<close>. The handler refines a tumbling-window reference; every
    record is accounted for; commits follow dispatches; the records of a window whose dispatch fails are dropped, the stream
    going on with later ones. What a commit means at the broker is the client's business. The locale \<open>stream_relation\<close> lifts any preorder that dispatcher
    and consumer respect to a whole record step, and \<open>stream_interfaces\<close> extends it to the contract the runner needs of the
    two; both are interpreted on the engine's.
  \<^item> \<open>Metrics\<close> and \<open>Engine_Metrics\<close>: \<^verbatim>\<open>engine/internal/metrics\<close>. The collectors that are registered, with their kinds and
    labels; every sample the running engine takes fits one of them.
  \<^item> \<open>Manifest_Store\<close>, \<open>Pathsafe\<close>, \<open>Publisher\<close>, \<open>Loader\<close>, \<open>Control_Plane\<close>, \<open>Manifest_Cli\<close>: \<^verbatim>\<open>tools/manifest\<close>, \<^verbatim>\<open>tools/pathsafe\<close>,
    \<^verbatim>\<open>engine/internal/loader\<close>. The locale \<open>gcs_bucket\<close> is the documented behaviour of the storage client, \<open>manifest_store\<close>
    the contract of the \<^verbatim>\<open>Store\<close> interface it gives, \<open>control_plane\<close> adds the interference of other processes
    (a rely condition), and \<open>gcs_process\<close> puts the three together. What is proved: the bucket's invariant, publication
    then load, exit codes, path containment, determinism of the manifest.
  \<^item> \<open>Dsl_Spec\<close> and \<open>Eval\<close>: \<^verbatim>\<open>engine/internal/dsl/spec\<close>, \<^verbatim>\<open>engine/internal/eval\<close>. What a parsed rule satisfies, the cost
    ceilings, the verdict of each check kind as arithmetic, and the shape of the queries.
  \<^item> \<open>Trigger_Api\<close>: \<^verbatim>\<open>engine/internal/api\<close>. What is accepted, with which identifiers, and when the handler panics.
  \<^item> \<open>Engine_Config\<close> and \<open>Engine\<close>: \<^verbatim>\<open>engine/internal/env\<close>, \<^verbatim>\<open>logging\<close>, \<^verbatim>\<open>dsl/catalog\<close>, \<^verbatim>\<open>engine/cmd/dq-engine/main.go\<close>.
    Configuration gates, the wiring in order, the periodic loops, and the running engine as the step relation
    \<open>engine_step\<close>, with an invariant of its reachable states. An HTTP request is two steps: the API reads the manifest holder
    when the request arrives and again when it resolves the checks, and a refresh may swap the holder in between. \<open>Engine_Shutdown\<close> is \<^verbatim>\<open>main\<close>'s drain and the time it takes.
  \<^item> \<open>Table_Schemas\<close> and \<open>Execution_Table\<close>: \<^verbatim>\<open>results/schema.go\<close>. The BigQuery schemas, and what runner, record runners and
    detector together write to the execution table, row by row (\<open>row_step\<close>), against the contract of a row (\<open>row_ok\<close>).
  \<^item> \<open>Rule_Files\<close>, \<open>Lint\<close>, \<open>Lint_Owners\<close>, \<open>Lint_Main\<close>, \<open>Lint_Publish\<close>: \<^verbatim>\<open>tools/lint\<close>. A simulation of directory walks relates the
    linter's walk to the publisher's: what the publisher collects from a workspace that lints was linted.
  \<^item> \<open>Dryrun\<close>, \<open>Migrate\<close>: \<^verbatim>\<open>tools/dryrun\<close>, \<^verbatim>\<open>tools/migrate\<close>. The priced query is the query the evaluator runs, its parameters
    bound to a fixed placeholder day; the ceiling; which migrated rules the engine accepts.
  \<^item> This theory: the rows of the execution table and the detector's scans in every reachable state of the engine.

  \<^bold>\<open>Bounds and termination.\<close> One definition has fuel, the poll loop \<open>Record_Runner.Start\<close>, which in the source runs until
  its context is cancelled; it is proved that once the context stays cancelled some fuel suffices, and that more
  does not change the result. The commit loop is the source's own three attempts. The periodic loops recurse over
  the list of choices their \<^verbatim>\<open>select\<close> makes. All other loops recurse on their data; the few that do not (UTF-8
  sequences, dotted log names, decimal digits) come with a measure.

  \<^bold>\<open>Parameters.\<close> Code outside the repository is an argument: the BigQuery, Cloud Storage, Pub/Sub and Kafka clients,
  the YAML and JSON decoders of rules, manifests and requests, JSON Schema, the semantic-version library, DNS and
  HTTP probes of the linter, symbolic links of the file system. Where a property needs more than totality the
  hypothesis is named (\<open>scan_permutes\<close>, \<open>put_durable\<close>, \<open>iter_honest\<close>, \<open>clock_monotone\<close>, \<open>codec_roundtrip\<close>, \<open>gcs_bucket\<close>,
  \<open>same_decoders\<close>, \<open>registers\<close>, \<open>yaml_faithful\<close>) and a concrete instance satisfies it.
  Absence of SHA-256 collisions is assumed only for the two preimages a statement compares.

  \<^bold>\<open>Not modelled.\<close> Log lines, the layout of printed reports and usage texts, flag parsing, the help texts and buckets
  of the collectors, their HTTP exposition, and the construction of SDK clients carry no decision of the program.
  Apart from the two reads of a request, steps of the running engine are whole operations on shared state that is itself
  append-only or atomic; interleavings inside an attempt matter only for the execution table, which is treated row by row.
  A storage client that repeats a conditional write on its own is outside \<open>gcs_bucket\<close>.
  Letter case in log levels is folded for ASCII only.
\<close>

section \<open>The execution table of a running engine\<close>

text \<open>
  C6. The orphan detector never finds an abandoned execution: in every state the engine can reach from an empty
  table, whatever its attempts, record runners and scans have written, under every clock, a scan returns no
  candidate, so a pass finalises nothing and leaves tables and alerts as they were. The runner's running rows have
  a null \<^verbatim>\<open>started_at\<close>, which the scan requires to be set.
\<close>

theorem orphan_detector_inert:
  assumes "boot x su w = (Inr p, w0)" "executions w = []" "scan_permutes x" "engine_steps x su p (boot_state p w0) s"
  shows "fst (fst (RunOnce x (pa_detector p) (eg_world s))) = 0 \<and>
    executions (snd (RunOnce x (pa_detector p) (eg_world s))) = executions (eg_world s) \<and>
    published (snd (RunOnce x (pa_detector p) (eg_world s))) = published (eg_world s)"
proof -
  obtain cfg where wi: "wire x su cfg w = (Inr p, w0)"
    using assms(1) by (auto simp: boot_def split: sum.splits option.splits prod.splits)
  have rows: "list_all (row_ok x) (executions (eg_world s))"
    using row_steps_ok [OF engine_table [OF assms(1,3,4)]] assms(2) by simp
  have none: "runningOlderThanSQL b (scanned x (step (eg_world s))) = []" for b
    using rows canonical_subset set_scanned [OF assms(3)]
    by (fastforce simp: runningOlderThanSQL_def filter_empty_conv list_all_iff row_ok_def StatusRunning_def visible_def)
  show ?thesis using wire_parts(1) [OF wi]
    by (auto simp: RunOnce_def now_def Let_def bigquery_scanner_def ListRunningOlderThan_def none iterate_def
        split: option.split prod.split)
qed

text \<open>
  C7. Every row of the execution table, in every state the engine can reach from an empty one, has an
  identifier that is the digest of its own ruleset version, entity, window and source; an attempt id that
  \<^verbatim>\<open>uuid.NewString\<close> returned; the mode \<^verbatim>\<open>set\<close> or \<^verbatim>\<open>record\<close>; a status that is running or one of three terminal ones, never
  \<^verbatim>\<open>aborted\<close>; start and completion null exactly on running rows, and completion the time of the row otherwise; a
  summary exactly on failures; a window that is not empty; and no superseded execution, since neither the trigger
  surface nor the record runners produce an operator's rerun.
\<close>

theorem execution_rows_wellformed:
  assumes "boot x su w = (Inr p, w0)" "executions w = []" "scan_permutes x" "engine_steps x su p (boot_state p w0) s"
  shows "list_all (row_ok x) (executions (eg_world s))"
  using row_steps_ok [OF engine_table [OF assms(1,3,4)]] assms(2) by simp

theorem orphan_detector_inert_witness:
  "\<exists>(p :: unit parts) w0 s. boot quiet tiny_surroundings empty_world = (Inr p, w0) \<and>
     engine_steps quiet tiny_surroundings p (boot_state p w0) s \<and> eg_pending s \<noteq> [] \<and>
     fst (fst (RunOnce quiet (pa_detector p) (eg_world s))) = 0"
proof -
  obtain p :: "unit parts" and w0 s where s: "boot quiet tiny_surroundings empty_world = (Inr p, w0)"
    "engine_steps quiet tiny_surroundings p (boot_state p w0) s" "eg_pending s \<noteq> []"
    using attempted_state by fastforce
  from orphan_detector_inert [OF s(1) _ _ s(2)] s show ?thesis by auto
qed

theorem execution_rows_wellformed_witness:
  "\<exists>(p :: unit parts) w0 s. boot quiet tiny_surroundings empty_world = (Inr p, w0) \<and>
     engine_steps quiet tiny_surroundings p (boot_state p w0) s \<and> eg_pending s \<noteq> [] \<and>
     list_all (row_ok quiet) (executions (eg_world s))"
proof -
  obtain p :: "unit parts" and w0 s where s: "boot quiet tiny_surroundings empty_world = (Inr p, w0)"
    "engine_steps quiet tiny_surroundings p (boot_state p w0) s" "eg_pending s \<noteq> []"
    using attempted_state by fastforce
  from execution_rows_wellformed [OF s(1) _ _ s(2)] s show ?thesis by auto
qed

end
